(* ===== verification/Prelude.thy ===== *)
theory Prelude
  imports Main "HOL-Library.AList" "HOL-Library.Sublist"
begin

text \<open>
  What every component shares: the vocabulary of the model's types, Go error values with
  wrapping, joining and inspection (\<^verbatim>\<open>errors\<close>, \<^verbatim>\<open>fmt.Errorf\<close> and the sentinels of
  \<^verbatim>\<open>src/internal/errors/errors.go\<close>), the pieces of the \<^verbatim>\<open>strings\<close> and \<^verbatim>\<open>fmt\<close> packages the
  program uses, JSON values, and generic facts on lists and loops.

  Durations and instants are nanosecond counts (\<^typ>\<open>int\<close>): the program compares durations
  with zero, subtracts instants, and does no other arithmetic on them. Strings are byte
  sequences (\<^typ>\<open>string\<close>).
\<close>

section \<open>Types\<close>

type_synonym duration = int
type_synonym time = int
type_synonym strmap = "(string \<times> string) list"

named_theorems loop_simps \<open>equations that unfold one turn of a loop\<close>

section \<open>Strings\<close>

fun join :: "string \<Rightarrow> string list \<Rightarrow> string" where
  "join sep [] = []"
| "join sep [x] = x"
| "join sep (x # y # xs) = x @ sep @ join sep (y # xs)"

fun contains :: "string \<Rightarrow> string \<Rightarrow> bool" where
  "contains [] sub = (sub = [])"
| "contains (c # cs) sub = (prefix sub (c # cs) \<or> contains cs sub)"

fun dec :: "nat \<Rightarrow> string" where
  "dec n = (if n < 10 then [char_of (48 + n)] else dec (n div 10) @ [char_of (48 + n mod 10)])"

declare dec.simps [simp del]

text \<open>
  \<^verbatim>\<open>%q\<close> and \<^verbatim>\<open>strconv.Quote\<close>: the quote and the backslash are escaped, the usual control
  characters get their short escapes, and bytes of printable text are copied.
\<close>

definition trim_prefix :: "string \<Rightarrow> string \<Rightarrow> string" where
  "trim_prefix s p = (if take (length p) s = p then drop (length p) s else s)"

text \<open>\<^verbatim>\<open>strings.ReplaceAll\<close> for a non-empty text to be replaced.\<close>

function replace_all :: "string \<Rightarrow> string \<Rightarrow> string \<Rightarrow> string" where
  "replace_all old new [] = []"
| "replace_all old new (x # xs) =
     (if old \<noteq> [] \<and> take (length old) (x # xs) = old
      then new @ replace_all old new (drop (length old - 1) xs)
      else x # replace_all old new xs)"
  by pat_completeness auto
termination by (relation "measure (\<lambda>(old, new, s). length s)") auto

definition quote_char :: "char \<Rightarrow> string" where
  "quote_char c =
     (if c = CHR 0x22 then [CHR 0x5C, CHR 0x22]
      else if c = CHR 0x5C then [CHR 0x5C, CHR 0x5C]
      else if c = CHR 0x0A then [CHR 0x5C, CHR ''n'']
      else if c = CHR 0x0D then [CHR 0x5C, CHR ''r'']
      else if c = CHR 0x09 then [CHR 0x5C, CHR ''t'']
      else [c])"

definition go_quote :: "string \<Rightarrow> string" where
  "go_quote s = [CHR 0x22] @ concat (map quote_char s) @ [CHR 0x22]"

text \<open>\<^verbatim>\<open>strings.TrimSpace\<close> on the ASCII white space characters.\<close>

definition is_space :: "char \<Rightarrow> bool" where
  "is_space c = (c \<in> {CHR '' '', CHR 0x09, CHR 0x0A, CHR 0x0B, CHR 0x0C, CHR 0x0D})"

definition trim_space :: "string \<Rightarrow> string" where
  "trim_space s = rev (dropWhile is_space (rev (dropWhile is_space s)))"

text \<open>A string between single quotes, as the program's messages write names.\<close>

definition sq :: "string \<Rightarrow> string" where
  "sq s = [CHR 0x27] @ s @ [CHR 0x27]"

text \<open>A formatted message: its literal parts and its arguments in order.\<close>

definition msg :: "string list \<Rightarrow> string" where
  "msg parts = concat parts"

section \<open>Errors\<close>

datatype sentinel =
    ErrNilStep
  | ErrNilTestCase
  | ErrNilObject
  | ErrLogsNotContain
  | ErrLogsContainForbidden
  | ErrObjectNoGVK
  | ErrNilRestConfig
  | ErrObjectNotInMap
  | ErrNoSuites
  | Canceled
  | DeadlineExceeded

text \<open>
  The classes of API server errors the program tells apart
  (\<^verbatim>\<open>apierrors.IsNotFound\<close>, \<^verbatim>\<open>IsConflict\<close>, \<^verbatim>\<open>IsServerTimeout\<close>, \<^verbatim>\<open>IsServiceUnavailable\<close>).
\<close>

datatype status_reason = NotFound | Conflict | ServerTimeout | ServiceUnavailable | OtherReason

text \<open>
  A Go error: a sentinel, an opaque error with its message, an API status error, an error
  wrapped by \<^verbatim>\<open>fmt.Errorf("p%ws", e)\<close> as \<open>Wrapped p e s\<close>, or the result of \<^verbatim>\<open>errors.Join\<close>.
  A nil error is \<^const>\<open>None\<close> of \<open>go_error option\<close>.
\<close>

datatype go_error =
    Sentinel sentinel
  | Opaque string
  | ApiStatus status_reason string
  | Wrapped string go_error string
  | Joined "go_error list"

text \<open>\<^verbatim>\<open>fmt.Errorf("p: %w", e)\<close>.\<close>

definition wrap :: "string \<Rightarrow> go_error \<Rightarrow> go_error" where
  "wrap p e = Wrapped (p @ '': '') e []"

fun sentinel_text :: "sentinel \<Rightarrow> string" where
  "sentinel_text ErrNilStep = ''step is nil''"
| "sentinel_text ErrNilTestCase = ''test case is nil''"
| "sentinel_text ErrNilObject = ''object is nil''"
| "sentinel_text ErrLogsNotContain = ''logs do not contain expected string''"
| "sentinel_text ErrLogsContainForbidden = ''logs contain forbidden string''"
| "sentinel_text ErrObjectNoGVK = ''object GVK is empty''"
| "sentinel_text ErrNilRestConfig = ''rest config is nil''"
| "sentinel_text ErrObjectNotInMap = ''object not found in case objects map''"
| "sentinel_text ErrNoSuites = ''no test suites found''"
| "sentinel_text Canceled = ''context canceled''"
| "sentinel_text DeadlineExceeded = ''context deadline exceeded''"

fun err_text :: "go_error \<Rightarrow> string" where
  "err_text (Sentinel s) = sentinel_text s"
| "err_text (Opaque m) = m"
| "err_text (ApiStatus r m) = m"
| "err_text (Wrapped p e s) = p @ err_text e @ s"
| "err_text (Joined es) = join [CHR 0x0A] (map err_text es)"

text \<open>\<^verbatim>\<open>errors.Is\<close> against a sentinel: the tree of wrapped errors is searched.\<close>

fun errors_is :: "go_error \<Rightarrow> sentinel \<Rightarrow> bool" where
  "errors_is (Sentinel s) t = (s = t)"
| "errors_is (Opaque m) t = False"
| "errors_is (ApiStatus r m) t = False"
| "errors_is (Wrapped p e s) t = errors_is e t"
| "errors_is (Joined es) t = list_ex (\<lambda>e. errors_is e t) es"

fun first_some :: "'a option list \<Rightarrow> 'a option" where
  "first_some [] = None"
| "first_some (None # xs) = first_some xs"
| "first_some (Some x # xs) = Some x"

text \<open>The status of an error, found through wrapping as \<^verbatim>\<open>errors.As\<close> does.\<close>

fun reason_of :: "go_error \<Rightarrow> status_reason option" where
  "reason_of (Sentinel s) = None"
| "reason_of (Opaque m) = None"
| "reason_of (ApiStatus r m) = Some r"
| "reason_of (Wrapped p e s) = reason_of e"
| "reason_of (Joined es) = first_some (map reason_of es)"

definition is_reason :: "status_reason \<Rightarrow> go_error \<Rightarrow> bool" where
  "is_reason r e = (reason_of e = Some r)"

definition ctx_error :: "go_error \<Rightarrow> bool" where
  "ctx_error e = (errors_is e Canceled \<or> errors_is e DeadlineExceeded)"

text \<open>\<^verbatim>\<open>errors.Join\<close> drops nil errors and is nil when nothing is left.\<close>

definition errors_join :: "go_error option list \<Rightarrow> go_error option" where
  "errors_join xs = (case List.map_filter id xs of [] \<Rightarrow> None | es \<Rightarrow> Some (Joined es))"

section \<open>JSON values\<close>

datatype json =
    JNull
  | JBool bool
  | JNum string
  | JStr string
  | JArr "json list"
  | JObj "(string \<times> json) list"

section \<open>Maps as association lists\<close>

text \<open>\<^verbatim>\<open>maps.Copy(dst, src)\<close>: every entry of \<open>src\<close> overwrites or extends \<open>dst\<close>.\<close>

definition maps_copy :: "('k \<times> 'v) list \<Rightarrow> ('k \<times> 'v) list \<Rightarrow> ('k \<times> 'v) list" where
  "maps_copy dst src = foldl (\<lambda>m (k, v). AList.update k v m) dst src"

section \<open>Generic facts\<close>

lemma map_filter_snoc [simp]:
  "List.map_filter f (xs @ [x]) = List.map_filter f xs @ (case f x of None \<Rightarrow> [] | Some y \<Rightarrow> [y])"
  by (induction xs) (auto simp: List.map_filter_simps split: option.splits)

lemma errors_join_None_iff: "errors_join xs = None \<longleftrightarrow> (\<forall>x \<in> set xs. x = None)"
  by (induction xs) (auto simp: errors_join_def List.map_filter_simps split: list.splits option.splits)

lemma errors_join_pair:
  "errors_join [None, None] = None"
  "errors_join [None, Some b] = Some (Joined [b])"
  "errors_join [Some a, None] = Some (Joined [a])"
  "errors_join [Some a, Some b] = Some (Joined [a, b])"
  by (simp_all add: errors_join_def List.map_filter_simps)

lemma errors_join_Some_iff: "(\<exists>e. errors_join xs = Some e) \<longleftrightarrow> (\<exists>x. Some x \<in> set xs)"
proof -
  have "(\<exists>e. errors_join xs = Some e) \<longleftrightarrow> errors_join xs \<noteq> None" by auto
  then show ?thesis by (auto simp: errors_join_None_iff)
qed

lemma errors_is_wrap [simp]: "errors_is (wrap p e) t = errors_is e t"
  by (simp add: wrap_def)

lemma reason_of_wrap [simp]: "reason_of (wrap p e) = reason_of e"
  by (simp add: wrap_def)

lemma is_reason_wrap [simp]: "is_reason r (wrap p e) = is_reason r e"
  by (simp add: is_reason_def)

lemma err_text_wrap: "err_text (wrap p e) = p @ '': '' @ err_text e"
  by (simp add: wrap_def)

lemma ctx_error_simps [simp]:
  "ctx_error (Opaque m) = False"
  "ctx_error (ApiStatus r m) = False"
  "ctx_error (Wrapped p e s) = ctx_error e"
  "ctx_error (Sentinel t) = (t = Canceled \<or> t = DeadlineExceeded)"
  "ctx_error (wrap p e) = ctx_error e"
  by (auto simp: ctx_error_def)

lemma contains_sublist: "contains s sub \<longleftrightarrow> sublist sub s"
  by (induction s) (auto simp: sublist_Cons_right)

lemma foldl_update_lookup:
  "map_of (foldl (\<lambda>m (k, v). AList.update k v m) dst src) =
     foldl (\<lambda>m (k, v). m(k \<mapsto> v)) (map_of dst) src"
  by (induction src arbitrary: dst) (auto simp: update_conv')

lemma foldl_upd_notin:
  "k \<notin> fst ` set src \<Longrightarrow> foldl (\<lambda>m (k, v). m(k \<mapsto> v)) m src k = m k"
  by (induction src arbitrary: m) auto

lemma foldl_upd_distinct:
  "distinct (map fst src) \<Longrightarrow> map_of src k = Some v \<Longrightarrow>
     foldl (\<lambda>m (k, v). m(k \<mapsto> v)) m src k = Some v"
  by (induction src arbitrary: m) (auto simp: foldl_upd_notin split: if_splits)

lemma maps_copy_lookup:
  assumes "distinct (map fst src)"
  shows "map_of (maps_copy dst src) k =
     (case map_of src k of Some v \<Rightarrow> Some v | None \<Rightarrow> map_of dst k)"
proof (cases "map_of src k")
  case None
  then have "k \<notin> fst ` set src" by (simp add: map_of_eq_None_iff)
  with None show ?thesis
    by (simp add: maps_copy_def foldl_update_lookup foldl_upd_notin)
next
  case (Some v)
  with assms show ?thesis
    by (simp add: maps_copy_def foldl_update_lookup foldl_upd_distinct)
qed

lemma maps_copy_distinct [simp]:
  "distinct (map fst dst) \<Longrightarrow> distinct (map fst (maps_copy dst src))"
  unfolding maps_copy_def by (induction src arbitrary: dst) (auto simp: distinct_update)

end
