(* ===== verification/Safe_Store.thy ===== *)
theory Safe_Store
  imports Prelude
begin

text \<open>
  The key-value store of \<^verbatim>\<open>src/internal/tools/safe/store.go\<close> and the interface its clients
  rely on. Every method holds the store's lock from its first to its last access, so a method
  is one atomic step and is modelled as a function on the contents. The interface is the locale
  \<open>kv_store\<close>; the model of the Go type is its interpretation \<open>safe\<close>.
\<close>

section \<open>The store\<close>

type_synonym 'a store = "(string \<times> 'a) list"

definition NewStore :: "'a store" where
  "NewStore = []"

definition Put :: "'a store \<Rightarrow> string \<Rightarrow> 'a \<Rightarrow> 'a store" where
  "Put s key value = AList.update key value s"

definition Get :: "'a store \<Rightarrow> string \<Rightarrow> 'a option" where
  "Get s key = map_of s key"

definition Delete_key :: "'a store \<Rightarrow> string \<Rightarrow> 'a store" where
  "Delete_key s key = AList.delete key s"

text \<open>
  The iterator copies the contents under the read lock and then ranges over the copy. Go leaves
  the order of a map range open: it is the argument \<open>order\<close>.
\<close>

definition Iter :: "((string \<times> 'a) list \<Rightarrow> (string \<times> 'a) list) \<Rightarrow> 'a store \<Rightarrow> (string \<times> 'a) list" where
  "Iter order s = (let snapshot = s in order snapshot)"

definition keys :: "'a store \<Rightarrow> string set" where
  "keys s = fst ` set s"

section \<open>The interface\<close>

locale kv_store =
  fixes empty :: "'s"
    and put :: "'s \<Rightarrow> 'k \<Rightarrow> 'v \<Rightarrow> 's"
    and get :: "'s \<Rightarrow> 'k \<Rightarrow> 'v option"
    and del :: "'s \<Rightarrow> 'k \<Rightarrow> 's"
    and keyset :: "'s \<Rightarrow> 'k set"
  assumes get_empty: "get empty k = None"
    and get_put: "get (put s k v) k' = (if k' = k then Some v else get s k')"
    and get_del: "get (del s k) k' = (if k' = k then None else get s k')"
    and keyset_get: "k \<in> keyset s \<longleftrightarrow> get s k \<noteq> None"
begin

lemma keys_empty: "keyset empty = {}"
  by (auto simp: keyset_get get_empty)

lemma keys_put: "keyset (put s k v) = insert k (keyset s)"
  by (auto simp: keyset_get get_put split: if_splits)

lemma keys_del: "keyset (del s k) = keyset s - {k}"
  by (auto simp: keyset_get get_del split: if_splits)

lemma put_overwrites: "get (put (put s k v) k v') = get (put s k v')"
  by (auto simp: get_put)

lemma del_put_restores: "get s k = None \<Longrightarrow> get (del (put s k v) k) = get s"
  by (auto simp: get_put get_del)

lemma get_foldl_del: "get (foldl del s ks) k = (if k \<in> set ks then None else get s k)"
  by (induction ks arbitrary: s) (auto simp: get_del)

lemma drain: "keyset s \<subseteq> set ks \<Longrightarrow> keyset (foldl del s ks) = {}"
  by (auto simp: keyset_get get_foldl_del subset_iff split: if_splits)

end

interpretation safe: kv_store NewStore Put Get Delete_key keys
proof (unfold_locales, goal_cases)
  case (1 k)
  show ?case by (simp add: NewStore_def Get_def)
next
  case (2 s k v k')
  show ?case by (simp add: Put_def Get_def update_conv')
next
  case (3 s k k')
  show ?case by (simp add: Delete_key_def Get_def delete_conv')
next
  case (4 k s)
  show ?case by (simp add: keys_def Get_def map_of_eq_None_iff)
qed

lemmas store_simps = safe.keys_empty safe.keys_put safe.keys_del safe.get_put safe.get_del safe.get_empty

section \<open>Well-formedness: one entry per key\<close>

definition store_ok :: "'a store \<Rightarrow> bool" where
  "store_ok s = distinct (map fst s)"

lemma store_ok_NewStore [simp]: "store_ok NewStore"
  by (simp add: store_ok_def NewStore_def)

lemma store_ok_Put [simp]: "store_ok s \<Longrightarrow> store_ok (Put s k v)"
  by (simp add: store_ok_def Put_def distinct_update)

lemma store_ok_Delete [simp]: "store_ok s \<Longrightarrow> store_ok (Delete_key s k)"
  by (simp add: store_ok_def Delete_key_def distinct_delete)

lemma Iter_entries:
  assumes "store_ok s" and "set (order s) = set s"
  shows "(k, v) \<in> set (Iter order s) \<longleftrightarrow> Get s k = Some v"
  using assms by (auto simp: Iter_def Get_def store_ok_def)

lemma set_Put: "(k', v') \<in> set (Put s k v) \<Longrightarrow> (k', v') = (k, v) \<or> (k', v') \<in> set s"
  by (induction s) (auto simp: Put_def split: if_splits)

lemma set_Delete: "(k', v') \<in> set (Delete_key s k) \<Longrightarrow> (k', v') \<in> set s"
  by (auto simp: Delete_key_def AList.delete_eq)

end
