(* ===== verification/Retry.thy ===== *)
theory Retry
  imports Prelude
begin

text \<open>
  The two loops of the Kubernetes client libraries the program hands its closures to,
  \<^verbatim>\<open>retry.OnError\<close> and \<^verbatim>\<open>wait.PollUntilContextTimeout\<close>. Their code is not part of the
  repository: they are parameters of the model, and what their documentation promises is stated
  as two run relations (\<open>retry_run\<close>, \<open>poll_run\<close>) and two locales (\<open>retrier\<close>, \<open>poller\<close>) whose
  lemmas are the proof rules of every client. A reference implementation of each
  (\<open>retry_ref\<close>, \<open>poll_ref\<close>) interprets its locale, so the promises can be kept.

  A closure that captures variables is a function on the state \<open>'s\<close> of those variables; the
  relation \<open>idle\<close> says what may change between two calls (time passes).
\<close>

record backoff =
  bo_steps :: int
  bo_duration :: duration
  bo_factor :: int

section \<open>retry.OnError\<close>

text \<open>
  At most \<open>n\<close> calls; the first success ends the loop with nil, the first error that is not
  retriable ends it with that error, and the last allowed call ends it with its error. With no
  steps the closure is never called and the result is nil. When the closure fails with a
  context error that is not retriable, the library may report the last retriable error seen
  (\<open>seen\<close>, nil when there was none) instead of it: both outcomes are allowed.
\<close>

inductive retry_run ::
  "('s \<Rightarrow> 's \<Rightarrow> bool) \<Rightarrow> (go_error \<Rightarrow> bool) \<Rightarrow> ('s \<Rightarrow> go_error option \<times> 's) \<Rightarrow>
   nat \<Rightarrow> go_error option \<Rightarrow> 's \<Rightarrow> go_error option \<Rightarrow> 's \<Rightarrow> bool"
  for idle p f where
  no_steps: "retry_run idle p f 0 seen s None s"
| success: "f s = (None, s') \<Longrightarrow> retry_run idle p f (Suc n) seen s None s'"
| fatal: "f s = (Some e, s') \<Longrightarrow> \<not> p e \<Longrightarrow> retry_run idle p f (Suc n) seen s (Some e) s'"
| interrupted: "f s = (Some e, s') \<Longrightarrow> \<not> p e \<Longrightarrow> ctx_error e \<Longrightarrow>
    retry_run idle p f (Suc n) seen s seen s'"
| exhausted: "f s = (Some e, s') \<Longrightarrow> p e \<Longrightarrow> retry_run idle p f (Suc 0) seen s (Some e) s'"
| again: "f s = (Some e, s1) \<Longrightarrow> p e \<Longrightarrow> idle s1 s2 \<Longrightarrow>
    retry_run idle p f (Suc n) (Some e) s2 r s' \<Longrightarrow>
    retry_run idle p f (Suc (Suc n)) seen s r s'"

inductive_simps retry_run_0: "retry_run idle p f 0 seen s r s'"
inductive_cases retry_run_SucE: "retry_run idle p f (Suc n) seen s r s'"

section \<open>wait.PollUntilContextTimeout with an immediate first check\<close>

text \<open>
  The condition is called at least once. A call that reports done ends the poll with nil, a
  call that fails ends it with that error, and otherwise the poll goes on or is ended by the
  context error of the cancelled or expired context.
\<close>

inductive poll_run ::
  "('s \<Rightarrow> 's \<Rightarrow> bool) \<Rightarrow> ('s \<Rightarrow> (bool \<times> go_error option) \<times> 's) \<Rightarrow>
   's \<Rightarrow> go_error option \<Rightarrow> 's \<Rightarrow> bool"
  for idle cond where
  hit: "cond s = ((True, None), s') \<Longrightarrow> poll_run idle cond s None s'"
| failed: "cond s = ((b, Some e), s') \<Longrightarrow> poll_run idle cond s (Some e) s'"
| stopped: "cond s = ((False, None), s1) \<Longrightarrow> idle s1 s' \<Longrightarrow> ctx_error e \<Longrightarrow>
    poll_run idle cond s (Some e) s'"
| tick: "cond s = ((False, None), s1) \<Longrightarrow> idle s1 s2 \<Longrightarrow> poll_run idle cond s2 r s' \<Longrightarrow>
    poll_run idle cond s r s'"

section \<open>Reference implementations\<close>

fun retry_loop ::
  "('s \<Rightarrow> 's) \<Rightarrow> nat \<Rightarrow> go_error option \<Rightarrow> (go_error \<Rightarrow> bool) \<Rightarrow>
   ('s \<Rightarrow> go_error option \<times> 's) \<Rightarrow> 's \<Rightarrow> go_error option \<times> 's" where
  "retry_loop pause 0 seen p f s = (None, s)"
| "retry_loop pause (Suc n) seen p f s =
     (case f s of
        (None, s') \<Rightarrow> (None, s')
      | (Some e, s') \<Rightarrow>
          if p e then
            (case n of 0 \<Rightarrow> (Some e, s') | Suc m \<Rightarrow> retry_loop pause n (Some e) p f (pause s'))
          else if ctx_error e then (seen, s') else (Some e, s'))"

definition retry_ref ::
  "('s \<Rightarrow> 's) \<Rightarrow> backoff \<Rightarrow> (go_error \<Rightarrow> bool) \<Rightarrow> ('s \<Rightarrow> go_error option \<times> 's) \<Rightarrow> 's \<Rightarrow>
   go_error option \<times> 's" where
  "retry_ref pause b p f s = retry_loop pause (nat (bo_steps b)) None p f s"

text \<open>A poll that gives up with \<^const>\<open>DeadlineExceeded\<close> after \<open>n\<close> further checks.\<close>

fun poll_ref ::
  "('s \<Rightarrow> 's) \<Rightarrow> nat \<Rightarrow> ('s \<Rightarrow> (bool \<times> go_error option) \<times> 's) \<Rightarrow> 's \<Rightarrow> go_error option \<times> 's" where
  "poll_ref pause n cond s =
     (case cond s of
        ((b, Some e), s') \<Rightarrow> (Some e, s')
      | ((True, None), s') \<Rightarrow> (None, s')
      | ((False, None), s') \<Rightarrow>
          (case n of
             0 \<Rightarrow> (Some (Sentinel DeadlineExceeded), pause s')
           | Suc m \<Rightarrow> poll_ref pause m cond (pause s')))"

declare poll_ref.simps [simp del]

section \<open>The rules of the relations\<close>

lemma retry_run_invariant:
  assumes "retry_run idle p f n seen s r s'"
    and "I s" and "\<And>s. I s \<Longrightarrow> I (snd (f s))" and "\<And>s s'. I s \<Longrightarrow> idle s s' \<Longrightarrow> I s'"
  shows "I s'"
  using assms(1,2)
proof (induction rule: retry_run.induct)
  case (again s e s1 s2 n r s' seen)
  then have "I s1" using assms(3) [of s] by simp
  then have "I s2" using again.hyps(3) by (rule assms(4))
  then show ?case by (rule again.IH)
qed (use assms(3) in \<open>metis snd_conv\<close>)+

text \<open>
  The last call decides: the final state is the one it left, and the result is its result unless
  it failed with a context error that was not retriable.
\<close>

lemma retry_run_last:
  assumes "retry_run idle p f n seen s r s'" and "0 < n"
    and "I s" and "\<And>s. I s \<Longrightarrow> I (snd (f s))" and "\<And>s s'. I s \<Longrightarrow> idle s s' \<Longrightarrow> I s'"
  shows "\<exists>s1. I s1 \<and> snd (f s1) = s' \<and>
    (fst (f s1) = r \<or> (\<exists>e. fst (f s1) = Some e \<and> \<not> p e \<and> ctx_error e))"
  using assms(1-3)
proof (induction rule: retry_run.induct)
  case (again s e s1 s2 n r s' seen)
  then have "I s1" using assms(4) [of s] by simp
  then have "I s2" using again.hyps(3) by (rule assms(5))
  then show ?case using again.IH by simp
next
  case (no_steps seen s)
  then show ?case by simp
next
  case (success s s' n seen)
  then show ?case by (intro exI [of _ s]) simp
next
  case (fatal s e s' n seen)
  then show ?case by (intro exI [of _ s]) simp
next
  case (interrupted s e s' n seen)
  then show ?case by (intro exI [of _ s]) simp
next
  case (exhausted s e s' seen)
  then show ?case by (intro exI [of _ s]) simp
qed

lemma retry_run_single:
  assumes "retry_run idle (\<lambda>_. True) f (Suc 0) seen s r s'"
  shows "f s = (r, s')"
  using assms by (auto elim!: retry_run_SucE)

text \<open>
  What one call adds at most once is added at most as often as there are steps.
\<close>

lemma retry_run_bound:
  assumes "retry_run idle p f n seen s r s'"
    and "\<And>s. m (snd (f s)) \<le> Suc (m s)" and "\<And>s s'. idle s s' \<Longrightarrow> m s' = (m s :: nat)"
  shows "m s' \<le> m s + n"
  using assms(1)
proof (induction rule: retry_run.induct)
  case (again s e s1 s2 n r s' seen)
  have "m s1 \<le> Suc (m s)" using assms(2) [of s] again.hyps(1) by simp
  moreover have "m s2 = m s1" using again.hyps(3) by (rule assms(3))
  ultimately show ?case using again.IH by simp
next
  case (success s s' n seen)
  then show ?case using assms(2) [of s] by simp
next
  case (fatal s e s' n seen)
  then show ?case using assms(2) [of s] by simp
next
  case (interrupted s e s' n seen)
  then show ?case using assms(2) [of s] by simp
next
  case (exhausted s e s' seen)
  then show ?case using assms(2) [of s] by simp
qed simp

text \<open>
  Recovery: when every failing call advances a counter and calls succeed once it has reached \<open>k\<close>,
  enough steps give success.
\<close>

lemma retry_run_recovers:
  assumes "retry_run idle (\<lambda>_. True) f n seen s r s'"
    and "\<And>s e s'. f s = (Some e, s') \<Longrightarrow> Suc (m s) \<le> (m s' :: nat)" and "\<And>s s'. idle s s' \<Longrightarrow> m s \<le> m s'"
    and "\<And>s. k \<le> m s \<Longrightarrow> fst (f s) = None"
    and "k < n + m s"
  shows "r = None"
  using assms(1,5)
proof (induction n "seen" s r s' rule: retry_run.induct)
  case (exhausted s e s' seen)
  then show ?case using assms(4) [of s] by simp
next
  case (again s e s1 s2 n r s' seen)
  have "Suc (m s) \<le> m s2" using assms(2) [OF again.hyps(1)] assms(3) [OF again.hyps(3)] by simp
  then show ?case using again by simp
qed simp_all

lemma poll_run_invariant:
  assumes "poll_run idle cond s r s'"
    and "I s" and "\<And>s. I s \<Longrightarrow> I (snd (cond s))" and "\<And>s s'. I s \<Longrightarrow> idle s s' \<Longrightarrow> I s'"
  shows "I s'"
  using assms(1,2)
proof (induction rule: poll_run.induct)
  case (tick s s1 s2 r s')
  then have "I s1" using assms(3) [of s] by simp
  then have "I s2" using tick.hyps(2) by (rule assms(4))
  then show ?case by (rule tick.IH)
next
  case (stopped s s1 s' e)
  then have "I s1" using assms(3) [of s] by simp
  then show ?case using stopped.hyps(2) by (rule assms(4))
next
  case (hit s s')
  then show ?case using assms(3) [of s] by simp
next
  case (failed s b e s')
  then show ?case using assms(3) [of s] by simp
qed

lemma poll_run_hit:
  assumes "poll_run idle cond s r s'" and "r = None"
    and "I s" and "\<And>s. I s \<Longrightarrow> I (snd (cond s))" and "\<And>s s'. I s \<Longrightarrow> idle s s' \<Longrightarrow> I s'"
  shows "\<exists>s1. I s1 \<and> cond s1 = ((True, None), s')"
  using assms(1-3)
proof (induction rule: poll_run.induct)
  case (tick s s1 s2 r s')
  then have "I s1" using assms(4) [of s] by simp
  then have "I s2" using tick.hyps(2) by (rule assms(5))
  then show ?case using tick by blast
qed auto

text \<open>A poll that ends with an error while the condition never fails ran out of its context.\<close>

lemma poll_run_ctx:
  assumes "poll_run idle cond s r s'" and "r = Some e" and "\<And>s. snd (fst (cond s)) = None"
  shows "ctx_error e"
  using assms(1,2)
proof (induction rule: poll_run.induct)
  case (failed s b e' s')
  then show ?case using assms(3) [of s] by simp
qed auto

text \<open>A poll that ends with an error never saw its condition come true.\<close>

lemma poll_run_miss:
  assumes "poll_run idle cond s r s'" and "r = Some e" and "\<And>s. snd (fst (cond s)) = None"
    and "I s" and "\<And>s s'. I s \<Longrightarrow> cond s = ((False, None), s') \<Longrightarrow> I s'"
    and "\<And>s s'. I s \<Longrightarrow> idle s s' \<Longrightarrow> I s'"
  shows "I s'"
  using assms(1,2,4)
proof (induction rule: poll_run.induct)
  case (failed s b e' s')
  then show ?case using assms(3) [of s] by simp
next
  case (stopped s s1 s' e')
  then show ?case using assms(5,6) by blast
next
  case (tick s s1 s2 r s')
  then show ?case using assms(5,6) by blast
qed simp

section \<open>The contracts\<close>

locale retrier =
  fixes idle :: "'s \<Rightarrow> 's \<Rightarrow> bool"
    and on_error :: "backoff \<Rightarrow> (go_error \<Rightarrow> bool) \<Rightarrow> ('s \<Rightarrow> go_error option \<times> 's) \<Rightarrow> 's \<Rightarrow> go_error option \<times> 's"
  assumes runs: "retry_run idle p f (nat (bo_steps b)) None s (fst (on_error b p f s)) (snd (on_error b p f s))"
begin

lemma on_error_invariant:
  assumes "I s" and "\<And>s. I s \<Longrightarrow> I (snd (f s))" and "\<And>s s'. I s \<Longrightarrow> idle s s' \<Longrightarrow> I s'"
  shows "I (snd (on_error b p f s))"
  using retry_run_invariant [OF runs assms] .

lemma on_error_relates:
  assumes "reflp R" and "transp R" and "\<And>s. R s (snd (f s))" and "\<And>s s'. idle s s' \<Longrightarrow> R s s'"
  shows "R s (snd (on_error b p f s))"
proof (rule on_error_invariant [where I = "R s"])
  show "R s s" using assms(1) by (rule reflpD)
next
  fix t assume "R s t"
  then show "R s (snd (f t))" using assms(2,3) by (blast dest: transpD)
next
  fix t t' assume "R s t" and "idle t t'"
  then show "R s t'" using assms(2,4) by (blast dest: transpD)
qed

lemma on_error_last:
  assumes "0 < bo_steps b"
    and "I s" and "\<And>s. I s \<Longrightarrow> I (snd (f s))" and "\<And>s s'. I s \<Longrightarrow> idle s s' \<Longrightarrow> I s'"
  shows "\<exists>s1. I s1 \<and> snd (f s1) = snd (on_error b p f s) \<and>
    (fst (f s1) = fst (on_error b p f s) \<or> (\<exists>e. fst (f s1) = Some e \<and> \<not> p e \<and> ctx_error e))"
  using retry_run_last [OF runs _ assms(2-4)] assms(1) by simp

lemma on_error_always:
  assumes "0 < bo_steps b"
    and "I s" and "\<And>s. I s \<Longrightarrow> I (snd (f s))" and "\<And>s s'. I s \<Longrightarrow> idle s s' \<Longrightarrow> I s'"
  shows "\<exists>s1. I s1 \<and> f s1 = on_error b (\<lambda>_. True) f s"
proof -
  have "\<exists>s1. I s1 \<and> snd (f s1) = snd (on_error b (\<lambda>_. True) f s) \<and>
    (fst (f s1) = fst (on_error b (\<lambda>_. True) f s) \<or> (\<exists>e. fst (f s1) = Some e \<and> \<not> True \<and> ctx_error e))"
    by (rule on_error_last [OF assms])
  then obtain s1 where "I s1" and "fst (f s1) = fst (on_error b (\<lambda>_. True) f s)"
    and "snd (f s1) = snd (on_error b (\<lambda>_. True) f s)" by auto
  then show ?thesis by (intro exI [of _ s1]) (simp add: prod_eq_iff)
qed

lemma on_error_bound:
  assumes "\<And>s. m (snd (f s)) \<le> Suc (m s)" and "\<And>s s'. idle s s' \<Longrightarrow> m s' = (m s :: nat)"
  shows "m (snd (on_error b p f s)) \<le> m s + nat (bo_steps b)"
  by (rule retry_run_bound [OF runs [of p f b s]]) (use assms in auto)

lemma on_error_recovers:
  assumes "\<And>s e s'. f s = (Some e, s') \<Longrightarrow> Suc (m s) \<le> (m s' :: nat)" and "\<And>s s'. idle s s' \<Longrightarrow> m s \<le> m s'"
    and "\<And>s. k \<le> m s \<Longrightarrow> fst (f s) = None" and "k < nat (bo_steps b) + m s"
  shows "fst (on_error b (\<lambda>_. True) f s) = None"
  by (rule retry_run_recovers [where m = m, OF runs [of "\<lambda>_. True" f b s]]) (use assms in blast)+

lemma on_error_once:
  assumes "bo_steps b = 1"
  shows "on_error b (\<lambda>_. True) f s = f s"
proof -
  have "retry_run idle (\<lambda>_. True) f (Suc 0) None s (fst (on_error b (\<lambda>_. True) f s)) (snd (on_error b (\<lambda>_. True) f s))"
    using runs [of "\<lambda>_. True" f b s] assms by simp
  from retry_run_single [OF this] show ?thesis by simp
qed

end

locale poller =
  fixes idle :: "'s \<Rightarrow> 's \<Rightarrow> bool"
    and poll_until :: "('s \<Rightarrow> (bool \<times> go_error option) \<times> 's) \<Rightarrow> 's \<Rightarrow> go_error option \<times> 's"
  assumes polls: "poll_run idle cond s (fst (poll_until cond s)) (snd (poll_until cond s))"
begin

lemma poll_invariant:
  assumes "I s" and "\<And>s. I s \<Longrightarrow> I (snd (cond s))" and "\<And>s s'. I s \<Longrightarrow> idle s s' \<Longrightarrow> I s'"
  shows "I (snd (poll_until cond s))"
  using poll_run_invariant [OF polls assms] .

lemma poll_hit:
  assumes "fst (poll_until cond s) = None"
    and "I s" and "\<And>s. I s \<Longrightarrow> I (snd (cond s))" and "\<And>s s'. I s \<Longrightarrow> idle s s' \<Longrightarrow> I s'"
  shows "\<exists>s1. I s1 \<and> cond s1 = ((True, None), snd (poll_until cond s))"
  using poll_run_hit [OF polls assms] .

lemma poll_miss:
  assumes "fst (poll_until cond s) = Some e" and "\<And>s. snd (fst (cond s)) = None"
    and "I s" and "\<And>s s'. I s \<Longrightarrow> cond s = ((False, None), s') \<Longrightarrow> I s'"
    and "\<And>s s'. I s \<Longrightarrow> idle s s' \<Longrightarrow> I s'"
  shows "I (snd (poll_until cond s))"
  by (rule poll_run_miss [where I = I, OF polls [of cond s] assms(1)]) (fact assms(2-5))+

lemma poll_ctx:
  assumes "fst (poll_until cond s) = Some e" and "\<And>s. snd (fst (cond s)) = None"
  shows "ctx_error e"
  using poll_run_ctx [OF polls assms] .

end

section \<open>The reference implementations keep the contracts\<close>

lemma retry_loop_run:
  assumes "\<And>s. idle s (pause s)"
  shows "retry_run idle p f n seen s (fst (retry_loop pause n seen p f s)) (snd (retry_loop pause n seen p f s))"
proof (induction n arbitrary: seen s)
  case 0
  show ?case by (simp add: retry_run.no_steps)
next
  case (Suc n)
  obtain r s' where fs: "f s = (r, s')" by (cases "f s")
  show ?case
  proof (cases r)
    case None
    with fs show ?thesis by (simp add: retry_run.success)
  next
    case (Some e)
    then show ?thesis
      using fs Suc.IH [of "Some e" "pause s'"] assms
      by (cases n) (auto intro: retry_run.intros)
  qed
qed

lemma poll_ref_run:
  assumes "\<And>s. idle s (pause s)"
  shows "poll_run idle cond s (fst (poll_ref pause n cond s)) (snd (poll_ref pause n cond s))"
proof (induction n arbitrary: s)
  case 0
  obtain b r s' where "cond s = ((b, r), s')" by (metis surj_pair)
  then show ?case
    using assms by (cases b; cases r) (auto simp: poll_ref.simps [of _ 0] intro: poll_run.intros)
next
  case (Suc n)
  obtain b r s' where "cond s = ((b, r), s')" by (metis surj_pair)
  then show ?case
    using assms Suc.IH [of "pause s'"]
    by (cases b; cases r) (auto simp: poll_ref.simps [of _ "Suc n"] intro: poll_run.intros)
qed

lemma retrier_ref: "(\<And>s. idle s (pause s)) \<Longrightarrow> retrier idle (retry_ref pause)"
  by unfold_locales (simp add: retry_ref_def retry_loop_run)

lemma poller_ref: "(\<And>s. idle s (pause s)) \<Longrightarrow> poller idle (poll_ref pause n)"
  by unfold_locales (simp add: poll_ref_run)

end
