(* ===== verification/Kube_Env.thy ===== *)
theory Kube_Env
  imports Safe_Store Retry "HOL-Library.Multiset"
begin

text \<open>
  The world outside the program: the API server, the pods, the clock, cancellation, and the
  libraries the program calls. It is the record \<open>env\<close> of functions, a parameter of every
  operation. An answer of the world may depend on everything that happened before, so each
  function that has an effect takes the history of events first; a call appends one event, with
  the answer, to the history. Other clients, controllers and suites running in parallel are part
  of the world: nothing restricts how two answers are related.

  The theory also holds the state of the Kubernetes service (\<^verbatim>\<open>Service\<close> of
  \<^verbatim>\<open>src/internal/kube/service.go\<close>), the contract \<open>kube_env\<close> of the library loops the environment
  contains, and the observer \<open>track\<close> that reads from a history which objects are owed a deletion.
\<close>

section \<open>Objects, contexts, pods\<close>

record gvk =
  gvk_group :: string
  gvk_version :: string
  gvk_kind :: string

definition gvk_empty :: "gvk \<Rightarrow> bool" where
  "gvk_empty g = (gvk_group g = [] \<and> gvk_version g = [] \<and> gvk_kind g = [])"

text \<open>
  A \<^verbatim>\<open>client.Object\<close>: what its accessors read and write, whether it is a typed object (the
  engine-built Namespace) or an Unstructured one, and the rest of its content. A nil object is
  \<^const>\<open>None\<close> of \<open>kobj option\<close>.
\<close>

record kobj =
  o_gvk :: gvk
  o_name :: string
  o_namespace :: string
  o_annotations :: strmap
  o_typed :: bool
  o_body :: json

record objkey =
  key_namespace :: string
  key_name :: string

definition ObjectKeyFromObject :: "kobj \<Rightarrow> objkey" where
  "ObjectKeyFromObject obj = \<lparr>key_namespace = o_namespace obj, key_name = o_name obj\<rparr>"

text \<open>A context is the way it was derived from the context of the run.\<close>

datatype ctx = RunCtx | GroupCtx ctx | WithTimeout ctx duration | WithoutCancel ctx

datatype pod_phase = PodPending | PodRunning | PodSucceeded | PodFailed | PodUnknown

record pod =
  pod_name :: string
  phase_of :: pod_phase

datatype apply_option = FieldOwner string | ForceOwnership

datatype kstatus =
    InProgressStatus | FailedStatus | CurrentStatus | TerminatingStatus | NotFoundStatus | UnknownStatus

record obj_meta =
  om_group :: string
  om_kind :: string
  om_name :: string
  om_namespace :: string

record resource_status =
  rs_identifier :: obj_meta
  rs_status :: kstatus
  rs_resource :: "kobj option"

datatype poll_event_type = ErrorEvent | SyncEvent | ResourceUpdateEvent | OtherEvent

record poll_event =
  pe_type :: poll_event_type
  pe_error :: "go_error option"
  pe_resource :: "resource_status option"

text \<open>
  What a JQ program yields first: a value, or an error; the second component of an error is
  the halt value when the error is a \<^verbatim>\<open>HaltError\<close>.
\<close>

datatype jq_item = JqValue json | JqError go_error "json option"

section \<open>Events and the service\<close>

datatype ev =
    EvNow time
  | EvSleep duration
  | EvDelay ctx duration "go_error option"
  | EvMapping gvk "go_error + bool"
  | EvGet ctx gvk objkey "go_error + kobj"
  | EvApply ctx kobj "apply_option list" "go_error option"
  | EvUpdate ctx kobj "go_error option"
  | EvDelete ctx kobj "go_error option"
  | EvList ctx string string string "go_error + kobj list"
  | EvPods ctx string string "go_error + pod list"
  | EvLogs ctx string string string "go_error + (go_error + string)"
  | EvExec ctx string string string "string list" "(go_error \<times> string) option"
  | EvPoll ctx obj_meta duration
  | EvVersion "go_error + string"

text \<open>
  \<^verbatim>\<open>Service\<close>: its client handles are the environment; what is left is its configuration and the
  applied-resource cache.
\<close>

record service =
  svc_namespace :: string
  svc_applied :: "kobj store"
  svc_dryRun :: bool
  svc_forceConflicts :: bool

type_synonym kstate = "service \<times> ev list"
type_synonym ostate = "kobj \<times> service \<times> ev list"

section \<open>The environment\<close>

text \<open>
  \<open>env_on_error\<close> is \<^verbatim>\<open>retry.OnError\<close> for closures that capture an object and the service,
  \<open>env_on_error_w\<close> the same function for closures that capture neither. \<open>env_order\<close> is the order
  in which the runtime ranges over a map. A function of a library that only computes takes no
  history.
\<close>

record env =
  env_now :: "ev list \<Rightarrow> time"
  env_delay :: "ev list \<Rightarrow> ctx \<Rightarrow> duration \<Rightarrow> go_error option"
  env_ctx_err :: "ev list \<Rightarrow> ctx \<Rightarrow> go_error option"
  env_mapping :: "ev list \<Rightarrow> gvk \<Rightarrow> go_error + bool"
  env_get :: "ev list \<Rightarrow> ctx \<Rightarrow> gvk \<Rightarrow> objkey \<Rightarrow> go_error + kobj"
  env_apply :: "ev list \<Rightarrow> ctx \<Rightarrow> kobj \<Rightarrow> apply_option list \<Rightarrow> go_error option"
  env_update :: "ev list \<Rightarrow> ctx \<Rightarrow> kobj \<Rightarrow> go_error option"
  env_delete :: "ev list \<Rightarrow> ctx \<Rightarrow> kobj \<Rightarrow> go_error option"
  env_list :: "ev list \<Rightarrow> ctx \<Rightarrow> string \<Rightarrow> string \<Rightarrow> string \<Rightarrow> go_error + kobj list"
  env_pods :: "ev list \<Rightarrow> ctx \<Rightarrow> string \<Rightarrow> string \<Rightarrow> go_error + pod list"
  env_logs :: "ev list \<Rightarrow> ctx \<Rightarrow> string \<Rightarrow> string \<Rightarrow> string \<Rightarrow> int \<Rightarrow> go_error + (go_error + string)"
  env_exec :: "ev list \<Rightarrow> ctx \<Rightarrow> string \<Rightarrow> string \<Rightarrow> string \<Rightarrow> string list \<Rightarrow> (go_error \<times> string) option"
  env_executor :: "string \<Rightarrow> string \<Rightarrow> go_error option"
  env_poll :: "ev list \<Rightarrow> ctx \<Rightarrow> obj_meta \<Rightarrow> duration \<Rightarrow> poll_event list"
  env_version :: "ev list \<Rightarrow> go_error + string"
  env_on_error :: "backoff \<Rightarrow> (go_error \<Rightarrow> bool) \<Rightarrow> (ostate \<Rightarrow> go_error option \<times> ostate) \<Rightarrow>
    ostate \<Rightarrow> go_error option \<times> ostate"
  env_on_error_w :: "backoff \<Rightarrow> (go_error \<Rightarrow> bool) \<Rightarrow> (ev list \<Rightarrow> go_error option \<times> ev list) \<Rightarrow>
    ev list \<Rightarrow> go_error option \<times> ev list"
  env_poll_until :: "ctx \<Rightarrow> duration \<Rightarrow> duration \<Rightarrow> bool \<Rightarrow>
    (ev list \<Rightarrow> (bool \<times> go_error option) \<times> ev list) \<Rightarrow> ev list \<Rightarrow> go_error option \<times> ev list"
  env_DefaultBackoff :: backoff
  env_order :: "ev list \<Rightarrow> (string \<times> kobj) list \<Rightarrow> (string \<times> kobj) list"
  env_client :: "go_error option"
  env_to_unstructured :: "kobj \<Rightarrow> string + kobj"
  env_content :: "kobj \<Rightarrow> json"
  env_marshal :: "kobj \<Rightarrow> string + json"
  env_gvk_string :: "gvk \<Rightarrow> string"
  env_nested_string_map :: "json \<Rightarrow> string list \<Rightarrow> go_error + strmap option"
  env_labels_string :: "strmap \<Rightarrow> string"
  env_labels_parse :: "string \<Rightarrow> go_error + string"
  env_jq_parse :: "string \<Rightarrow> go_error + string"
  env_jq_run :: "ev list \<Rightarrow> ctx \<Rightarrow> string \<Rightarrow> json \<Rightarrow> jq_item option"
  env_reparse :: "json \<Rightarrow> string + json"
  env_format_num :: "string \<Rightarrow> string"
  env_decode_patch :: "json \<Rightarrow> string + json"
  env_apply_patch :: "json \<Rightarrow> bool \<Rightarrow> json \<Rightarrow> string + json"
  env_decode_object :: "json \<Rightarrow> string + kobj"
  env_tmpl_exec :: "string \<Rightarrow> (string \<times> json) list \<Rightarrow> string + string"
  env_decode_yaml :: "string \<Rightarrow> string + kobj"

text \<open>\<^verbatim>\<open>time.Now()\<close>.\<close>

definition now :: "env \<Rightarrow> ev list \<Rightarrow> time \<times> ev list" where
  "now E tr = (let t = env_now E tr in (t, tr @ [EvNow t]))"

section \<open>What may happen between two calls of a closure\<close>

definition idle_tr :: "ev list \<Rightarrow> ev list \<Rightarrow> bool" where
  "idle_tr tr tr' = (\<exists>ds. tr' = tr @ map EvSleep ds)"

definition idle_obj :: "ostate \<Rightarrow> ostate \<Rightarrow> bool" where
  "idle_obj s s' = (fst s' = fst s \<and> fst (snd s') = fst (snd s) \<and> idle_tr (snd (snd s)) (snd (snd s')))"

definition pause_tr :: "ev list \<Rightarrow> ev list" where
  "pause_tr tr = tr @ [EvSleep 0]"

definition pause_obj :: "ostate \<Rightarrow> ostate" where
  "pause_obj s = (fst s, fst (snd s), pause_tr (snd (snd s)))"

section \<open>The observer: which created objects are owed a deletion\<close>

text \<open>
  \<^verbatim>\<open>appliedKey\<close>: namespace, kind and name.
\<close>

definition appliedKey :: "kobj \<Rightarrow> string" where
  "appliedKey obj = join ''/'' [o_namespace obj, gvk_kind (o_gvk obj), o_name obj]"

text \<open>
  The observer reads the history alone. An existence probe answered with not-found and directly
  followed by a successful apply created the object; a delete request for the same key ends what
  is owed for it, whatever the server answered.
\<close>

fun track :: "bool \<times> string set \<Rightarrow> ev \<Rightarrow> bool \<times> string set" where
  "track (probed, K) (EvGet c g k (Inl e)) = (is_reason NotFound e, K)"
| "track (probed, K) (EvApply c obj os None) = (False, if probed then insert (appliedKey obj) K else K)"
| "track (probed, K) (EvDelete c obj r) = (False, K - {appliedKey obj})"
| "track (probed, K) x = (False, K)"

definition owed :: "bool \<times> string set \<Rightarrow> ev list \<Rightarrow> bool \<times> string set" where
  "owed st evs = foldl track st evs"

lemma owed_Nil [simp]: "owed st [] = st"
  by (simp add: owed_def)

lemma owed_append [simp]: "owed st (xs @ ys) = owed (owed st xs) ys"
  by (simp add: owed_def)

lemma owed_Cons [simp]: "owed st (x # xs) = owed (track st x) xs"
  by (simp add: owed_def)

text \<open>Events the observer ignores.\<close>

fun inert :: "ev \<Rightarrow> bool" where
  "inert (EvGet c g k r) = False"
| "inert (EvApply c obj os r) = False"
| "inert (EvDelete c obj r) = False"
| "inert x = True"

lemma track_inert [simp]: "inert x \<Longrightarrow> track (b, K) x = (False, K)"
  by (cases x) auto

lemma owed_inert: "list_all inert xs \<Longrightarrow> snd (owed (b, K) xs) = K"
  by (induction xs arbitrary: b) auto

lemma inert_sleeps [simp]: "list_all inert (map EvSleep ds)"
  by (induction ds) auto

section \<open>The guarantee of a service operation\<close>

text \<open>
  \<open>evolves s s'\<close>: from \<open>s\<close> to \<open>s'\<close> the history grew, the configuration stayed, and the keys of
  the applied cache moved exactly as the observer moves on the new events; a sound cache stays
  sound. It is a preorder, so
  the guarantee of a sequence of operations follows from the guarantee of each.
\<close>

definition same_config :: "service \<Rightarrow> service \<Rightarrow> bool" where
  "same_config s s' = (svc_namespace s' = svc_namespace s \<and> svc_dryRun s' = svc_dryRun s \<and>
     svc_forceConflicts s' = svc_forceConflicts s)"

text \<open>
  A cache entry is sound when it is filed under its own key and, in a service with a namespace,
  has no namespace only if the API server called its kind cluster-scoped.
\<close>

definition entry_ok :: "string \<Rightarrow> ev list \<Rightarrow> string \<Rightarrow> kobj \<Rightarrow> bool" where
  "entry_ok ns tr k obj = (k = appliedKey obj \<and>
     (ns \<noteq> [] \<longrightarrow> o_namespace obj = [] \<longrightarrow> EvMapping (o_gvk obj) (Inr False) \<in> set tr))"

definition cache_ok :: "kstate \<Rightarrow> bool" where
  "cache_ok s = (store_ok (svc_applied (fst s)) \<and>
     (\<forall>(k, obj) \<in> set (svc_applied (fst s)). entry_ok (svc_namespace (fst s)) (snd s) k obj))"

definition evolves :: "kstate \<Rightarrow> kstate \<Rightarrow> bool" where
  "evolves s s' = (same_config (fst s) (fst s') \<and>
     (cache_ok s \<longrightarrow> cache_ok s') \<and>
     (\<exists>sfx. snd s' = snd s @ sfx \<and>
        (\<forall>b. keys (svc_applied (fst s')) = snd (owed (b, keys (svc_applied (fst s))) sfx))))"

lemma same_config_refl [simp]: "same_config s s"
  by (simp add: same_config_def)

lemma evolves_refl [simp]: "evolves s s"
  by (auto simp: evolves_def)

lemma evolves_trans [trans]:
  assumes "evolves s t" and "evolves t u"
  shows "evolves s u"
proof -
  obtain x where x: "snd t = snd s @ x"
    "\<And>b. keys (svc_applied (fst t)) = snd (owed (b, keys (svc_applied (fst s))) x)"
    using assms(1) by (auto simp: evolves_def)
  obtain y where y: "snd u = snd t @ y"
    "\<And>b. keys (svc_applied (fst u)) = snd (owed (b, keys (svc_applied (fst t))) y)"
    using assms(2) by (auto simp: evolves_def)
  have "snd (owed (b, keys (svc_applied (fst s))) (x @ y)) = keys (svc_applied (fst u))" for b
  proof -
    have "owed (b, keys (svc_applied (fst s))) x =
        (fst (owed (b, keys (svc_applied (fst s))) x), keys (svc_applied (fst t)))"
      by (simp add: prod_eq_iff x(2) [of b])
    then show ?thesis using y(2) by (metis owed_append)
  qed
  then show ?thesis
    using assms x(1) y(1)
    by (auto simp: evolves_def same_config_def intro!: exI [of _ "x @ y"])
qed

lemma evolves_preorder [simp]: "reflp evolves" "transp evolves"
  by (auto intro: reflpI transpI evolves_trans)

lemma entry_ok_mono: "entry_ok ns tr k obj \<Longrightarrow> entry_ok ns (tr @ sfx) k obj"
  by (auto simp: entry_ok_def)

lemma cache_ok_mono: "cache_ok (sv, tr) \<Longrightarrow> cache_ok (sv, tr @ sfx)"
  by (auto simp: cache_ok_def intro: entry_ok_mono)

lemma cache_ok_NewStore [simp]: "svc_applied sv = NewStore \<Longrightarrow> cache_ok (sv, tr)"
  by (simp add: cache_ok_def NewStore_def store_ok_def)

lemma cache_ok_Put:
  assumes "cache_ok (sv, tr)" and "entry_ok (svc_namespace sv) tr k obj"
  shows "cache_ok (sv\<lparr>svc_applied := Put (svc_applied sv) k obj\<rparr>, tr)"
  using assms by (auto simp: cache_ok_def dest!: set_Put)

lemma cache_ok_Delete:
  "cache_ok (sv, tr) \<Longrightarrow> cache_ok (sv\<lparr>svc_applied := Delete_key (svc_applied sv) k\<rparr>, tr)"
  by (auto simp: cache_ok_def dest!: set_Delete)

lemma evolves_inert: "list_all inert xs \<Longrightarrow> evolves (sv, tr) (sv, tr @ xs)"
  by (auto simp: evolves_def owed_inert cache_ok_mono)

lemma evolves_inert1: "inert x \<Longrightarrow> evolves (sv, tr) (sv, tr @ [x])"
  by (rule evolves_inert) simp

lemma evolves_get: "evolves (sv, tr) (sv, tr @ [EvGet c g k r])"
  by (cases r) (auto simp: evolves_def cache_ok_mono)

section \<open>Quiet steps: nothing reaches the cluster\<close>

fun local_event :: "ev \<Rightarrow> bool" where
  "local_event (EvNow t) = True"
| "local_event (EvSleep d) = True"
| "local_event (EvDelay c d r) = True"
| "local_event x = False"

definition quiet :: "kstate \<Rightarrow> kstate \<Rightarrow> bool" where
  "quiet s s' = (fst s' = fst s \<and> (\<exists>sfx. snd s' = snd s @ sfx \<and> list_all local_event sfx))"

lemma quiet_refl [simp]: "quiet s s"
  by (auto simp: quiet_def)

lemma quiet_trans [trans]: "quiet s t \<Longrightarrow> quiet t u \<Longrightarrow> quiet s u"
  by (auto simp: quiet_def)

lemma quiet_event [simp]: "local_event x \<Longrightarrow> quiet (sv, tr) (sv, tr @ [x])"
  by (auto simp: quiet_def)

lemma quiet_dry: "quiet s s' \<Longrightarrow> svc_dryRun (fst s') = svc_dryRun (fst s)"
  by (simp add: quiet_def)

section \<open>The contract of the environment\<close>

locale kube_env =
  objs: retrier idle_obj "env_on_error E" +
  raws: retrier idle_tr "env_on_error_w E"
  for E :: env +
  assumes polls: "poller idle_tr (env_poll_until E c i t im)"
    and order_same: "mset (env_order E tr m) = mset m"
    and default_steps: "0 < bo_steps (env_DefaultBackoff E)"
    and convert_key: "env_to_unstructured E obj = Inr raw \<Longrightarrow> appliedKey raw = appliedKey obj"
begin

lemma order_set: "set (env_order E tr m) = set m"
  using order_same [of tr m] by (metis set_mset_mset)

lemma on_error_evolves:
  assumes "\<And>obj sv tr. evolves (sv, tr) (snd (snd (f (obj, sv, tr))))"
  shows "evolves (sv, tr) (snd (snd (env_on_error E b p f (obj, sv, tr))))"
proof -
  have "(\<lambda>s s'. evolves (snd s) (snd s')) (obj, sv, tr) (snd (env_on_error E b p f (obj, sv, tr)))"
  proof (rule objs.on_error_relates)
    show "reflp (\<lambda>s s'. evolves (snd s) (snd s'))" by (simp add: reflp_def)
    show "transp (\<lambda>s s'. evolves (snd s) (snd s'))" by (auto intro: transpI evolves_trans)
  next
    fix s :: ostate
    show "evolves (snd s) (snd (snd (f s)))"
      using assms [of "fst (snd s)" "snd (snd s)" "fst s"] by simp
  next
    fix s s' :: ostate
    assume "idle_obj s s'"
    then show "evolves (snd s) (snd s')"
      by (cases s; cases s') (auto simp: idle_obj_def idle_tr_def intro: evolves_inert)
  qed
  then show ?thesis by simp
qed

lemma on_error_w_evolves:
  assumes "\<And>tr. evolves (sv, tr) (sv, snd (f tr))"
  shows "evolves (sv, tr) (sv, snd (env_on_error_w E b p f tr))"
proof -
  have "(\<lambda>s s'. evolves (sv, s) (sv, s')) tr (snd (env_on_error_w E b p f tr))"
  proof (rule raws.on_error_relates)
    show "reflp (\<lambda>s s'. evolves (sv, s) (sv, s'))" by (simp add: reflp_def)
    show "transp (\<lambda>s s'. evolves (sv, s) (sv, s'))" by (auto intro: transpI evolves_trans)
    show "evolves (sv, s) (sv, snd (f s))" for s by (rule assms)
    show "evolves (sv, s) (sv, s')" if "idle_tr s s'" for s s'
      using that by (auto simp: idle_tr_def intro: evolves_inert)
  qed
  then show ?thesis by simp
qed

lemma poll_until_evolves:
  assumes "\<And>tr. evolves (sv, tr) (sv, snd (cond tr))"
  shows "evolves (sv, tr) (sv, snd (env_poll_until E c i t im cond tr))"
proof (rule poller.poll_invariant [OF polls, where I = "\<lambda>x. evolves (sv, tr) (sv, x)"])
  show "evolves (sv, tr) (sv, tr)" by simp
next
  fix s assume "evolves (sv, tr) (sv, s)"
  then show "evolves (sv, tr) (sv, snd (cond s))" using assms by (rule evolves_trans)
next
  fix s s' assume "evolves (sv, tr) (sv, s)" and "idle_tr s s'"
  moreover have "evolves (sv, s) (sv, s')"
    using \<open>idle_tr s s'\<close> by (auto simp: idle_tr_def intro: evolves_inert)
  ultimately show "evolves (sv, tr) (sv, s')" by (blast intro: evolves_trans)
qed

end

section \<open>The contract can be kept by any cluster\<close>

text \<open>
  Whatever the cluster does, with the reference loops, an order-preserving map range, a default
  backoff of four steps and a conversion that keeps the object the contract is kept.
\<close>

definition reference_env :: "env \<Rightarrow> env" where
  "reference_env base = base\<lparr>
     env_on_error := retry_ref pause_obj,
     env_on_error_w := retry_ref pause_tr,
     env_poll_until := (\<lambda>c i t im. poll_ref pause_tr (nat (t div i))),
     env_DefaultBackoff := \<lparr>bo_steps = 4, bo_duration = 10000000, bo_factor = 5\<rparr>,
     env_order := (\<lambda>tr m. m),
     env_to_unstructured := (\<lambda>obj. Inr (obj\<lparr>o_typed := False\<rparr>))\<rparr>"

lemma idle_pause_tr [simp]: "idle_tr tr (pause_tr tr)"
  by (auto simp: idle_tr_def pause_tr_def intro!: exI [of _ "[0]"])

lemma idle_pause_obj [simp]: "idle_obj s (pause_obj s)"
  by (simp add: idle_obj_def pause_obj_def)

interpretation ref_objs: retrier idle_obj "retry_ref pause_obj"
  by (rule retrier_ref) simp

interpretation ref_raws: retrier idle_tr "retry_ref pause_tr"
  by (rule retrier_ref) simp

interpretation ref_polls: poller idle_tr "poll_ref pause_tr n"
  by (rule poller_ref) simp

interpretation reference: kube_env "reference_env base"
proof (intro kube_env.intro kube_env_axioms.intro)
  show "retrier idle_obj (env_on_error (reference_env base))"
    by (simp add: reference_env_def ref_objs.retrier_axioms)
  show "retrier idle_tr (env_on_error_w (reference_env base))"
    by (simp add: reference_env_def ref_raws.retrier_axioms)
  show "poller idle_tr (env_poll_until (reference_env base) c i t im)" for c i t im
    by (simp add: reference_env_def ref_polls.poller_axioms)
  show "mset (env_order (reference_env base) tr m) = mset m" for tr m
    by (simp add: reference_env_def)
  show "0 < bo_steps (env_DefaultBackoff (reference_env base))"
    by (simp add: reference_env_def)
  show "env_to_unstructured (reference_env base) obj = Inr raw \<Longrightarrow> appliedKey raw = appliedKey obj" for obj raw
    by (auto simp: reference_env_def appliedKey_def)
qed

end
