(* ===== verification/Tools.thy ===== *)
theory Tools
  imports Kube_Env "HOL-Library.List_Lexorder" "HOL-Library.Char_ord"
begin

text \<open>
  The three tool packages between the engine and its libraries: JQ conditions
  (\<^verbatim>\<open>src/internal/tools/filter/jq.go\<close>), JSON patches (\<^verbatim>\<open>src/internal/tools/patch/patch.go\<close>) and
  object templates (\<^verbatim>\<open>src/internal/template/manager.go\<close>). The JQ interpreter, the JSON patch
  library, the template engine and the object decoders are functions of the environment.
\<close>

section \<open>JQ filters\<close>

text \<open>
  \<^verbatim>\<open>normalize\<close>: encoding a JSON value cannot fail; decoding it again can, and changes how numbers
  are represented (\<open>env_reparse\<close>).
\<close>

definition normalize :: "env \<Rightarrow> json \<Rightarrow> go_error + json" where
  "normalize E val =
     (case env_reparse E val of
        Inl m \<Rightarrow> Inl (wrap ''unmarshal value'' (Opaque m))
      | Inr out \<Rightarrow> Inr out)"

definition jq_exec :: "env \<Rightarrow> ev list \<Rightarrow> ctx \<Rightarrow> kobj \<Rightarrow> string \<Rightarrow> go_error + json" where
  "jq_exec E tr c obj exp =
     (case env_jq_parse E exp of
        Inl e \<Rightarrow> Inl (wrap ''parse the expression'' e)
      | Inr query \<Rightarrow>
          (case normalize E (env_content E obj) of
             Inl e \<Rightarrow> Inl (wrap ''normalize object'' e)
           | Inr val \<Rightarrow>
               (case env_jq_run E tr c query val of
                  None \<Rightarrow> Inr (JBool False)
                | Some (JqError e halt) \<Rightarrow>
                    if halt = Some JNull then Inr (JBool False)
                    else Inl (wrap ''evaluate the expression'' e)
                | Some (JqValue v) \<Rightarrow> Inr v)))"

fun go_type :: "json \<Rightarrow> string" where
  "go_type JNull = ''<nil>''"
| "go_type (JBool b) = ''bool''"
| "go_type (JNum n) = ''float64''"
| "go_type (JStr s) = ''string''"
| "go_type (JArr xs) = ''[]interface {}''"
| "go_type (JObj m) = ''map[string]interface {}''"

definition Pass :: "env \<Rightarrow> ev list \<Rightarrow> ctx \<Rightarrow> kobj \<Rightarrow> string \<Rightarrow> go_error + bool" where
  "Pass E tr c obj cond =
     (case jq_exec E tr c obj cond of
        Inl e \<Rightarrow> Inl e
      | Inr (JBool pass) \<Rightarrow> Inr pass
      | Inr res \<Rightarrow> Inl (Opaque (msg [''condition must evaluate to boolean, got '', go_type res])))"

text \<open>\<^verbatim>\<open>fmt.Sprintf("%v", res)\<close> on decoded JSON; maps print in key order.\<close>

fun go_format :: "(string \<Rightarrow> string) \<Rightarrow> json \<Rightarrow> string" where
  "go_format num JNull = ''<nil>''"
| "go_format num (JBool b) = (if b then ''true'' else ''false'')"
| "go_format num (JNum n) = num n"
| "go_format num (JStr s) = s"
| "go_format num (JArr xs) = ''['' @ join '' '' (map (go_format num) xs) @ '']''"
| "go_format num (JObj m) =
     ''map['' @ join '' '' (map (\<lambda>(k, s). k @ '':'' @ s)
        (sort_key fst (map (\<lambda>(k, v). (k, go_format num v)) m))) @ '']''"

definition Filter :: "env \<Rightarrow> ev list \<Rightarrow> ctx \<Rightarrow> kobj \<Rightarrow> string \<Rightarrow> go_error + string" where
  "Filter E tr c obj exp =
     (case jq_exec E tr c obj exp of
        Inl e \<Rightarrow> Inl e
      | Inr JNull \<Rightarrow> Inr ''null''
      | Inr res \<Rightarrow> Inr (go_format (env_format_num E) res))"

section \<open>JSON patches\<close>

record patch_op =
  p_Op :: string
  p_Path :: string
  p_From :: string
  p_Value :: json

text \<open>
  The JSON encoding of one patch: \<^verbatim>\<open>from\<close> is left out when empty, \<^verbatim>\<open>value\<close> is always there.
\<close>

definition patch_json :: "patch_op \<Rightarrow> json" where
  "patch_json p = JObj ([(''op'', JStr (p_Op p)), (''path'', JStr (p_Path p))] @
     (if p_From p = [] then [] else [(''from'', JStr (p_From p))]) @
     [(''value'', p_Value p)])"

definition Patches_Apply :: "env \<Rightarrow> patch_op list \<Rightarrow> kobj option \<Rightarrow> bool \<Rightarrow> go_error + kobj" where
  "Patches_Apply E ps objp ensurePath =
     (case objp of
        None \<Rightarrow> Inl (Sentinel ErrNilObject)
      | Some obj \<Rightarrow>
          (case env_marshal E obj of
             Inl m \<Rightarrow> Inl (wrap ''marshal object'' (Opaque m))
           | Inr doc \<Rightarrow>
               (case env_decode_patch E (JArr (map patch_json ps)) of
                  Inl m \<Rightarrow> Inl (wrap ''parse patches'' (Opaque m))
                | Inr parsed \<Rightarrow>
                    (case env_apply_patch E parsed ensurePath doc of
                       Inl m \<Rightarrow> Inl (wrap ''apply patches'' (Opaque m))
                     | Inr patched \<Rightarrow>
                         (case env_decode_object E patched of
                            Inl m \<Rightarrow> Inl (wrap (msg [''decode the '', sq (o_name obj), '' object'']) (Opaque m))
                          | Inr out \<Rightarrow> Inr out)))))"

section \<open>Templates\<close>

text \<open>
  The manager is the table of parsed templates, keyed by file name without the extension.
\<close>

record manager =
  templates :: "(string \<times> string) list"

definition Render :: "env \<Rightarrow> manager \<Rightarrow> string \<Rightarrow> (string \<times> json) list \<Rightarrow> go_error + kobj" where
  "Render E mgr name values =
     (case map_of (templates mgr) name of
        None \<Rightarrow> Inl (Opaque (msg [''the template '', sq name, '' not found'']))
      | Some tmpl \<Rightarrow>
          (case env_tmpl_exec E tmpl values of
             Inl m \<Rightarrow> Inl (Opaque m)
           | Inr buf \<Rightarrow>
               (case env_decode_yaml E buf of
                  Inl m \<Rightarrow> Inl (wrap (msg [''decode the template '', sq name]) (Opaque m))
                | Inr obj \<Rightarrow> Inr obj)))"

section \<open>Facts\<close>

lemma Pass_true_iff: "Pass E tr c obj cond = Inr True \<longleftrightarrow> jq_exec E tr c obj cond = Inr (JBool True)"
  by (auto simp: Pass_def split: sum.splits json.splits)

lemma patch_json_fields:
  "patch_json p = JObj fs \<Longrightarrow> map_of fs ''value'' = Some (p_Value p) \<and>
     map_of fs ''from'' = (if p_From p = [] then None else Some (JStr (p_From p)))"
  by (auto simp: patch_json_def)

end
