(* ===== verification/Kube_Core.thy ===== *)
theory Kube_Core
  imports Tools
begin

text \<open>
  The Kubernetes service of \<^verbatim>\<open>src/internal/kube/service.go\<close>: construction and its options,
  namespace defaulting, \<^verbatim>\<open>Ensure\<close> (Server-Side Apply) and \<^verbatim>\<open>Patch\<close>. Functional options are
  functions on the option record, applied from left to right. Every operation returns its error
  (\<^const>\<open>None\<close> for nil), the service and the history. The guarantee \<open>evolves\<close> and the dry-run
  guarantee \<open>quiet\<close> are proved for each.
\<close>

section \<open>Construction\<close>

definition managerField :: string where
  "managerField = ''kube2e''"

definition namespaceDefault :: string where
  "namespaceDefault = ''default''"

definition waitInterval :: duration where
  "waitInterval = 2 * 1000000000"

type_synonym option_fun = "service \<Rightarrow> service"

definition WithNamespace :: "string \<Rightarrow> option_fun" where
  "WithNamespace ns svc = (if ns \<noteq> [] then svc\<lparr>svc_namespace := ns\<rparr> else svc)"

definition WithDryRun :: option_fun where
  "WithDryRun svc = svc\<lparr>svc_dryRun := True\<rparr>"

definition WithForceConflicts :: option_fun where
  "WithForceConflicts svc = svc\<lparr>svc_forceConflicts := True\<rparr>"

text \<open>
  The clients are built by the libraries only outside dry-run mode; \<open>env_client\<close> is the error of
  building them.
\<close>

definition New_service :: "env \<Rightarrow> option_fun list \<Rightarrow> go_error + service" where
  "New_service E opts =
     (let svc = foldl (\<lambda>s opt. opt s)
                  \<lparr>svc_namespace = namespaceDefault, svc_applied = NewStore,
                   svc_dryRun = False, svc_forceConflicts = False\<rparr> opts
      in if svc_dryRun svc then Inr svc
         else (case env_client E of Some e \<Rightarrow> Inl e | None \<Rightarrow> Inr svc))"

section \<open>Retry options\<close>

definition retryAlways :: "go_error \<Rightarrow> bool" where
  "retryAlways e = True"

definition retryBackoff :: "int \<Rightarrow> duration \<Rightarrow> backoff" where
  "retryBackoff attempts d = \<lparr>bo_steps = max attempts 1, bo_duration = d, bo_factor = 1\<rparr>"

record ensure_options =
  eo_Annotations :: strmap
  eo_ToCache :: bool
  eo_Retry :: backoff

definition newEnsureOptions :: ensure_options where
  "newEnsureOptions = \<lparr>eo_Annotations = [], eo_ToCache = True, eo_Retry = retryBackoff 1 0\<rparr>"

definition WithEnsureAnnotations :: "strmap \<Rightarrow> ensure_options \<Rightarrow> ensure_options" where
  "WithEnsureAnnotations annotations o' =
     (if length annotations = 0 then o'
      else o'\<lparr>eo_Annotations := maps_copy (eo_Annotations o') annotations\<rparr>)"

definition WithEnsureToCache :: "bool \<Rightarrow> ensure_options \<Rightarrow> ensure_options" where
  "WithEnsureToCache toCache o' = o'\<lparr>eo_ToCache := toCache\<rparr>"

definition WithEnsureRetry :: "int \<Rightarrow> duration \<Rightarrow> ensure_options \<Rightarrow> ensure_options" where
  "WithEnsureRetry attempts d o' = o'\<lparr>eo_Retry := retryBackoff attempts d\<rparr>"

section \<open>Namespace defaulting\<close>

definition setNamespace :: "env \<Rightarrow> ostate \<Rightarrow> go_error option \<times> ostate" where
  "setNamespace E = (\<lambda>(obj, svc, tr).
     let g = o_gvk obj in
     if gvk_empty g then (Some (Sentinel ErrObjectNoGVK), (obj, svc, tr))
     else
       let r = env_mapping E tr g; tr = tr @ [EvMapping g r] in
       (case r of
          Inl e \<Rightarrow> (Some (wrap (msg [''REST mapping for the object '', sq (env_gvk_string E g)]) e), (obj, svc, tr))
        | Inr namespaced \<Rightarrow>
            (None, (if namespaced \<and> o_namespace obj = []
                    then obj\<lparr>o_namespace := svc_namespace svc\<rparr> else obj, svc, tr))))"

section \<open>Ensure\<close>

definition applyOptions :: "bool \<Rightarrow> apply_option list" where
  "applyOptions forceConflicts = [FieldOwner managerField] @ (if forceConflicts then [ForceOwnership] else [])"

text \<open>
  Unstructured objects are applied as they are, typed ones are converted first.
\<close>

definition toApplyConfiguration :: "env \<Rightarrow> kobj \<Rightarrow> go_error + kobj" where
  "toApplyConfiguration E obj =
     (if \<not> o_typed obj then Inr obj
      else (case env_to_unstructured E obj of
              Inl m \<Rightarrow> Inl (wrap ''convert *v1.Namespace to unstructured'' (Opaque m))
            | Inr raw \<Rightarrow> Inr raw))"

definition merge_annotations :: "strmap \<Rightarrow> kobj \<Rightarrow> kobj" where
  "merge_annotations extra obj =
     (if 0 < length extra then obj\<lparr>o_annotations := maps_copy (o_annotations obj) extra\<rparr> else obj)"

text \<open>
  The existence probe: \<open>err == nil\<close> and not-found are both fine, anything else fails the attempt.
\<close>

definition get_failure :: "go_error + kobj \<Rightarrow> go_error option" where
  "get_failure r = (case r of Inl e \<Rightarrow> if is_reason NotFound e then None else Some e | Inr _ \<Rightarrow> None)"

definition get_not_found :: "go_error + kobj \<Rightarrow> bool" where
  "get_not_found r = (case r of Inl e \<Rightarrow> is_reason NotFound e | Inr _ \<Rightarrow> False)"

text \<open>The innermost closure of \<^verbatim>\<open>Ensure\<close>: one attempt.\<close>

definition ensure_attempt :: "env \<Rightarrow> ctx \<Rightarrow> ensure_options \<Rightarrow> ostate \<Rightarrow> go_error option \<times> ostate" where
  "ensure_attempt E c opts s =
     (case setNamespace E s of
        (Some e, (obj, svc, tr)) \<Rightarrow>
          (Some (wrap (msg [''set namespace for the object '', sq (o_name obj)]) e), (obj, svc, tr))
      | (None, (obj, svc, tr)) \<Rightarrow>
          let obj = merge_annotations (eo_Annotations opts) obj in
          (case toApplyConfiguration E obj of
             Inl e \<Rightarrow> (Some (wrap ''to apply configuration'' e), (obj, svc, tr))
           | Inr applyObj \<Rightarrow>
               let r = env_get E tr c (o_gvk obj) (ObjectKeyFromObject obj);
                   tr = tr @ [EvGet c (o_gvk obj) (ObjectKeyFromObject obj) r] in
               (case get_failure r of
                  Some e \<Rightarrow> (Some (wrap ''get object'' e), (obj, svc, tr))
                | None \<Rightarrow>
                    let created = get_not_found r;
                        os = applyOptions (svc_forceConflicts svc);
                        a = env_apply E tr c applyObj os;
                        tr = tr @ [EvApply c applyObj os a] in
                    (case a of
                       Some e \<Rightarrow> (Some e, (obj, svc, tr))
                     | None \<Rightarrow>
                         (None, (obj,
                            if created \<and> eo_ToCache opts
                            then svc\<lparr>svc_applied := Put (svc_applied svc) (appliedKey obj) obj\<rparr>
                            else svc, tr))))))"

definition Ensure :: "env \<Rightarrow> ctx \<Rightarrow> kobj option \<Rightarrow> (ensure_options \<Rightarrow> ensure_options) list \<Rightarrow>
    kstate \<Rightarrow> go_error option \<times> kstate" where
  "Ensure E c objp opts = (\<lambda>(svc, tr).
     case objp of
       None \<Rightarrow> (Some (Sentinel ErrNilObject), (svc, tr))
     | Some obj \<Rightarrow>
         if svc_dryRun svc then (None, (svc, tr))
         else
           let ensureOpts = foldl (\<lambda>o' opt. opt o') newEnsureOptions opts in
           (case env_on_error E (eo_Retry ensureOpts) retryAlways
                   (env_on_error E (env_DefaultBackoff E) (is_reason ServerTimeout)
                     (env_on_error E (env_DefaultBackoff E) (is_reason ServiceUnavailable)
                       (ensure_attempt E c ensureOpts)))
                   (obj, svc, tr) of
              (r, (obj, svc, tr)) \<Rightarrow> (r, (svc, tr))))"

section \<open>Patch\<close>

definition WithPatchRetry :: "int \<Rightarrow> duration \<Rightarrow> backoff \<Rightarrow> backoff" where
  "WithPatchRetry attempts d o' = retryBackoff attempts d"

definition patch_attempt :: "env \<Rightarrow> ctx \<Rightarrow> kobj \<Rightarrow> patch_op list \<Rightarrow> ev list \<Rightarrow> go_error option \<times> ev list" where
  "patch_attempt E c obj patches tr =
     (let r = env_get E tr c (o_gvk obj) (ObjectKeyFromObject obj);
          tr = tr @ [EvGet c (o_gvk obj) (ObjectKeyFromObject obj) r] in
      case r of
        Inl e \<Rightarrow> (Some (wrap ''get object'' e), tr)
      | Inr live \<Rightarrow>
          (case Patches_Apply E patches (Some live) True of
             Inl e \<Rightarrow> (Some (wrap (msg [''apply patches to object '', sq (o_name obj)]) e), tr)
           | Inr patched \<Rightarrow>
               let u = env_update E tr c patched in (u, tr @ [EvUpdate c patched u])))"

definition Patch :: "env \<Rightarrow> ctx \<Rightarrow> kobj option \<Rightarrow> patch_op list \<Rightarrow> (backoff \<Rightarrow> backoff) list \<Rightarrow>
    kstate \<Rightarrow> go_error option \<times> kstate" where
  "Patch E c objp patches opts = (\<lambda>(svc, tr).
     case objp of
       None \<Rightarrow> (Some (Sentinel ErrNilObject), (svc, tr))
     | Some obj \<Rightarrow>
         if svc_dryRun svc then (None, (svc, tr))
         else
           (case setNamespace E (obj, svc, tr) of
              (Some e, (obj, svc, tr)) \<Rightarrow>
                (Some (wrap (msg [''set namespace for the object '', sq (o_name obj)]) e), (svc, tr))
            | (None, (obj, svc, tr)) \<Rightarrow>
                let patchOpts = foldl (\<lambda>o' opt. opt o') (retryBackoff 1 0) opts in
                (case env_on_error_w E patchOpts retryAlways
                        (env_on_error_w E (env_DefaultBackoff E) (is_reason Conflict)
                          (patch_attempt E c obj patches)) tr of
                   (r, tr) \<Rightarrow> (r, (svc, tr)))))"

section \<open>Facts on the parts\<close>

lemma retryBackoff_steps [simp]: "bo_steps (retryBackoff a d) = max a 1"
  by (simp add: retryBackoff_def)

lemma retryAlways_fun: "retryAlways = (\<lambda>_. True)"
  by (simp add: fun_eq_iff retryAlways_def)

lemma appliedKey_cong [simp]: "appliedKey (obj\<lparr>o_annotations := a\<rparr>) = appliedKey obj"
  by (simp add: appliedKey_def)

lemma setNamespace_evolves: "evolves (sv, tr) (snd (snd (setNamespace E (obj, sv, tr))))"
  by (auto simp: setNamespace_def Let_def evolves_inert1 split: sum.splits)

lemma setNamespace_cases:
  assumes "setNamespace E (obj, sv, tr) = (r, (obj', sv', tr'))"
  obtains (no_gvk) "r = Some (Sentinel ErrObjectNoGVK)" "obj' = obj" "sv' = sv" "tr' = tr" "gvk_empty (o_gvk obj)"
  | (unmapped) e p where "r = Some (wrap p e)" "obj' = obj" "sv' = sv" "tr' = tr @ [EvMapping (o_gvk obj) (Inl e)]"
  | (mapped) nsd where "r = None" "sv' = sv" "tr' = tr @ [EvMapping (o_gvk obj) (Inr nsd)]"
      "obj' = (if nsd \<and> o_namespace obj = [] then obj\<lparr>o_namespace := svc_namespace sv\<rparr> else obj)"
proof (cases "gvk_empty (o_gvk obj)")
  case True
  with assms that(1) show ?thesis by (simp add: setNamespace_def)
next
  case False
  show ?thesis
  proof (cases "env_mapping E tr (o_gvk obj)")
    case (Inl e)
    with False assms that(2) show ?thesis by (auto simp: setNamespace_def Let_def)
  next
    case (Inr nsd)
    with False assms that(3) show ?thesis by (auto simp: setNamespace_def Let_def)
  qed
qed

lemma setNamespace_config:
  "setNamespace E (obj, sv, tr) = (r, (obj', sv', tr')) \<Longrightarrow> sv' = sv"
  by (erule setNamespace_cases) auto

lemma setNamespace_idem_key:
  assumes "setNamespace E (obj, sv, tr) = (None, (obj', sv', tr'))"
  shows "o_gvk obj' = o_gvk obj \<and> o_name obj' = o_name obj \<and>
    (o_namespace obj \<noteq> [] \<longrightarrow> o_namespace obj' = o_namespace obj)"
  using assms by (rule setNamespace_cases) auto

lemma get_failure_None_probe:
  "get_failure r = None \<Longrightarrow> track (b, K) (EvGet c g k r) = (get_not_found r, K)"
  by (cases r) (auto simp: get_failure_def get_not_found_def)

section \<open>The guarantees of Ensure and Patch\<close>

lemma toApply_key:
  assumes "\<And>obj raw. env_to_unstructured E obj = Inr raw \<Longrightarrow> appliedKey raw = appliedKey obj"
    and "toApplyConfiguration E obj = Inr applyObj"
  shows "appliedKey applyObj = appliedKey obj"
  using assms by (auto simp: toApplyConfiguration_def split: if_splits sum.splits)

text \<open>
  One attempt that may record: probe, apply and record move the cache as the observer moves on
  the three events.
\<close>

lemma ensure_record_evolves:
  assumes "get_failure r = None" and "appliedKey applyObj = appliedKey obj"
    and "entry_ok (svc_namespace sv) tr (appliedKey obj) obj"
  shows "evolves (sv, tr)
    (if get_not_found r then sv\<lparr>svc_applied := Put (svc_applied sv) (appliedKey obj) obj\<rparr> else sv,
     tr @ [EvGet c g k r, EvApply c' applyObj os None])"
  using assms cache_ok_mono [OF cache_ok_Put [OF _ assms(3)]]
  by (auto simp: evolves_def same_config_def get_failure_None_probe safe.keys_put cache_ok_mono
      intro!: exI [of _ "[EvGet c g k r, EvApply c' applyObj os None]"])

lemma ensure_fail_evolves: "evolves (sv, tr) (sv, tr @ [EvGet c g k r, EvApply c' applyObj os (Some e)])"
  by (cases r) (auto simp: evolves_def cache_ok_mono)

text \<open>After namespace defaulting the object is ready to be recorded.\<close>

lemma setNamespace_entry_ok:
  assumes "setNamespace E (obj, sv, tr) = (None, (obj', sv', tr'))"
  shows "entry_ok (svc_namespace sv') tr' (appliedKey obj') obj'"
  using assms by (rule setNamespace_cases) (auto simp: entry_ok_def)

lemma merge_annotations_entry:
  "entry_ok ns tr k (merge_annotations a obj) = entry_ok ns tr k obj"
  "appliedKey (merge_annotations a obj) = appliedKey obj"
  by (simp_all add: merge_annotations_def entry_ok_def)

lemma ensure_attempt_evolves:
  assumes "\<And>obj raw. env_to_unstructured E obj = Inr raw \<Longrightarrow> appliedKey raw = appliedKey obj"
    and "eo_ToCache opts"
  shows "evolves (sv, tr) (snd (snd (ensure_attempt E c opts (obj, sv, tr))))"
proof -
  obtain r obj1 sv1 tr1 where ns: "setNamespace E (obj, sv, tr) = (r, (obj1, sv1, tr1))"
    by (metis surj_pair)
  have ev1: "evolves (sv, tr) (sv1, tr1)" using setNamespace_evolves [of sv tr E obj] ns by simp
  define obj2 where "obj2 = merge_annotations (eo_Annotations opts) obj1"
  define g where "g = env_get E tr1 c (o_gvk obj2) (ObjectKeyFromObject obj2)"
  show ?thesis
  proof (cases r)
    case (Some e)
    with ns ev1 show ?thesis by (simp add: ensure_attempt_def)
  next
    case None
    have ev2: "evolves (sv1, tr1) (snd (snd (ensure_attempt E c opts (obj, sv, tr))))"
    proof (cases "toApplyConfiguration E obj2")
      case (Inl e)
      with ns None show ?thesis by (simp add: ensure_attempt_def obj2_def [symmetric])
    next
      case (Inr applyObj)
      then have key: "appliedKey applyObj = appliedKey obj2" using assms(1) by (rule toApply_key [rotated])
      show ?thesis
      proof (cases "get_failure g")
        case (Some e)
        with ns None Inr show ?thesis
          by (simp add: ensure_attempt_def obj2_def [symmetric] g_def [symmetric] evolves_get)
      next
        case None
        with ns \<open>r = None\<close> Inr assms(2) key show ?thesis
          using ensure_record_evolves [OF None key, of sv1 tr1 c "o_gvk obj2"] setNamespace_entry_ok [of E obj sv tr obj1 sv1 tr1]
          by (auto simp: ensure_attempt_def Let_def obj2_def [symmetric] g_def [symmetric] ensure_fail_evolves
              merge_annotations_entry [where a = "eo_Annotations opts" and obj = obj1, folded obj2_def]
              split: option.splits)
      qed
    qed
    from ev1 ev2 show ?thesis by (rule evolves_trans)
  qed
qed

lemma patch_attempt_evolves: "evolves (sv, tr) (sv, snd (patch_attempt E c obj ps tr))"
proof -
  have "evolves (sv, tr) (sv, tr @ [EvGet c g k r, EvUpdate c p u])" for g k r p u
    by (cases r) (auto simp: evolves_def cache_ok_mono)
  then show ?thesis
    by (simp add: patch_attempt_def Let_def evolves_get split: sum.splits)
qed

end
