(* ===== verification/Kube_Wait.thy ===== *)
theory Kube_Wait
  imports Kube_Core
begin

text \<open>
  The observing and deleting operations of \<^verbatim>\<open>src/internal/kube/service.go\<close>: \<^verbatim>\<open>Wait\<close> over the
  events of the status poller, \<^verbatim>\<open>Check\<close>, \<^verbatim>\<open>Filter\<close>, \<^verbatim>\<open>Delete\<close> with its optional wait, and
  \<^verbatim>\<open>Cleanup\<close>. The poller's channel is the list of events it delivers before it is closed; every
  caller passes a positive timeout, so the channel is closed when the context ends at the latest.
\<close>

section \<open>Wait\<close>

record wait_options =
  wo_interval :: duration
  wo_timeout :: duration
  wo_conditions :: "string list"
  wo_onDeletion :: bool

definition new_wait_options :: wait_options where
  "new_wait_options = \<lparr>wo_interval = 0, wo_timeout = 0, wo_conditions = [], wo_onDeletion = False\<rparr>"

definition WithWaitInterval :: "duration \<Rightarrow> wait_options \<Rightarrow> wait_options" where
  "WithWaitInterval interval o' = (if interval = 0 then o' else o'\<lparr>wo_interval := interval\<rparr>)"

definition WithWaitTimeout :: "duration \<Rightarrow> wait_options \<Rightarrow> wait_options" where
  "WithWaitTimeout timeout o' = (if timeout = 0 then o' else o'\<lparr>wo_timeout := timeout\<rparr>)"

definition WithWaitConditions :: "string list \<Rightarrow> wait_options \<Rightarrow> wait_options" where
  "WithWaitConditions conditions o' = o'\<lparr>wo_conditions := conditions\<rparr>"

definition WithOnDeletion :: "bool \<Rightarrow> wait_options \<Rightarrow> wait_options" where
  "WithOnDeletion onDeletion o' = o'\<lparr>wo_onDeletion := onDeletion\<rparr>"

text \<open>The loop over the conditions of one update: the first false condition ends it.\<close>

fun all_passed :: "env \<Rightarrow> ev list \<Rightarrow> ctx \<Rightarrow> kobj \<Rightarrow> string list \<Rightarrow> go_error + bool" where
  "all_passed E tr c res [] = Inr True"
| "all_passed E tr c res (cond # conds) =
     (case Pass E tr c res cond of
        Inl e \<Rightarrow> Inl (wrap (msg [''filter resource update by the condition '', sq cond]) e)
      | Inr False \<Rightarrow> Inr False
      | Inr True \<Rightarrow> all_passed E tr c res conds)"

text \<open>
  The loop over the poller's events. The result is what \<^verbatim>\<open>Wait\<close> returns; a channel that is closed
  before any event decided leaves the context's error.
\<close>

fun wait_loop :: "env \<Rightarrow> ev list \<Rightarrow> ctx \<Rightarrow> wait_options \<Rightarrow> obj_meta \<Rightarrow> poll_event list \<Rightarrow> go_error option" where
  "wait_loop E tr c opts oid [] = env_ctx_err E tr c"
| "wait_loop E tr c opts oid (ev # evs) =
     (case pe_type ev of
        ErrorEvent \<Rightarrow> pe_error ev
      | OtherEvent \<Rightarrow> wait_loop E tr c opts oid evs
      | _ \<Rightarrow>
          (case pe_resource ev of
             None \<Rightarrow> wait_loop E tr c opts oid evs
           | Some rs \<Rightarrow>
               if rs_identifier rs \<noteq> oid then wait_loop E tr c opts oid evs
               else if wo_onDeletion opts \<and> rs_status rs = NotFoundStatus then None
               else
                 (case rs_resource rs of
                    None \<Rightarrow> wait_loop E tr c opts oid evs
                  | Some res \<Rightarrow>
                      if wo_conditions opts = [] then None
                      else
                        (case all_passed E tr c res (wo_conditions opts) of
                           Inl e \<Rightarrow> Some e
                         | Inr True \<Rightarrow> None
                         | Inr False \<Rightarrow> wait_loop E tr c opts oid evs))))"

definition obj_metadata :: "kobj \<Rightarrow> obj_meta" where
  "obj_metadata obj = \<lparr>om_group = gvk_group (o_gvk obj), om_kind = gvk_kind (o_gvk obj),
     om_name = o_name obj, om_namespace = o_namespace obj\<rparr>"

definition Wait :: "env \<Rightarrow> ctx \<Rightarrow> kobj option \<Rightarrow> (wait_options \<Rightarrow> wait_options) list \<Rightarrow>
    kstate \<Rightarrow> go_error option \<times> kstate" where
  "Wait E c objp opts = (\<lambda>(svc, tr).
     case objp of
       None \<Rightarrow> (Some (Sentinel ErrNilObject), (svc, tr))
     | Some obj \<Rightarrow>
         if svc_dryRun svc then (None, (svc, tr))
         else
           (case setNamespace E (obj, svc, tr) of
              (Some e, (obj, svc, tr)) \<Rightarrow>
                (Some (wrap (msg [''set namespace for the object '', sq (o_name obj)]) e), (svc, tr))
            | (None, (obj, svc, tr)) \<Rightarrow>
                let oid = obj_metadata obj;
                    waitOpts = foldl (\<lambda>o' opt. opt o') new_wait_options opts;
                    c = (if 0 < wo_timeout waitOpts then WithTimeout c (wo_timeout waitOpts) else c);
                    evs = env_poll E tr c oid (wo_interval waitOpts);
                    tr = tr @ [EvPoll c oid (wo_interval waitOpts)] in
                (wait_loop E tr c waitOpts oid evs, (svc, tr))))"

section \<open>Check and Filter\<close>

definition WithCheckRetry :: "int \<Rightarrow> duration \<Rightarrow> backoff \<Rightarrow> backoff" where
  "WithCheckRetry attempts d o' = retryBackoff attempts d"

definition toUnstructured :: "env \<Rightarrow> kobj \<Rightarrow> go_error + kobj" where
  "toUnstructured E obj =
     (case env_to_unstructured E obj of
        Inl m \<Rightarrow> Inl (Opaque m)
      | Inr u \<Rightarrow> Inr (u\<lparr>o_gvk := o_gvk obj\<rparr>))"

fun check_conditions :: "env \<Rightarrow> ev list \<Rightarrow> ctx \<Rightarrow> kobj \<Rightarrow> string list \<Rightarrow> go_error option" where
  "check_conditions E tr c parsed [] = None"
| "check_conditions E tr c parsed (cond # conds) =
     (case Pass E tr c parsed cond of
        Inl e \<Rightarrow> Some (wrap (msg [''evaluate condition '', sq cond]) e)
      | Inr False \<Rightarrow> Some (Opaque (msg [''condition not satisfied: '', cond]))
      | Inr True \<Rightarrow> check_conditions E tr c parsed conds)"

text \<open>The closure of \<^verbatim>\<open>Check\<close>. A successful get overwrites the captured object.\<close>

definition check_attempt :: "env \<Rightarrow> ctx \<Rightarrow> string list \<Rightarrow> ostate \<Rightarrow> go_error option \<times> ostate" where
  "check_attempt E c conditions s =
     (case setNamespace E s of
        (Some e, (obj, svc, tr)) \<Rightarrow>
          (Some (wrap (msg [''set namespace for object '', sq (o_name obj)]) e), (obj, svc, tr))
      | (None, (obj, svc, tr)) \<Rightarrow>
          let r = env_get E tr c (o_gvk obj) (ObjectKeyFromObject obj);
              tr = tr @ [EvGet c (o_gvk obj) (ObjectKeyFromObject obj) r] in
          (case r of
             Inl e \<Rightarrow> (Some (wrap (msg [''get object '', sq (o_name obj)]) e), (obj, svc, tr))
           | Inr live \<Rightarrow>
               (case toUnstructured E live of
                  Inl e \<Rightarrow> (Some (wrap (msg [''convert object '', sq (o_name live), '' to unstructured'']) e), (live, svc, tr))
                | Inr parsed \<Rightarrow> (check_conditions E tr c parsed conditions, (live, svc, tr)))))"

definition Check :: "env \<Rightarrow> ctx \<Rightarrow> kobj option \<Rightarrow> string list \<Rightarrow> (backoff \<Rightarrow> backoff) list \<Rightarrow>
    kstate \<Rightarrow> go_error option \<times> kstate" where
  "Check E c objp conditions opts = (\<lambda>(svc, tr).
     case objp of
       None \<Rightarrow> (Some (Sentinel ErrNilObject), (svc, tr))
     | Some obj \<Rightarrow>
         if svc_dryRun svc then (None, (svc, tr))
         else
           let checkOpts = foldl (\<lambda>o' opt. opt o') (retryBackoff 1 0) opts in
           (case env_on_error E checkOpts retryAlways (check_attempt E c conditions) (obj, svc, tr) of
              (r, (obj, svc, tr)) \<Rightarrow> (r, (svc, tr))))"

definition Service_Filter :: "env \<Rightarrow> ctx \<Rightarrow> kobj option \<Rightarrow> string \<Rightarrow> kstate \<Rightarrow> (go_error + string) \<times> kstate" where
  "Service_Filter E c objp expression = (\<lambda>(svc, tr).
     case objp of
       None \<Rightarrow> (Inl (Sentinel ErrNilObject), (svc, tr))
     | Some obj \<Rightarrow>
         if svc_dryRun svc then (Inr [], (svc, tr))
         else
           (case setNamespace E (obj, svc, tr) of
              (Some e, (obj, svc, tr)) \<Rightarrow>
                (Inl (wrap (msg [''set namespace for the object '', sq (o_name obj)]) e), (svc, tr))
            | (None, (obj, svc, tr)) \<Rightarrow>
                let r = env_get E tr c (o_gvk obj) (ObjectKeyFromObject obj);
                    tr = tr @ [EvGet c (o_gvk obj) (ObjectKeyFromObject obj) r] in
                (case r of
                   Inl e \<Rightarrow> (Inl (wrap (msg [''get the object '', sq (o_name obj)]) e), (svc, tr))
                 | Inr live \<Rightarrow>
                     (case toUnstructured E live of
                        Inl e \<Rightarrow> (Inl (wrap (msg [''convert the object '', sq (o_name live), '' to unstructured'']) e), (svc, tr))
                      | Inr parsed \<Rightarrow>
                          (case Filter E tr c parsed expression of
                             Inl e \<Rightarrow> (Inl (wrap (msg [''filter object by the exp '', sq expression]) e), (svc, tr))
                           | Inr value \<Rightarrow> (Inr value, (svc, tr)))))))"

section \<open>Delete and Cleanup\<close>

record delete_options =
  do_Wait :: bool
  do_WaitTimeout :: duration
  do_WaitInterval :: duration
  do_Retry :: backoff

definition new_delete_options :: delete_options where
  "new_delete_options = \<lparr>do_Wait = False, do_WaitTimeout = 0, do_WaitInterval = 0, do_Retry = retryBackoff 1 0\<rparr>"

definition WithDeleteWait :: "bool \<Rightarrow> duration \<Rightarrow> delete_options \<Rightarrow> delete_options" where
  "WithDeleteWait wait timeout o' = o'\<lparr>do_Wait := wait, do_WaitTimeout := timeout\<rparr>"

definition WithDeleteInterval :: "duration \<Rightarrow> delete_options \<Rightarrow> delete_options" where
  "WithDeleteInterval interval o' = o'\<lparr>do_WaitInterval := interval\<rparr>"

definition WithDeleteRetry :: "int \<Rightarrow> duration \<Rightarrow> delete_options \<Rightarrow> delete_options" where
  "WithDeleteRetry attempts d o' = o'\<lparr>do_Retry := retryBackoff attempts d\<rparr>"

text \<open>The innermost closure of \<^verbatim>\<open>Delete\<close>: the cache entry goes before the request is sent.\<close>

definition delete_attempt :: "env \<Rightarrow> ctx \<Rightarrow> ostate \<Rightarrow> go_error option \<times> ostate" where
  "delete_attempt E c s =
     (case setNamespace E s of
        (Some e, (obj, svc, tr)) \<Rightarrow>
          (Some (wrap (msg [''set namespace for the object '', sq (o_name obj)]) e), (obj, svc, tr))
      | (None, (obj, svc, tr)) \<Rightarrow>
          let svc = svc\<lparr>svc_applied := Delete_key (svc_applied svc) (appliedKey obj)\<rparr>;
              r = env_delete E tr c obj;
              tr = tr @ [EvDelete c obj r] in
          (case r of
             Some e \<Rightarrow> if is_reason NotFound e then (None, (obj, svc, tr)) else (Some e, (obj, svc, tr))
           | None \<Rightarrow> (None, (obj, svc, tr))))"

definition Delete :: "env \<Rightarrow> ctx \<Rightarrow> kobj option \<Rightarrow> (delete_options \<Rightarrow> delete_options) list \<Rightarrow>
    kstate \<Rightarrow> go_error option \<times> kstate" where
  "Delete E c objp opts = (\<lambda>(svc, tr).
     case objp of
       None \<Rightarrow> (None, (svc, tr))
     | Some obj \<Rightarrow>
         if svc_dryRun svc then (None, (svc, tr))
         else
           let deleteOpts = foldl (\<lambda>o' opt. opt o') new_delete_options opts in
           (case env_on_error E (do_Retry deleteOpts) retryAlways
                   (env_on_error E (env_DefaultBackoff E) (is_reason ServerTimeout)
                     (env_on_error E (env_DefaultBackoff E) (is_reason ServiceUnavailable)
                       (delete_attempt E c)))
                   (obj, svc, tr) of
              (Some e, (obj, svc, tr)) \<Rightarrow> (Some e, (svc, tr))
            | (None, (obj, svc, tr)) \<Rightarrow>
                if \<not> do_Wait deleteOpts then (None, (svc, tr))
                else
                  let interval = (if do_WaitInterval deleteOpts \<le> 0 then waitInterval
                                  else do_WaitInterval deleteOpts) in
                  Wait E c (Some obj)
                    [WithOnDeletion True, WithWaitTimeout (do_WaitTimeout deleteOpts), WithWaitInterval interval]
                    (svc, tr)))"

fun cleanup_loop :: "env \<Rightarrow> ctx \<Rightarrow> (string \<times> kobj) list \<Rightarrow> kstate \<Rightarrow> go_error option list \<times> kstate" where
  "cleanup_loop E c [] s = ([], s)"
| "cleanup_loop E c ((k, obj) # entries) s =
     (case Delete E c (Some obj) [] s of
        (r, s') \<Rightarrow>
          (case cleanup_loop E c entries s' of
             (errs, s'') \<Rightarrow>
               (map_option (wrap (msg [''delete the applied object '', sq (o_name obj)])) r # errs, s'')))"

definition Cleanup :: "env \<Rightarrow> ctx \<Rightarrow> kstate \<Rightarrow> go_error option \<times> kstate" where
  "Cleanup E c = (\<lambda>(svc, tr).
     if svc_dryRun svc then (None, (svc, tr))
     else
       (case cleanup_loop E c (Iter (env_order E tr) (svc_applied svc)) (svc, tr) of
          (errs, s) \<Rightarrow> (errors_join errs, s)))"

section \<open>Guarantees of the parts\<close>

lemma Wait_evolves: "evolves s (snd (Wait E c objp opts s))"
proof (cases s)
  case (Pair sv tr)
  show ?thesis
  proof (cases objp)
    case None
    with Pair show ?thesis by (simp add: Wait_def)
  next
    case (Some obj)
    obtain r obj1 sv1 tr1 where ns: "setNamespace E (obj, sv, tr) = (r, (obj1, sv1, tr1))"
      by (metis surj_pair)
    have ev1: "evolves (sv, tr) (sv1, tr1)" using setNamespace_evolves [of sv tr E obj] ns by simp
    moreover have "evolves (sv1, tr1) (sv1, tr1 @ [EvPoll c' oid i])" for c' oid i
      by (rule evolves_inert1) simp
    ultimately show ?thesis
      using Pair Some ns by (auto simp: Wait_def Let_def intro: evolves_trans split: option.splits)
  qed
qed

lemma check_attempt_evolves: "evolves (sv, tr) (snd (snd (check_attempt E c conds (obj, sv, tr))))"
proof -
  obtain r obj1 sv1 tr1 where ns: "setNamespace E (obj, sv, tr) = (r, (obj1, sv1, tr1))"
    by (metis surj_pair)
  have ev1: "evolves (sv, tr) (sv1, tr1)" using setNamespace_evolves [of sv tr E obj] ns by simp
  then have "evolves (sv, tr) (sv1, tr1 @ [EvGet c g k x])" for g k x
    using evolves_get by (rule evolves_trans)
  with ev1 ns show ?thesis
    by (auto simp: check_attempt_def Let_def split: option.splits sum.splits)
qed

lemma delete_step_evolves:
  "evolves (sv, tr) (sv\<lparr>svc_applied := Delete_key (svc_applied sv) (appliedKey obj)\<rparr>, tr @ [EvDelete c obj r])"
  by (auto simp: evolves_def same_config_def safe.keys_del cache_ok_mono cache_ok_Delete intro!: exI [of _ "[EvDelete c obj r]"])

lemma delete_attempt_evolves: "evolves (sv, tr) (snd (snd (delete_attempt E c (obj, sv, tr))))"
proof -
  obtain r obj1 sv1 tr1 where ns: "setNamespace E (obj, sv, tr) = (r, (obj1, sv1, tr1))"
    by (metis surj_pair)
  have ev1: "evolves (sv, tr) (sv1, tr1)" using setNamespace_evolves [of sv tr E obj] ns by simp
  then have "evolves (sv, tr)
      (sv1\<lparr>svc_applied := Delete_key (svc_applied sv1) (appliedKey obj1)\<rparr>, tr1 @ [EvDelete c obj1 x])" for x
    using delete_step_evolves by (rule evolves_trans)
  with ev1 ns show ?thesis
    by (auto simp: delete_attempt_def Let_def split: option.splits)
qed

section \<open>Guarantees of the operations\<close>

context kube_env
begin

lemma on_error3_evolves:
  assumes "\<And>obj sv tr. evolves (sv, tr) (snd (snd (f (obj, sv, tr))))"
  shows "evolves (sv, tr) (snd (snd (env_on_error E b p (env_on_error E b' p' (env_on_error E b'' p'' f)) (obj, sv, tr))))"
  by (intro on_error_evolves assms)

text \<open>
  The last attempt of three nested retries: the final state is its state, and the result its
  result unless it failed with a context error.
\<close>

lemma on_error3_last:
  assumes steps: "0 < bo_steps b"
    and inv: "I s" "\<And>s. I s \<Longrightarrow> I (snd (f s))" "\<And>s s'. I s \<Longrightarrow> idle_obj s s' \<Longrightarrow> I s'"
  shows "\<exists>s1. I s1 \<and>
     snd (f s1) = snd (env_on_error E b (\<lambda>_. True)
       (env_on_error E (env_DefaultBackoff E) p (env_on_error E (env_DefaultBackoff E) q f)) s) \<and>
     (fst (f s1) = fst (env_on_error E b (\<lambda>_. True)
       (env_on_error E (env_DefaultBackoff E) p (env_on_error E (env_DefaultBackoff E) q f)) s) \<or>
      (\<exists>e. fst (f s1) = Some e \<and> ctx_error e))"
proof -
  let ?inner = "env_on_error E (env_DefaultBackoff E) q f"
  let ?mid = "env_on_error E (env_DefaultBackoff E) p ?inner"
  have i1: "I (snd (?inner s))" if "I s" for s
    using that inv(2,3) by (rule objs.on_error_invariant)
  have i2: "I (snd (?mid s))" if "I s" for s
    using that i1 inv(3) by (rule objs.on_error_invariant)
  have "\<exists>s3. I s3 \<and> ?mid s3 = env_on_error E b (\<lambda>_. True) ?mid s"
    using steps inv(1) i2 inv(3) by (rule objs.on_error_always)
  then obtain s3 where s3: "I s3 \<and> ?mid s3 = env_on_error E b (\<lambda>_. True) ?mid s" by (rule exE)
  have "\<exists>s2. I s2 \<and> snd (?inner s2) = snd (?mid s3) \<and>
      (fst (?inner s2) = fst (?mid s3) \<or> (\<exists>e. fst (?inner s2) = Some e \<and> \<not> p e \<and> ctx_error e))"
    using default_steps conjunct1 [OF s3] i1 inv(3) by (rule objs.on_error_last)
  then obtain s2 where s2: "I s2 \<and> snd (?inner s2) = snd (?mid s3) \<and>
      (fst (?inner s2) = fst (?mid s3) \<or> (\<exists>e. fst (?inner s2) = Some e \<and> \<not> p e \<and> ctx_error e))"
    by (rule exE)
  have "\<exists>s1. I s1 \<and> snd (f s1) = snd (?inner s2) \<and>
      (fst (f s1) = fst (?inner s2) \<or> (\<exists>e. fst (f s1) = Some e \<and> \<not> q e \<and> ctx_error e))"
    using default_steps conjunct1 [OF s2] inv(2,3) by (rule objs.on_error_last)
  then obtain s1 where s1: "I s1 \<and> snd (f s1) = snd (?inner s2) \<and>
      (fst (f s1) = fst (?inner s2) \<or> (\<exists>e. fst (f s1) = Some e \<and> \<not> q e \<and> ctx_error e))"
    by (rule exE)
  from s1 s2 s3 show ?thesis by (intro exI [of _ s1]) auto
qed

lemma Ensure_evolves:
  assumes "eo_ToCache (foldl (\<lambda>o' opt. opt o') newEnsureOptions opts)"
  shows "evolves s (snd (Ensure E c objp opts s))"
proof -
  have "evolves (sv, tr) (snd (snd (ensure_attempt E c (foldl (\<lambda>o' opt. opt o') newEnsureOptions opts) (obj, sv, tr))))" for obj sv tr
    using convert_key assms by (rule ensure_attempt_evolves)
  from on_error3_evolves [of "ensure_attempt E c (foldl (\<lambda>o' opt. opt o') newEnsureOptions opts)", OF this]
  show ?thesis
    by (cases s; cases objp) (simp_all add: Ensure_def Let_def case_prod_beta)
qed

lemma Delete_evolves: "evolves s (snd (Delete E c objp opts s))"
proof (cases s)
  case (Pair sv tr)
  show ?thesis
  proof (cases objp)
    case None
    with Pair show ?thesis by (simp add: Delete_def)
  next
    case (Some obj)
    define D where "D = env_on_error E (do_Retry (foldl (\<lambda>o' opt. opt o') new_delete_options opts)) retryAlways
      (env_on_error E (env_DefaultBackoff E) (is_reason ServerTimeout)
        (env_on_error E (env_DefaultBackoff E) (is_reason ServiceUnavailable) (delete_attempt E c))) (obj, sv, tr)"
    have "evolves (sv, tr) (snd (snd D))"
      unfolding D_def by (rule on_error3_evolves) (rule delete_attempt_evolves)
    then show ?thesis
      using Pair Some D_def [symmetric]
      by (auto simp: Delete_def Let_def split: option.splits prod.splits intro: evolves_trans Wait_evolves)
  qed
qed

lemma cleanup_loop_evolves: "evolves s (snd (cleanup_loop E c entries s))"
proof (induction entries arbitrary: s)
  case Nil
  show ?case by simp
next
  case (Cons a entries)
  obtain k obj where a: "a = (k, obj)" by (cases a)
  have "evolves s (snd (Delete E c (Some obj) [] s))" by (rule Delete_evolves)
  then have "evolves s (snd (cleanup_loop E c entries (snd (Delete E c (Some obj) [] s))))"
    using Cons.IH by (rule evolves_trans)
  then show ?case by (simp add: a case_prod_beta)
qed

lemma Cleanup_evolves: "evolves s (snd (Cleanup E c s))"
  using cleanup_loop_evolves by (cases s) (simp add: Cleanup_def case_prod_beta)

lemma Patch_evolves: "evolves s (snd (Patch E c objp ps opts s))"
proof (cases s)
  case (Pair sv tr)
  show ?thesis
  proof (cases objp)
    case None
    with Pair show ?thesis by (simp add: Patch_def)
  next
    case (Some obj)
    obtain r obj1 sv1 tr1 where ns: "setNamespace E (obj, sv, tr) = (r, (obj1, sv1, tr1))"
      by (metis surj_pair)
    have ev1: "evolves (sv, tr) (sv1, tr1)" using setNamespace_evolves [of sv tr E obj] ns by simp
    have "evolves (sv1, tr1) (sv1, snd (env_on_error_w E b p (env_on_error_w E b' p' (patch_attempt E c obj1 ps)) tr1))" for b p b' p'
      by (intro on_error_w_evolves patch_attempt_evolves)
    with ev1 have "evolves (sv, tr) (sv1, snd (env_on_error_w E b p (env_on_error_w E b' p' (patch_attempt E c obj1 ps)) tr1))" for b p b' p'
      by (rule evolves_trans)
    with ev1 show ?thesis
      using Pair Some ns by (auto simp: Patch_def Let_def case_prod_beta split: option.splits)
  qed
qed

lemma Check_evolves: "evolves s (snd (Check E c objp conds opts s))"
proof -
  have "evolves (sv, tr) (snd (snd (env_on_error E b p (check_attempt E c conds) (obj, sv, tr))))" for b p obj sv tr
    by (rule on_error_evolves) (rule check_attempt_evolves)
  then show ?thesis
    by (cases s; cases objp) (simp_all add: Check_def Let_def case_prod_beta)
qed

end

end
