(* ===== verification/Kube_Pods.thy ===== *)
theory Kube_Pods
  imports Kube_Wait
begin

text \<open>
  The operations of \<^verbatim>\<open>src/internal/kube/service.go\<close> that work on pods: resolving a target to
  pods, checking logs under the three match policies, and running a command.
\<close>

section \<open>Targets\<close>

record pod_target =
  pt_Object :: "kobj option"
  pt_Kind :: string
  pt_LabelSelector :: string

definition validate_target :: "pod_target \<Rightarrow> go_error option" where
  "validate_target t =
     (if pt_Object t = None \<and> (pt_Kind t = [] \<or> pt_LabelSelector t = [])
      then Some (Sentinel ErrNilObject) else None)"

definition describe :: "pod_target \<Rightarrow> string" where
  "describe t =
     (case pt_Object t of
        Some obj \<Rightarrow> msg [gvk_kind (o_gvk obj), '' '', go_quote (o_name obj)]
      | None \<Rightarrow> msg [pt_Kind t, '' ['', pt_LabelSelector t, '']''])"

definition workloadKinds :: "string \<Rightarrow> bool" where
  "workloadKinds k = (k \<in> {''Deployment'', ''ReplicaSet'', ''StatefulSet''})"

definition unsupported_kind :: "string \<Rightarrow> go_error" where
  "unsupported_kind k =
     Opaque (msg [''unsupported kind '', go_quote k, ''; use Pod, Deployment, ReplicaSet, or StatefulSet''])"

definition matchLabelsSelector :: "env \<Rightarrow> kobj \<Rightarrow> go_error + string" where
  "matchLabelsSelector E obj =
     (case env_nested_string_map E (env_content E obj) [''spec'', ''selector'', ''matchLabels''] of
        Inl e \<Rightarrow> Inl (wrap ''read spec.selector.matchLabels'' e)
      | Inr None \<Rightarrow> Inl (Opaque ''no spec.selector.matchLabels'')
      | Inr (Some m) \<Rightarrow>
          if m = [] then Inl (Opaque ''no spec.selector.matchLabels'')
          else Inr (env_labels_string E m))"

definition workloadPodSelector :: "env \<Rightarrow> ctx \<Rightarrow> string \<Rightarrow> string \<Rightarrow> string \<Rightarrow> ev list \<Rightarrow> (go_error + string) \<times> ev list" where
  "workloadPodSelector E c kind labelSelector ns tr =
     (case env_labels_parse E labelSelector of
        Inl e \<Rightarrow> (Inl (wrap (msg [''parse label selector '', sq labelSelector]) e), tr)
      | Inr sel \<Rightarrow>
          let r = env_list E tr c kind ns sel; tr = tr @ [EvList c kind ns sel r] in
          (case r of
             Inl e \<Rightarrow> (Inl (wrap (msg [''list '', kind, '' by '', sq labelSelector]) e), tr)
           | Inr [] \<Rightarrow>
               (Inl (Opaque (msg [''no '', kind, '' matching '', sq labelSelector, '' in namespace '', sq ns])), tr)
           | Inr (item # _) \<Rightarrow> (matchLabelsSelector E item, tr)))"

text \<open>The result is the namespace, the pod name and the selector.\<close>

definition podSelector :: "env \<Rightarrow> service \<Rightarrow> ctx \<Rightarrow> pod_target \<Rightarrow> ev list \<Rightarrow>
    (go_error + string \<times> string \<times> string) \<times> ev list" where
  "podSelector E svc c target tr =
     (case pt_Object target of
        Some obj \<Rightarrow>
          let g = o_gvk obj;
              ns = (if o_namespace obj = [] then svc_namespace svc else o_namespace obj) in
          if gvk_kind g = ''Pod'' then (Inr (ns, o_name obj, []), tr)
          else if \<not> workloadKinds (gvk_kind g) then (Inl (unsupported_kind (gvk_kind g)), tr)
          else
            let key = \<lparr>key_namespace = ns, key_name = o_name obj\<rparr>;
                r = env_get E tr c g key;
                tr = tr @ [EvGet c g key r] in
            (case r of
               Inl e \<Rightarrow> (Inl (wrap (msg [''get '', describe target]) e), tr)
             | Inr live \<Rightarrow>
                 (case matchLabelsSelector E live of
                    Inl e \<Rightarrow> (Inl (wrap (describe target) e), tr)
                  | Inr selector \<Rightarrow> (Inr (ns, [], selector), tr)))
      | None \<Rightarrow>
          let ns = svc_namespace svc in
          if pt_Kind target = ''Pod'' then (Inr (ns, [], pt_LabelSelector target), tr)
          else if \<not> workloadKinds (pt_Kind target) then (Inl (unsupported_kind (pt_Kind target)), tr)
          else
            (case workloadPodSelector E c (pt_Kind target) (pt_LabelSelector target) ns tr of
               (Inl e, tr) \<Rightarrow> (Inl e, tr)
             | (Inr selector, tr) \<Rightarrow> (Inr (ns, [], selector), tr)))"

section \<open>Logs\<close>

definition defaultLogsTailLines :: int where
  "defaultLogsTailLines = 200"

definition LogsMatchAny :: string where "LogsMatchAny = ''any''"
definition LogsMatchAll :: string where "LogsMatchAll = ''all''"
definition LogsMatchNone :: string where "LogsMatchNone = ''none''"

record logs_options =
  lo_interval :: duration
  lo_timeout :: duration
  lo_container :: string
  lo_match :: string

definition newLogsOptions :: logs_options where
  "newLogsOptions = \<lparr>lo_interval = waitInterval, lo_timeout = 2 * 60 * 1000000000,
     lo_container = [], lo_match = LogsMatchAny\<rparr>"

definition WithLogsInterval :: "duration \<Rightarrow> logs_options \<Rightarrow> logs_options" where
  "WithLogsInterval interval o' = (if 0 < interval then o'\<lparr>lo_interval := interval\<rparr> else o')"

definition WithLogsTimeout :: "duration \<Rightarrow> logs_options \<Rightarrow> logs_options" where
  "WithLogsTimeout timeout o' = (if 0 < timeout then o'\<lparr>lo_timeout := timeout\<rparr> else o')"

definition WithLogsContainer :: "string \<Rightarrow> logs_options \<Rightarrow> logs_options" where
  "WithLogsContainer container o' = o'\<lparr>lo_container := container\<rparr>"

definition WithLogsMatch :: "string \<Rightarrow> logs_options \<Rightarrow> logs_options" where
  "WithLogsMatch match o' = (if match \<noteq> [] then o'\<lparr>lo_match := match\<rparr> else o')"

text \<open>A log request: namespace, pod, container; the tail length is \<^const>\<open>defaultLogsTailLines\<close>.\<close>

record log_request =
  lr_namespace :: string
  lr_pod :: string
  lr_container :: string

definition available :: "pod \<Rightarrow> bool" where
  "available p = (phase_of p \<noteq> PodFailed \<and> phase_of p \<noteq> PodUnknown)"

definition resolvePodsForLogs :: "env \<Rightarrow> service \<Rightarrow> ctx \<Rightarrow> pod_target \<Rightarrow> string \<Rightarrow> ev list \<Rightarrow>
    (go_error + log_request list) \<times> ev list" where
  "resolvePodsForLogs E svc c target container tr =
     (case podSelector E svc c target tr of
        (Inl e, tr) \<Rightarrow> (Inl e, tr)
      | (Inr (ns, podName, selector), tr) \<Rightarrow>
          if podName \<noteq> [] then
            (Inr [\<lparr>lr_namespace = ns, lr_pod = podName, lr_container = container\<rparr>], tr)
          else
            let r = env_pods E tr c ns selector; tr = tr @ [EvPods c ns selector r] in
            (case r of
               Inl e \<Rightarrow> (Inl (wrap (msg [''list pods by '', sq selector]) e), tr)
             | Inr pods \<Rightarrow>
                 let reqs = map (\<lambda>p. \<lparr>lr_namespace = ns, lr_pod = pod_name p, lr_container = container\<rparr>)
                              (filter available pods) in
                 if reqs = [] then
                   (Inl (Opaque (msg [''no available pods found for selector '', sq selector, '' in namespace '', sq ns])), tr)
                 else (Inr reqs, tr)))"

definition logsContain :: "env \<Rightarrow> ctx \<Rightarrow> log_request \<Rightarrow> string \<Rightarrow> ev list \<Rightarrow> bool \<times> ev list" where
  "logsContain E c req expected tr =
     (let r = env_logs E tr c (lr_namespace req) (lr_pod req) (lr_container req) defaultLogsTailLines;
          tr = tr @ [EvLogs c (lr_namespace req) (lr_pod req) (lr_container req) r] in
      case r of
        Inl e \<Rightarrow> (False, tr)
      | Inr (Inl e) \<Rightarrow> (False, tr)
      | Inr (Inr data) \<Rightarrow> (contains data expected, tr))"

fun count_matches :: "env \<Rightarrow> ctx \<Rightarrow> string \<Rightarrow> log_request list \<Rightarrow> nat \<Rightarrow> ev list \<Rightarrow> nat \<times> ev list" where
  "count_matches E c expected [] matched tr = (matched, tr)"
| "count_matches E c expected (req # reqs) matched tr =
     (case logsContain E c req expected tr of
        (hit, tr) \<Rightarrow> count_matches E c expected reqs (if hit then matched + 1 else matched) tr)"

definition countLogMatches :: "env \<Rightarrow> service \<Rightarrow> ctx \<Rightarrow> pod_target \<Rightarrow> string \<Rightarrow> string \<Rightarrow> ev list \<Rightarrow> (nat \<times> nat) \<times> ev list" where
  "countLogMatches E svc c target expected container tr =
     (case resolvePodsForLogs E svc c target container tr of
        (Inl e, tr) \<Rightarrow> ((0, 0), tr)
      | (Inr reqs, tr) \<Rightarrow>
          (case count_matches E c expected reqs 0 tr of
             (matched, tr) \<Rightarrow> ((matched, length reqs), tr)))"

definition present_cond :: "env \<Rightarrow> service \<Rightarrow> ctx \<Rightarrow> pod_target \<Rightarrow> string \<Rightarrow> logs_options \<Rightarrow> ev list \<Rightarrow>
    (bool \<times> go_error option) \<times> ev list" where
  "present_cond E svc c target expected opts tr =
     (case countLogMatches E svc c target expected (lo_container opts) tr of
        ((matched, resolved), tr) \<Rightarrow>
          if resolved = 0 then ((False, None), tr)
          else if lo_match opts = LogsMatchAll then ((matched = resolved, None), tr)
          else ((0 < matched, None), tr))"

definition logsPresent :: "env \<Rightarrow> service \<Rightarrow> ctx \<Rightarrow> pod_target \<Rightarrow> string \<Rightarrow> logs_options \<Rightarrow> ev list \<Rightarrow> go_error option \<times> ev list" where
  "logsPresent E svc c target expected opts tr =
     (case env_poll_until E c (lo_interval opts) (lo_timeout opts) True
             (present_cond E svc (WithTimeout c (lo_timeout opts)) target expected opts) tr of
        (Some pollErr, tr) \<Rightarrow>
          (Some (Wrapped [] (Sentinel ErrLogsNotContain)
             (msg ['': '', go_quote expected, '' not found in logs of '', describe target])), tr)
      | (None, tr) \<Rightarrow> (None, tr))"

definition absent_cond :: "env \<Rightarrow> service \<Rightarrow> ctx \<Rightarrow> pod_target \<Rightarrow> string \<Rightarrow> logs_options \<Rightarrow> ev list \<Rightarrow>
    (bool \<times> go_error option) \<times> ev list" where
  "absent_cond E svc c target forbidden opts tr =
     (case countLogMatches E svc c target forbidden (lo_container opts) tr of
        ((matched, _), tr) \<Rightarrow> ((0 < matched, None), tr))"

definition logsAbsent :: "env \<Rightarrow> service \<Rightarrow> ctx \<Rightarrow> pod_target \<Rightarrow> string \<Rightarrow> logs_options \<Rightarrow> ev list \<Rightarrow> go_error option \<times> ev list" where
  "logsAbsent E svc c target forbidden opts tr =
     (case env_poll_until E c (lo_interval opts) (lo_timeout opts) True
             (absent_cond E svc (WithTimeout c (lo_timeout opts)) target forbidden opts) tr of
        (None, tr) \<Rightarrow>
          (Some (Wrapped [] (Sentinel ErrLogsContainForbidden)
             (msg ['': '', go_quote forbidden, '' found in logs of '', describe target])), tr)
      | (Some pollErr, tr) \<Rightarrow>
          (case env_ctx_err E tr c of
             Some ce \<Rightarrow> (Some (wrap (msg [''watch logs of '', describe target]) ce), tr)
           | None \<Rightarrow>
               if errors_is pollErr DeadlineExceeded then (None, tr)
               else (Some (wrap (msg [''watch logs of '', describe target]) pollErr), tr)))"

definition LogsContains :: "env \<Rightarrow> ctx \<Rightarrow> pod_target \<Rightarrow> string \<Rightarrow> (logs_options \<Rightarrow> logs_options) list \<Rightarrow>
    kstate \<Rightarrow> go_error option \<times> kstate" where
  "LogsContains E c target expected opts = (\<lambda>(svc, tr).
     case validate_target target of
       Some e \<Rightarrow> (Some e, (svc, tr))
     | None \<Rightarrow>
         if svc_dryRun svc then (None, (svc, tr))
         else
           let logsOpts = foldl (\<lambda>o' opt. opt o') newLogsOptions opts in
           (case (if lo_match logsOpts = LogsMatchNone
                  then logsAbsent E svc c target expected logsOpts tr
                  else logsPresent E svc c target expected logsOpts tr) of
              (r, tr) \<Rightarrow> (r, (svc, tr))))"

section \<open>Exec\<close>

record exec_options =
  xo_container :: string
  xo_retry :: backoff
  xo_timeout :: duration

definition new_exec_options :: exec_options where
  "new_exec_options = \<lparr>xo_container = [], xo_retry = retryBackoff 1 0, xo_timeout = 0\<rparr>"

definition WithExecContainer :: "string \<Rightarrow> exec_options \<Rightarrow> exec_options" where
  "WithExecContainer container o' = o'\<lparr>xo_container := container\<rparr>"

definition WithExecRetry :: "int \<Rightarrow> duration \<Rightarrow> exec_options \<Rightarrow> exec_options" where
  "WithExecRetry attempts d o' = o'\<lparr>xo_retry := retryBackoff attempts d\<rparr>"

definition WithExecTimeout :: "duration \<Rightarrow> exec_options \<Rightarrow> exec_options" where
  "WithExecTimeout timeout o' = (if 0 < timeout then o'\<lparr>xo_timeout := timeout\<rparr> else o')"

fun first_running :: "pod list \<Rightarrow> pod option" where
  "first_running [] = None"
| "first_running (p # ps) = (if phase_of p = PodRunning then Some p else first_running ps)"

definition resolvePodForExec :: "env \<Rightarrow> service \<Rightarrow> ctx \<Rightarrow> pod_target \<Rightarrow> ev list \<Rightarrow> (go_error + string \<times> string) \<times> ev list" where
  "resolvePodForExec E svc c target tr =
     (case podSelector E svc c target tr of
        (Inl e, tr) \<Rightarrow> (Inl e, tr)
      | (Inr (ns, podName, selector), tr) \<Rightarrow>
          if podName \<noteq> [] then (Inr (ns, podName), tr)
          else
            let r = env_pods E tr c ns selector; tr = tr @ [EvPods c ns selector r] in
            (case r of
               Inl e \<Rightarrow> (Inl (wrap (msg [''list pods by '', sq selector]) e), tr)
             | Inr pods \<Rightarrow>
                 (case first_running pods of
                    Some p \<Rightarrow> (Inr (ns, pod_name p), tr)
                  | None \<Rightarrow>
                      (Inl (Opaque (msg [''no running pod found for selector '', sq selector, '' in namespace '', sq ns])), tr))))"

definition exec_attempt :: "env \<Rightarrow> service \<Rightarrow> ctx \<Rightarrow> pod_target \<Rightarrow> string list \<Rightarrow> string \<Rightarrow> ev list \<Rightarrow> go_error option \<times> ev list" where
  "exec_attempt E svc c target command container tr =
     (case resolvePodForExec E svc c target tr of
        (Inl e, tr) \<Rightarrow> (Some (wrap ''resolve pod for exec'' e), tr)
      | (Inr (ns, podName), tr) \<Rightarrow>
          (case env_executor E ns podName of
             Some e \<Rightarrow> (Some (wrap ''create exec executor'' e), tr)
           | None \<Rightarrow>
               let r = env_exec E tr c ns podName container command;
                   tr = tr @ [EvExec c ns podName container command r];
                   what = msg [''exec ['', join '' '' command, ''] in pod '', go_quote podName, '': ''] in
               (case r of
                  None \<Rightarrow> (None, tr)
                | Some (streamErr, stderr) \<Rightarrow>
                    (let m = trim_space stderr in
                     if m \<noteq> [] then (Some (Wrapped what streamErr (msg ['': '', m])), tr)
                     else (Some (Wrapped what streamErr []), tr)))))"

definition Exec :: "env \<Rightarrow> ctx \<Rightarrow> pod_target \<Rightarrow> string list \<Rightarrow> (exec_options \<Rightarrow> exec_options) list \<Rightarrow>
    kstate \<Rightarrow> go_error option \<times> kstate" where
  "Exec E c target command opts = (\<lambda>(svc, tr).
     case validate_target target of
       Some e \<Rightarrow> (Some e, (svc, tr))
     | None \<Rightarrow>
         if svc_dryRun svc then (None, (svc, tr))
         else
           let execOpts = foldl (\<lambda>o' opt. opt o') new_exec_options opts;
               c = (if 0 < xo_timeout execOpts then WithTimeout c (xo_timeout execOpts) else c) in
           (case env_on_error_w E (xo_retry execOpts) retryAlways
                   (exec_attempt E svc c target command (xo_container execOpts)) tr of
              (r, tr) \<Rightarrow> (r, (svc, tr))))"

definition GetVersion :: "env \<Rightarrow> kstate \<Rightarrow> (go_error + string) \<times> kstate" where
  "GetVersion E = (\<lambda>(svc, tr).
     if svc_dryRun svc then (Inr ''dev'', (svc, tr))
     else
       let r = env_version E tr; tr = tr @ [EvVersion r] in
       (case r of
          Inl e \<Rightarrow> (Inl (wrap ''get server version'' e), (svc, tr))
        | Inr v \<Rightarrow> (Inr v, (svc, tr))))"

section \<open>Guarantees\<close>

lemma podSelector_evolves: "evolves (sv, tr) (sv, snd (podSelector E svc c target tr))"
  by (simp add: podSelector_def workloadPodSelector_def Let_def evolves_get evolves_inert1
      split: option.split sum.split list.split)

lemma resolvePodsForLogs_evolves: "evolves (sv, tr) (sv, snd (resolvePodsForLogs E svc c target ct tr))"
proof -
  obtain r tr1 where p: "podSelector E svc c target tr = (r, tr1)" by (cases "podSelector E svc c target tr")
  have "evolves (sv, tr) (sv, tr1)" using podSelector_evolves [of sv tr E svc c target] p by simp
  moreover from this have "evolves (sv, tr) (sv, tr1 @ [EvPods c ns sel x])" for ns sel x
    by (rule evolves_trans) (simp add: evolves_inert1)
  ultimately show ?thesis
    using p by (auto simp: resolvePodsForLogs_def Let_def split: sum.splits)
qed

lemma resolvePodForExec_evolves: "evolves (sv, tr) (sv, snd (resolvePodForExec E svc c target tr))"
proof -
  obtain r tr1 where p: "podSelector E svc c target tr = (r, tr1)" by (cases "podSelector E svc c target tr")
  have "evolves (sv, tr) (sv, tr1)" using podSelector_evolves [of sv tr E svc c target] p by simp
  moreover from this have "evolves (sv, tr) (sv, tr1 @ [EvPods c ns sel x])" for ns sel x
    by (rule evolves_trans) (simp add: evolves_inert1)
  ultimately show ?thesis
    using p by (auto simp: resolvePodForExec_def Let_def split: sum.splits option.splits)
qed

lemma logsContain_evolves: "evolves (sv, tr) (sv, snd (logsContain E c req expected tr))"
  by (simp add: logsContain_def Let_def evolves_inert1 split: sum.split)

lemma count_matches_evolves: "evolves (sv, tr) (sv, snd (count_matches E c expected reqs m tr))"
proof (induction reqs arbitrary: m tr)
  case Nil
  show ?case by simp
next
  case (Cons req reqs)
  show ?case
    using evolves_trans [OF logsContain_evolves Cons.IH] by (simp add: case_prod_beta)
qed

lemma countLogMatches_evolves: "evolves (sv, tr) (sv, snd (countLogMatches E svc c target expected ct tr))"
proof -
  obtain r tr1 where p: "resolvePodsForLogs E svc c target ct tr = (r, tr1)"
    by (cases "resolvePodsForLogs E svc c target ct tr")
  have "evolves (sv, tr) (sv, tr1)" using resolvePodsForLogs_evolves [of sv tr E svc c target ct] p by simp
  moreover from this have "evolves (sv, tr) (sv, snd (count_matches E c expected reqs m tr1))" for reqs m
    using count_matches_evolves by (rule evolves_trans)
  ultimately show ?thesis
    using p by (simp add: countLogMatches_def case_prod_beta split: sum.split)
qed

lemma present_cond_evolves: "evolves (sv, tr) (sv, snd (present_cond E svc c target expected opts tr))"
  using countLogMatches_evolves [of sv tr E svc c target expected "lo_container opts"]
  by (simp add: present_cond_def case_prod_beta)

lemma absent_cond_evolves: "evolves (sv, tr) (sv, snd (absent_cond E svc c target forbidden opts tr))"
  using countLogMatches_evolves [of sv tr E svc c target forbidden "lo_container opts"]
  by (simp add: absent_cond_def case_prod_beta)

lemma exec_attempt_evolves: "evolves (sv, tr) (sv, snd (exec_attempt E svc c target command ct tr))"
proof -
  obtain r tr1 where p: "resolvePodForExec E svc c target tr = (r, tr1)"
    by (cases "resolvePodForExec E svc c target tr")
  have "evolves (sv, tr) (sv, tr1)" using resolvePodForExec_evolves [of sv tr E svc c target] p by simp
  moreover from this have "evolves (sv, tr) (sv, tr1 @ [EvExec c ns pn ct command x])" for ns pn x
    by (rule evolves_trans) (simp add: evolves_inert1)
  ultimately show ?thesis
    using p by (auto simp: exec_attempt_def Let_def split: sum.splits option.splits)
qed

context kube_env
begin

lemma LogsContains_evolves: "evolves s (snd (LogsContains E c target expected opts s))"
proof -
  have "evolves (sv, tr) (sv, snd (logsPresent E svc c target expected lo tr))" for sv tr svc lo
    using poll_until_evolves [OF present_cond_evolves]
    by (simp add: logsPresent_def case_prod_beta split: option.split)
  moreover have "evolves (sv, tr) (sv, snd (logsAbsent E svc c target expected lo tr))" for sv tr svc lo
    using poll_until_evolves [OF absent_cond_evolves]
    by (simp add: logsAbsent_def case_prod_beta split: option.split)
  ultimately show ?thesis
    by (cases s) (simp add: LogsContains_def Let_def case_prod_beta split: option.split)
qed

lemma Exec_evolves: "evolves s (snd (Exec E c target command opts s))"
  using on_error_w_evolves [OF exec_attempt_evolves]
  by (cases s) (simp add: Exec_def Let_def case_prod_beta split: option.split)

end

end
