(* ===== verification/Engine_Model.thy ===== *)
theory Engine_Model
  imports Prelude
begin

text \<open>
  The values every report level shares (\<^verbatim>\<open>src/internal/engine\<close>): the execution state and the
  object statistics, and the two contracts the report levels have in common: a tally of passed
  and failed entries (\<open>tally\<close>) and a sum of statistics (\<open>stats_total\<close>). The report levels of
  the steps, cases, suites and the whole run interpret both on their own counting functions.
\<close>

section \<open>States and statistics\<close>

text \<open>\<open>StateUnset\<close> is the zero value of the Go string type \<^verbatim>\<open>State\<close>.\<close>

datatype run_state = StateUnset | StatePassed | StateFailed | StateSkipped

record stats =
  Ensured :: nat
  Patched :: nat
  Deleted :: nat

definition no_stats :: stats where
  "no_stats = \<lparr>Ensured = 0, Patched = 0, Deleted = 0\<rparr>"

definition Add :: "stats \<Rightarrow> stats \<Rightarrow> stats" where
  "Add s other =
     \<lparr>Ensured = Ensured s + Ensured other,
      Patched = Patched s + Patched other,
      Deleted = Deleted s + Deleted other\<rparr>"

lemma Add_assoc: "Add (Add a b) c = Add a (Add b c)"
  by (simp add: Add_def)

lemma Add_commute: "Add a b = Add b a"
  by (simp add: Add_def)

lemma Add_zero [simp]: "Add no_stats s = s" "Add s no_stats = s"
  by (simp_all add: Add_def no_stats_def)

lemma Add_fields [simp]:
  "Ensured (Add a b) = Ensured a + Ensured b"
  "Patched (Add a b) = Patched a + Patched b"
  "Deleted (Add a b) = Deleted a + Deleted b"
  by (simp_all add: Add_def)

lemma no_stats_fields [simp]: "Ensured no_stats = 0" "Patched no_stats = 0" "Deleted no_stats = 0"
  by (simp_all add: no_stats_def)

section \<open>The tally contract\<close>

text \<open>
  Each report level counts its entries in one pass: an entry in a good state adds one to the
  passed count, a failed entry adds one to the failed count. The levels differ in what is good:
  for actions only \<^const>\<open>StatePassed\<close>, elsewhere \<^const>\<open>StateSkipped\<close> too.
\<close>

locale tally =
  fixes state_of :: "'r \<Rightarrow> run_state"
    and good :: "run_state set"
    and tally_of :: "'r list \<Rightarrow> nat \<times> nat"
  assumes tally_Nil: "tally_of [] = (0, 0)"
    and tally_snoc: "tally_of (rs @ [r]) =
      (fst (tally_of rs) + (if state_of r \<in> good then 1 else 0),
       snd (tally_of rs) + (if state_of r = StateFailed then 1 else 0))"
    and failed_not_good: "StateFailed \<notin> good"
begin

lemma tally_filter:
  "tally_of rs = (length (filter (\<lambda>r. state_of r \<in> good) rs),
                  length (filter (\<lambda>r. state_of r = StateFailed) rs))"
  by (induction rs rule: rev_induct) (auto simp: tally_Nil tally_snoc)

lemma tally_append:
  "tally_of (xs @ ys) = (fst (tally_of xs) + fst (tally_of ys), snd (tally_of xs) + snd (tally_of ys))"
  by (simp add: tally_filter)

lemma tally_bound: "fst (tally_of rs) + snd (tally_of rs) \<le> length rs"
proof (induction rs rule: rev_induct)
  case Nil
  show ?case by (simp add: tally_Nil)
next
  case (snoc r rs)
  then show ?case using failed_not_good by (auto simp: tally_snoc)
qed

lemma tally_total:
  "(\<And>r. r \<in> set rs \<Longrightarrow> state_of r \<in> insert StateFailed good) \<Longrightarrow>
     fst (tally_of rs) + snd (tally_of rs) = length rs"
proof (induction rs rule: rev_induct)
  case Nil
  show ?case by (simp add: tally_Nil)
next
  case (snoc r rs)
  then have "fst (tally_of rs) + snd (tally_of rs) = length rs"
    and "state_of r \<in> insert StateFailed good" by auto
  then show ?case using failed_not_good by (auto simp: tally_snoc)
qed

lemma no_failed_iff: "snd (tally_of rs) = 0 \<longleftrightarrow> (\<forall>r \<in> set rs. state_of r \<noteq> StateFailed)"
  by (auto simp: tally_filter filter_empty_conv)

end

section \<open>The statistics contract\<close>

locale stats_total =
  fixes stats_of :: "'r \<Rightarrow> stats"
    and total :: "'r list \<Rightarrow> stats"
  assumes total_Nil: "total [] = no_stats"
    and total_snoc: "total (rs @ [r]) = Add (total rs) (stats_of r)"
begin

lemma total_append: "total (xs @ ys) = Add (total xs) (total ys)"
  by (induction ys rule: rev_induct)
    (simp_all add: total_Nil total_snoc Add_assoc del: append_assoc add: append_assoc [symmetric])

lemma total_Cons: "total (r # rs) = Add (stats_of r) (total rs)"
  using total_append [of "[r]" rs] total_snoc [of "[]" r] by (simp add: total_Nil)

lemma total_Ensured: "Ensured (total rs) = sum_list (map (\<lambda>r. Ensured (stats_of r)) rs)"
  by (induction rs) (simp_all add: total_Nil total_Cons)

lemma total_Patched: "Patched (total rs) = sum_list (map (\<lambda>r. Patched (stats_of r)) rs)"
  by (induction rs) (simp_all add: total_Nil total_Cons)

lemma total_Deleted: "Deleted (total rs) = sum_list (map (\<lambda>r. Deleted (stats_of r)) rs)"
  by (induction rs) (simp_all add: total_Nil total_Cons)

end

end
