(* ===== verification/Actions.thy ===== *)
theory Actions
  imports Kube_Pods Engine_Model
begin

text \<open>
  The actions of \<^verbatim>\<open>src/internal/engine/action\<close>: their configuration, their reports, and one
  \<^verbatim>\<open>Run\<close> function each. Logging is not modelled. An action returns its report and its error, and
  passes the state of the service on.
\<close>

section \<open>Configuration of the actions\<close>

record target =
  t_Object :: string
  t_Kind :: string
  t_LabelSelector :: string

abbreviation object_target :: "string \<Rightarrow> target" where
  "object_target n \<equiv> \<lparr>t_Object = n, t_Kind = [], t_LabelSelector = []\<rparr>"

record retry_conf =
  Attempts :: int
  Backoff :: "duration option"

record action_options =
  ao_Target :: target
  ao_Delay :: "duration option"
  ao_Timeout :: "duration option"

record ensure_action =
  en_Object :: string
  en_Retry :: "retry_conf option"
  en_Values :: "(string \<times> json) list"
  en_Delay :: "duration option"
  en_Timeout :: "duration option"

record delete_action =
  de_Options :: action_options
  de_Retry :: "retry_conf option"
  de_Wait :: bool
  de_Interval :: "duration option"

record patch_action =
  pa_Options :: action_options
  pa_Retry :: "retry_conf option"
  pa_Patches :: "patch_op list"

record wait_action =
  wa_Options :: action_options
  wa_Interval :: "duration option"
  wa_Conditions :: "string list"

record assert_action =
  as_Options :: action_options
  as_Retry :: "retry_conf option"
  as_Conditions :: "string list"

record logs_action =
  lg_Options :: action_options
  lg_Contains :: string
  lg_Container :: string
  lg_Match :: string
  lg_Interval :: "duration option"

record exec_action =
  ex_Options :: action_options
  ex_Command :: "string list"
  ex_Container :: string
  ex_Retry :: "retry_conf option"

definition attempts :: "retry_conf option \<Rightarrow> int" where
  "attempts r = (case r of None \<Rightarrow> 1 | Some rc \<Rightarrow> if Attempts rc < 2 then 1 else Attempts rc)"

definition backoff_of :: "retry_conf option \<Rightarrow> duration" where
  "backoff_of r = (case r of None \<Rightarrow> 0 | Some rc \<Rightarrow> (case Backoff rc of None \<Rightarrow> 0 | Some d \<Rightarrow> d))"

text \<open>
  The five accessors with a default share one body: a duration that is unset or not positive is
  replaced by the default.
\<close>

definition or_default :: "duration option \<Rightarrow> duration \<Rightarrow> duration" where
  "or_default d def = (case d of None \<Rightarrow> def | Some x \<Rightarrow> if x \<le> 0 then def else x)"

definition logs_IntervalOrDefault :: "logs_action \<Rightarrow> duration \<Rightarrow> duration" where
  "logs_IntervalOrDefault a def = or_default (lg_Interval a) def"

definition wait_IntervalOrDefault :: "wait_action \<Rightarrow> duration \<Rightarrow> duration" where
  "wait_IntervalOrDefault a def = or_default (wa_Interval a) def"

definition delete_IntervalOrDefault :: "delete_action \<Rightarrow> duration \<Rightarrow> duration" where
  "delete_IntervalOrDefault a def = or_default (de_Interval a) def"

definition delete_TimeoutOrDefault :: "delete_action \<Rightarrow> duration \<Rightarrow> duration" where
  "delete_TimeoutOrDefault a def = or_default (ao_Timeout (de_Options a)) def"

definition TimeoutOrDefault :: "action_options \<Rightarrow> duration \<Rightarrow> duration" where
  "TimeoutOrDefault a def = or_default (ao_Timeout a) def"

section \<open>Reports\<close>

datatype action_name = NameEnsure | NamePatch | NameWait | NameAssert | NameLogs | NameExec | NameDelete

record action_report =
  ar_Action :: action_name
  ar_Target :: target
  ar_StartedAt :: time
  ar_FinishedAt :: time
  ar_Duration :: duration
  ar_State :: run_state
  ar_Reason :: string

definition action_newReport :: "env \<Rightarrow> action_name \<Rightarrow> target \<Rightarrow> ev list \<Rightarrow> action_report \<times> ev list" where
  "action_newReport E name tgt tr =
     (let (t, tr) = now E tr in
      (\<lparr>ar_Action = name, ar_Target = tgt, ar_StartedAt = t, ar_FinishedAt = 0, ar_Duration = 0,
        ar_State = StateUnset, ar_Reason = []\<rparr>, tr))"

definition action_finishReport :: "env \<Rightarrow> action_report \<Rightarrow> go_error option \<Rightarrow> kstate \<Rightarrow>
    (action_report \<times> go_error option) \<times> kstate" where
  "action_finishReport E report err = (\<lambda>(svc, tr).
     let (t, tr) = now E tr;
         report = report\<lparr>ar_FinishedAt := t, ar_Duration := t - ar_StartedAt report\<rparr> in
     (case err of
        Some e \<Rightarrow> ((report\<lparr>ar_State := StateFailed, ar_Reason := err_text e\<rparr>, Some e), (svc, tr))
      | None \<Rightarrow> ((report\<lparr>ar_State := StatePassed\<rparr>, None), (svc, tr))))"

section \<open>Running an action\<close>

definition defaultWaitInterval :: duration where
  "defaultWaitInterval = 2 * 1000000000"

definition defaultWaitTimeout :: duration where
  "defaultWaitTimeout = 2 * 60 * 1000000000"

definition defaultExecTimeout :: duration where
  "defaultExecTimeout = 30 * 1000000000"

record action_config =
  ac_Object :: "kobj option"
  ac_Annotations :: strmap

text \<open>
  The select of \<^verbatim>\<open>applyDelay\<close>: the environment says whether the timer fired first (\<^const>\<open>None\<close>) or
  the context ended, with its error.
\<close>

definition applyDelay :: "env \<Rightarrow> ctx \<Rightarrow> duration option \<Rightarrow> ev list \<Rightarrow> go_error option \<times> ev list" where
  "applyDelay E c delay tr =
     (case delay of
        None \<Rightarrow> (None, tr)
      | Some d \<Rightarrow>
          if d \<le> 0 then (None, tr)
          else let r = env_delay E tr c d in (r, tr @ [EvDelay c d r]))"

text \<open>The frame all seven \<^verbatim>\<open>Run\<close> functions share: report, delay, operation, report.\<close>

definition run_action :: "env \<Rightarrow> ctx \<Rightarrow> action_name \<Rightarrow> target \<Rightarrow> duration option \<Rightarrow>
    (kstate \<Rightarrow> go_error option \<times> kstate) \<Rightarrow> kstate \<Rightarrow> (action_report \<times> go_error option) \<times> kstate" where
  "run_action E c name tgt delay oper = (\<lambda>(svc, tr).
     let (report, tr) = action_newReport E name tgt tr in
     (case applyDelay E c delay tr of
        (Some e, tr) \<Rightarrow> action_finishReport E report (Some e) (svc, tr)
      | (None, tr) \<Rightarrow>
          (case oper (svc, tr) of (err, s) \<Rightarrow> action_finishReport E report err s)))"

definition RunEnsure :: "env \<Rightarrow> ctx \<Rightarrow> action_config \<Rightarrow> ensure_action \<Rightarrow> kstate \<Rightarrow>
    (action_report \<times> go_error option) \<times> kstate" where
  "RunEnsure E c conf act =
     run_action E c NameEnsure (object_target (en_Object act)) (en_Delay act)
       (Ensure E c (ac_Object conf)
          [WithEnsureAnnotations (ac_Annotations conf),
           WithEnsureRetry (attempts (en_Retry act)) (backoff_of (en_Retry act))])"

definition RunDelete :: "env \<Rightarrow> ctx \<Rightarrow> action_config \<Rightarrow> delete_action \<Rightarrow> kstate \<Rightarrow>
    (action_report \<times> go_error option) \<times> kstate" where
  "RunDelete E c conf act =
     run_action E c NameDelete (ao_Target (de_Options act)) (ao_Delay (de_Options act))
       (Delete E c (ac_Object conf)
          [WithDeleteWait (de_Wait act) (delete_TimeoutOrDefault act defaultWaitTimeout),
           WithDeleteInterval (delete_IntervalOrDefault act defaultWaitInterval),
           WithDeleteRetry (attempts (de_Retry act)) (backoff_of (de_Retry act))])"

definition RunWait :: "env \<Rightarrow> ctx \<Rightarrow> action_config \<Rightarrow> wait_action \<Rightarrow> kstate \<Rightarrow>
    (action_report \<times> go_error option) \<times> kstate" where
  "RunWait E c conf act =
     run_action E c NameWait (ao_Target (wa_Options act)) (ao_Delay (wa_Options act))
       (Wait E c (ac_Object conf)
          [WithWaitConditions (wa_Conditions act),
           WithWaitInterval (wait_IntervalOrDefault act defaultWaitInterval),
           WithWaitTimeout (TimeoutOrDefault (wa_Options act) defaultWaitTimeout)])"

text \<open>A patch action without patches passes without touching the service.\<close>

definition RunPatch :: "env \<Rightarrow> ctx \<Rightarrow> action_config \<Rightarrow> patch_action \<Rightarrow> kstate \<Rightarrow>
    (action_report \<times> go_error option) \<times> kstate" where
  "RunPatch E c conf act =
     run_action E c NamePatch (ao_Target (pa_Options act)) (ao_Delay (pa_Options act))
       (if length (pa_Patches act) = 0 then (\<lambda>s. (None, s))
        else Patch E c (ac_Object conf) (pa_Patches act)
               [WithPatchRetry (attempts (pa_Retry act)) (backoff_of (pa_Retry act))])"

definition RunAssert :: "env \<Rightarrow> ctx \<Rightarrow> action_config \<Rightarrow> assert_action \<Rightarrow> kstate \<Rightarrow>
    (action_report \<times> go_error option) \<times> kstate" where
  "RunAssert E c conf act =
     run_action E c NameAssert (ao_Target (as_Options act)) (ao_Delay (as_Options act))
       (Check E c (ac_Object conf) (as_Conditions act)
          [WithCheckRetry (attempts (as_Retry act)) (backoff_of (as_Retry act))])"

definition podTarget :: "action_config \<Rightarrow> target \<Rightarrow> pod_target" where
  "podTarget conf t =
     (if t_Object t \<noteq> [] then \<lparr>pt_Object = ac_Object conf, pt_Kind = [], pt_LabelSelector = []\<rparr>
      else \<lparr>pt_Object = None, pt_Kind = t_Kind t, pt_LabelSelector = t_LabelSelector t\<rparr>)"

text \<open>The name log records give a target.\<close>

definition targetName :: "action_config \<Rightarrow> target \<Rightarrow> string" where
  "targetName conf t =
     (case ac_Object conf of
        Some obj \<Rightarrow> if t_Object t \<noteq> [] then o_name obj else msg [t_Kind t, ''['', t_LabelSelector t, '']'']
      | None \<Rightarrow> msg [t_Kind t, ''['', t_LabelSelector t, '']''])"

definition RunLogs :: "env \<Rightarrow> ctx \<Rightarrow> action_config \<Rightarrow> logs_action \<Rightarrow> kstate \<Rightarrow>
    (action_report \<times> go_error option) \<times> kstate" where
  "RunLogs E c conf act =
     run_action E c NameLogs (ao_Target (lg_Options act)) (ao_Delay (lg_Options act))
       (LogsContains E c (podTarget conf (ao_Target (lg_Options act))) (lg_Contains act)
          [WithLogsContainer (lg_Container act),
           WithLogsMatch (lg_Match act),
           WithLogsInterval (logs_IntervalOrDefault act defaultWaitInterval),
           WithLogsTimeout (TimeoutOrDefault (lg_Options act) defaultWaitTimeout)])"

definition RunExec :: "env \<Rightarrow> ctx \<Rightarrow> action_config \<Rightarrow> exec_action \<Rightarrow> kstate \<Rightarrow>
    (action_report \<times> go_error option) \<times> kstate" where
  "RunExec E c conf act =
     run_action E c NameExec (ao_Target (ex_Options act)) (ao_Delay (ex_Options act))
       (Exec E c (podTarget conf (ao_Target (ex_Options act))) (ex_Command act)
          [WithExecContainer (ex_Container act),
           WithExecRetry (attempts (ex_Retry act)) (backoff_of (ex_Retry act)),
           WithExecTimeout (TimeoutOrDefault (ex_Options act) defaultExecTimeout)])"

section \<open>The contract of an action\<close>

text \<open>
  What a step relies on, whatever the action does: the report is finished, its state says
  whether the action failed, and its reason is the text of the error.
\<close>

definition report_matches :: "action_name \<Rightarrow> action_report \<times> go_error option \<Rightarrow> bool" where
  "report_matches name res =
     (ar_Action (fst res) = name \<and>
      ar_Duration (fst res) = ar_FinishedAt (fst res) - ar_StartedAt (fst res) \<and>
      (case snd res of
         None \<Rightarrow> ar_State (fst res) = StatePassed \<and> ar_Reason (fst res) = []
       | Some e \<Rightarrow> ar_State (fst res) = StateFailed \<and> ar_Reason (fst res) = err_text e))"

lemma now_events [simp]: "fst (now E tr) = env_now E tr" "snd (now E tr) = tr @ [EvNow (env_now E tr)]"
  by (simp_all add: now_def Let_def)

lemma run_action_matches: "report_matches name (fst (run_action E c name tgt delay oper s))"
  by (auto simp: run_action_def report_matches_def action_newReport_def action_finishReport_def Let_def
      case_prod_beta split: option.splits)

lemma finish_state: "snd (action_finishReport E r err s) = (fst s, snd s @ [EvNow (env_now E (snd s))])"
  by (cases s) (auto simp: action_finishReport_def Let_def case_prod_beta split: option.splits)

lemma finish_err: "snd (fst (action_finishReport E r err s)) = err"
  by (cases s) (auto simp: action_finishReport_def Let_def case_prod_beta split: option.splits)

text \<open>The error of an action is that of its delay or of its operation.\<close>

lemma run_action_err:
  "snd (fst (run_action E c name tgt delay oper (sv, tr))) =
     (let tr1 = tr @ [EvNow (env_now E tr)] in
      case applyDelay E c delay tr1 of
        (Some e, tr2) \<Rightarrow> Some e
      | (None, tr2) \<Rightarrow> fst (oper (sv, tr2)))"
  by (simp add: run_action_def action_newReport_def Let_def case_prod_beta finish_err split: option.split)

text \<open>A relation every operation keeps is kept by the action around it.\<close>

lemma run_action_relates:
  assumes oper: "\<And>s. P s \<Longrightarrow> R s (snd (oper s))"
    and trans: "\<And>a b c. R a b \<Longrightarrow> R b c \<Longrightarrow> R a c"
    and local_steps: "\<And>sv tr x. local_event x \<Longrightarrow> R (sv, tr) (sv, tr @ [x])"
    and keep: "\<And>sv tr x. P (sv, tr) \<Longrightarrow> P (sv, tr @ [x])"
    and start: "P s"
  shows "R s (snd (run_action E c name tgt delay oper s))"
proof -
  obtain sv tr where s: "s = (sv, tr)" by (cases s)
  define tr1 where "tr1 = tr @ [EvNow (env_now E tr)]"
  have r1: "R (sv, tr) (sv, tr1)" and p1: "P (sv, tr1)"
    using start local_steps keep by (simp_all add: tr1_def s)
  obtain r tr2 where d: "applyDelay E c delay tr1 = (r, tr2)" by (cases "applyDelay E c delay tr1")
  then have r2: "R (sv, tr) (sv, tr2)" and p2: "P (sv, tr2)"
    using r1 p1 keep local_steps trans
    by (auto simp: applyDelay_def Let_def split: option.splits if_splits)
  have fin: "R (sv, tr) (snd (action_finishReport E rep err t))" if "R (sv, tr) t" for rep err t
    using that local_steps [of "EvNow (env_now E (snd t))" "fst t" "snd t"]
    by (simp add: finish_state) (rule trans)
  have "R (sv, tr) (snd (oper (sv, tr2)))" using r2 oper [OF p2] trans by blast
  then show ?thesis
    using fin r2 d by (simp add: s run_action_def action_newReport_def Let_def case_prod_beta tr1_def [symmetric]
        split: option.split)
qed

lemma local_inert: "local_event x \<Longrightarrow> inert x"
  by (cases x) auto

lemma run_action_evolves:
  assumes "\<And>s. evolves s (snd (oper s))"
  shows "evolves s (snd (run_action E c name tgt delay oper s))"
  by (rule run_action_relates [where P = "\<lambda>_. True"])
    (auto intro: assms evolves_trans evolves_inert1 local_inert)

lemma run_action_quiet:
  assumes "\<And>s. svc_dryRun (fst s) \<Longrightarrow> quiet s (snd (oper s))" and "svc_dryRun (fst s)"
  shows "quiet s (snd (run_action E c name tgt delay oper s))"
  by (rule run_action_relates [where P = "\<lambda>s. svc_dryRun (fst s)"])
    (use assms in \<open>auto intro: quiet_trans\<close>)

section \<open>Dry run: no operation reaches the cluster\<close>

lemma operation_quiet:
  assumes "svc_dryRun (fst s)"
  shows "quiet s (snd (Ensure E c objp eopts s))"
    "quiet s (snd (Patch E c objp ps popts s))"
    "quiet s (snd (Wait E c objp wopts s))"
    "quiet s (snd (Check E c objp conds copts s))"
    "quiet s (snd (Delete E c objp dopts s))"
    "quiet s (snd (LogsContains E c t x lopts s))"
    "quiet s (snd (Exec E c t cmd xopts s))"
    "quiet s (snd (Cleanup E c s))"
  using assms
  by (cases s; simp add: Ensure_def Patch_def Wait_def Check_def Delete_def LogsContains_def Exec_def
      Cleanup_def split: option.split)+

lemma Run_quiet:
  assumes "svc_dryRun (fst s)"
  shows "quiet s (snd (RunEnsure E c conf a1 s))"
    "quiet s (snd (RunPatch E c conf a2 s))"
    "quiet s (snd (RunWait E c conf a3 s))"
    "quiet s (snd (RunAssert E c conf a4 s))"
    "quiet s (snd (RunLogs E c conf a5 s))"
    "quiet s (snd (RunExec E c conf a6 s))"
    "quiet s (snd (RunDelete E c conf a7 s))"
  unfolding RunEnsure_def RunPatch_def RunWait_def RunAssert_def RunLogs_def RunExec_def RunDelete_def
  by (rule run_action_quiet [OF _ assms]; simp add: operation_quiet)+

section \<open>The guarantee of the actions\<close>

context kube_env
begin

lemma RunEnsure_evolves: "evolves s (snd (RunEnsure E c conf act s))"
  unfolding RunEnsure_def
  by (rule run_action_evolves, rule Ensure_evolves)
    (simp add: WithEnsureRetry_def WithEnsureAnnotations_def newEnsureOptions_def)

lemma Run_evolves:
  "evolves s (snd (RunPatch E c conf a2 s))"
  "evolves s (snd (RunWait E c conf a3 s))"
  "evolves s (snd (RunAssert E c conf a4 s))"
  "evolves s (snd (RunLogs E c conf a5 s))"
  "evolves s (snd (RunExec E c conf a6 s))"
  "evolves s (snd (RunDelete E c conf a7 s))"
  unfolding RunPatch_def RunWait_def RunAssert_def RunLogs_def RunExec_def RunDelete_def
  by (rule run_action_evolves;
      simp add: Patch_evolves Wait_evolves Check_evolves LogsContains_evolves Exec_evolves Delete_evolves)+

lemmas action_evolves = RunEnsure_evolves Run_evolves

end

end
