(* ===== verification/Sequencing.thy ===== *)
theory Sequencing
  imports Prelude
begin

text \<open>
  Running a list of items in order until one fails, keeping the report of each: the contract of
  the actions of a step and of the steps of a hook list. The locale \<open>sequencer\<close> states what one
  item promises; its lemmas say what the sequence does.
\<close>

fun run_seq :: "('a \<Rightarrow> 's \<Rightarrow> ('r \<times> go_error option) \<times> 's) \<Rightarrow> 'a list \<Rightarrow> 's \<Rightarrow> ('r list \<times> go_error option) \<times> 's" where
  "run_seq f [] s = (([], None), s)"
| "run_seq f (a # as) s =
     (case f a s of
        ((r, Some e), s') \<Rightarrow> (([r], Some e), s')
      | ((r, None), s') \<Rightarrow>
          (case run_seq f as s' of ((rs, err), s'') \<Rightarrow> ((r # rs, err), s'')))"

lemma run_seq_append:
  "run_seq f (xs @ ys) s =
     (case run_seq f xs s of
        ((rs, Some e), s') \<Rightarrow> ((rs, Some e), s')
      | ((rs, None), s') \<Rightarrow>
          (case run_seq f ys s' of ((rs', err), s'') \<Rightarrow> ((rs @ rs', err), s'')))"
  by (induction xs arbitrary: s) (auto split: prod.splits option.splits)

lemma run_seq_relates:
  assumes "reflp R" and "transp R" and "\<And>a s. a \<in> set as \<Longrightarrow> R s (snd (f a s))"
  shows "R s (snd (run_seq f as s))"
  using assms(3)
proof (induction as arbitrary: s)
  case Nil
  show ?case using assms(1) by (simp add: reflpD)
next
  case (Cons a as)
  obtain r err s' where fa: "f a s = ((r, err), s')" by (metis surj_pair)
  have "R s s'" using Cons.prems [of a s] fa by simp
  moreover have "R s' (snd (run_seq f as s'))" using Cons by simp
  ultimately have "R s (snd (run_seq f as s'))" using assms(2) by (blast dest: transpD)
  then show ?case using fa \<open>R s s'\<close> by (cases err) (simp_all add: case_prod_beta)
qed

locale sequencer =
  fixes f :: "'a \<Rightarrow> 's \<Rightarrow> ('r \<times> go_error option) \<times> 's"
    and done_ok :: "'a \<Rightarrow> 'r \<Rightarrow> bool"
    and done_bad :: "'a \<Rightarrow> 'r \<Rightarrow> go_error \<Rightarrow> bool"
  assumes item_ok: "f a s = ((r, None), s') \<Longrightarrow> done_ok a r"
    and item_bad: "f a s = ((r, Some e), s') \<Longrightarrow> done_bad a r e"
begin

text \<open>Either everything ran well, or a prefix ran well and the next item failed.\<close>

lemma seq_shape:
  assumes "run_seq f as s = ((rs, err), s')"
  shows "(err = None \<and> list_all2 done_ok as rs) \<or>
    (\<exists>pre a post e rpre r. as = pre @ a # post \<and> rs = rpre @ [r] \<and> err = Some e \<and>
       list_all2 done_ok pre rpre \<and> done_bad a r e)"
  using assms
proof (induction as arbitrary: s rs)
  case Nil
  then show ?case by simp
next
  case (Cons a as)
  obtain r x s1 where fa: "f a s = ((r, x), s1)" by (metis surj_pair)
  show ?case
  proof (cases x)
    case (Some e)
    then have "done_bad a r e" using fa item_bad by simp
    moreover have "rs = [r]" "err = Some e" using Cons.prems fa Some by simp_all
    ultimately show ?thesis
      by (intro disjI2 exI [of _ "[]"] exI [of _ a] exI [of _ as] exI [of _ e] exI [of _ r]) simp
  next
    case None
    then have ok: "done_ok a r" using fa item_ok by simp
    obtain rs1 where rs1: "run_seq f as s1 = ((rs1, err), s')" "rs = r # rs1"
      using Cons.prems fa None by (auto split: prod.splits)
    from Cons.IH [OF rs1(1)] show ?thesis
    proof
      assume "err = None \<and> list_all2 done_ok as rs1"
      with ok rs1(2) show ?thesis by simp
    next
      assume "\<exists>pre b post e rpre q. as = pre @ b # post \<and> rs1 = rpre @ [q] \<and> err = Some e \<and>
        list_all2 done_ok pre rpre \<and> done_bad b q e"
      then obtain pre b post e rpre q where
        "as = pre @ b # post" "rs1 = rpre @ [q]" "err = Some e" "list_all2 done_ok pre rpre" "done_bad b q e"
        by blast
      with ok rs1(2) show ?thesis
        by (intro disjI2 exI [of _ "a # pre"] exI [of _ b] exI [of _ post] exI [of _ e]
            exI [of _ "r # rpre"] exI [of _ q]) simp
    qed
  qed
qed

lemma seq_length: "run_seq f as s = ((rs, err), s') \<Longrightarrow> length rs \<le> length as \<and> (err = None \<longrightarrow> length rs = length as)"
  by (drule seq_shape) (auto dest: list_all2_lengthD)

end

end
