(* ===== verification/Steps.thy ===== *)
theory Steps
  imports Actions Sequencing
begin

text \<open>
  The step runner of \<^verbatim>\<open>src/internal/engine/step\<close>: the step, its report, rendering of the objects
  its actions name, and \<^verbatim>\<open>Run\<close>. The seven guarded branches of the code are translated as they
  are written (\<open>service_run\<close>) and refine the sequence of the configured actions (\<open>run_seq\<close>).
\<close>

section \<open>Steps and their reports\<close>

definition stepAnnotation :: string where
  "stepAnnotation = ''testing.kube2e.io/step''"

record step =
  st_Name :: string
  st_Description :: string
  st_Optional :: bool
  st_Ensure :: "ensure_action option"
  st_Patch :: "patch_action option"
  st_Wait :: "wait_action option"
  st_Assert :: "assert_action option"
  st_Logs :: "logs_action option"
  st_Exec :: "exec_action option"
  st_Delete :: "delete_action option"

definition one_if :: "'a option \<Rightarrow> nat" where
  "one_if x = (if x = None then 0 else 1)"

definition CountActions :: "step \<Rightarrow> nat" where
  "CountActions s = one_if (st_Ensure s) + one_if (st_Patch s) + one_if (st_Wait s) +
     one_if (st_Assert s) + one_if (st_Logs s) + one_if (st_Exec s) + one_if (st_Delete s)"

record step_report =
  sr_Name :: string
  sr_Description :: string
  sr_Optional :: bool
  sr_StartedAt :: time
  sr_FinishedAt :: time
  sr_Duration :: duration
  sr_State :: run_state
  sr_Reason :: string
  sr_Passed :: nat
  sr_Failed :: nat
  sr_Total :: nat
  sr_Stats :: stats
  sr_Actions :: "action_report list"

definition empty_step_report :: step_report where
  "empty_step_report = \<lparr>sr_Name = [], sr_Description = [], sr_Optional = False, sr_StartedAt = 0,
     sr_FinishedAt = 0, sr_Duration = 0, sr_State = StateUnset, sr_Reason = [], sr_Passed = 0,
     sr_Failed = 0, sr_Total = 0, sr_Stats = no_stats, sr_Actions = []\<rparr>"

definition appendActionReport :: "action_report list \<Rightarrow> action_report option \<Rightarrow> go_error option \<Rightarrow>
    action_report list \<times> go_error option" where
  "appendActionReport reports report err =
     (case report of None \<Rightarrow> (reports, err) | Some r \<Rightarrow> (reports @ [r], err))"

definition countActions :: "action_report list \<Rightarrow> nat \<times> nat" where
  "countActions reports = foldl (\<lambda>(passed, failed) report.
     case ar_State report of
       StatePassed \<Rightarrow> (passed + 1, failed)
     | StateFailed \<Rightarrow> (passed, failed + 1)
     | _ \<Rightarrow> (passed, failed)) (0, 0) reports"

definition action_stats :: "action_report \<Rightarrow> stats" where
  "action_stats report =
     (if ar_State report \<noteq> StatePassed then no_stats
      else (case ar_Action report of
              NameEnsure \<Rightarrow> no_stats\<lparr>Ensured := 1\<rparr>
            | NamePatch \<Rightarrow> no_stats\<lparr>Patched := 1\<rparr>
            | NameDelete \<Rightarrow> no_stats\<lparr>Deleted := 1\<rparr>
            | _ \<Rightarrow> no_stats))"

definition objectStats :: "action_report list \<Rightarrow> stats" where
  "objectStats reports = foldl (\<lambda>stats report.
     if ar_State report \<noteq> StatePassed then stats
     else (case ar_Action report of
             NameEnsure \<Rightarrow> stats\<lparr>Ensured := Ensured stats + 1\<rparr>
           | NamePatch \<Rightarrow> stats\<lparr>Patched := Patched stats + 1\<rparr>
           | NameDelete \<Rightarrow> stats\<lparr>Deleted := Deleted stats + 1\<rparr>
           | _ \<Rightarrow> stats)) no_stats reports"

definition failedActionReport :: "env \<Rightarrow> action_name \<Rightarrow> target \<Rightarrow> go_error \<Rightarrow> kstate \<Rightarrow>
    (action_report \<times> go_error option) \<times> kstate" where
  "failedActionReport E name tgt err = (\<lambda>(svc, tr).
     let (t, tr) = now E tr in
     ((\<lparr>ar_Action = name, ar_Target = tgt, ar_StartedAt = t, ar_FinishedAt = t, ar_Duration = 0,
        ar_State = StateFailed, ar_Reason = err_text err\<rparr>, Some err), (svc, tr)))"

definition step_finishReport :: "env \<Rightarrow> step_report \<Rightarrow> go_error option \<Rightarrow> kstate \<Rightarrow>
    (step_report \<times> go_error option) \<times> kstate" where
  "step_finishReport E report err = (\<lambda>(svc, tr).
     let (t, tr) = now E tr;
         report = report\<lparr>sr_FinishedAt := t, sr_Duration := t - sr_StartedAt report\<rparr> in
     (case err of
        Some e \<Rightarrow> ((report\<lparr>sr_State := StateFailed, sr_Reason := err_text e\<rparr>, Some e), (svc, tr))
      | None \<Rightarrow> ((report\<lparr>sr_State := StatePassed\<rparr>, None), (svc, tr))))"

section \<open>The step service\<close>

text \<open>The fields of the step service that are fixed while its actions run.\<close>

record step_service =
  ss_template :: manager
  ss_annotations :: strmap
  ss_values :: "string store"

definition actionConf :: "step_service \<Rightarrow> kobj option \<Rightarrow> action_config" where
  "actionConf s obj = \<lparr>ac_Object = obj, ac_Annotations = ss_annotations s\<rparr>"

definition render :: "env \<Rightarrow> step_service \<Rightarrow> strmap \<Rightarrow> string \<Rightarrow> (string \<times> json) list \<Rightarrow> go_error + kobj" where
  "render E s objects name extra =
     (case map_of objects name of
        None \<Rightarrow> Inl (wrap (msg [''object '', go_quote name]) (Sentinel ErrObjectNotInMap))
      | Some tmplName \<Rightarrow>
          let values = [(''name'', JStr name)];
              values = maps_copy values extra;
              values = AList.update ''Values'' (JObj (map (\<lambda>(k, v). (k, JStr v)) (ss_values s))) values in
          Render E (ss_template s) tmplName values)"

definition targetConf :: "env \<Rightarrow> step_service \<Rightarrow> target \<Rightarrow> strmap \<Rightarrow> go_error + action_config" where
  "targetConf E s t objects =
     (if t_Object t = [] then Inr (actionConf s None)
      else (case render E s objects (t_Object t) [] of
              Inl e \<Rightarrow> Inl (wrap (msg [''render object '', go_quote (t_Object t)]) e)
            | Inr obj \<Rightarrow> Inr (actionConf s (Some obj))))"

definition runEnsure :: "env \<Rightarrow> ctx \<Rightarrow> step_service \<Rightarrow> strmap \<Rightarrow> ensure_action \<Rightarrow> kstate \<Rightarrow> (action_report \<times> go_error option) \<times> kstate" where
  "runEnsure E c s objects act =
     (let name = en_Object act in
      case render E s objects name (en_Values act) of
        Inl e \<Rightarrow> failedActionReport E NameEnsure (object_target name)
                  (wrap (msg [''render object '', go_quote name, '' for ensure'']) e)
      | Inr obj \<Rightarrow> RunEnsure E c (actionConf s (Some obj)) act)"

definition runPatch :: "env \<Rightarrow> ctx \<Rightarrow> step_service \<Rightarrow> strmap \<Rightarrow> patch_action \<Rightarrow> kstate \<Rightarrow> (action_report \<times> go_error option) \<times> kstate" where
  "runPatch E c s objects act =
     (let tgt = ao_Target (pa_Options act); name = t_Object tgt in
      case render E s objects name [] of
        Inl e \<Rightarrow> failedActionReport E NamePatch tgt
                  (wrap (msg [''render object '', go_quote name, '' for patch'']) e)
      | Inr obj \<Rightarrow> RunPatch E c (actionConf s (Some obj)) act)"

definition runWait :: "env \<Rightarrow> ctx \<Rightarrow> step_service \<Rightarrow> strmap \<Rightarrow> wait_action \<Rightarrow> kstate \<Rightarrow> (action_report \<times> go_error option) \<times> kstate" where
  "runWait E c s objects act =
     (let tgt = ao_Target (wa_Options act); name = t_Object tgt in
      case render E s objects name [] of
        Inl e \<Rightarrow> failedActionReport E NameWait tgt
                  (wrap (msg [''render object '', go_quote name, '' for wait'']) e)
      | Inr obj \<Rightarrow> RunWait E c (actionConf s (Some obj)) act)"

definition runAssert :: "env \<Rightarrow> ctx \<Rightarrow> step_service \<Rightarrow> strmap \<Rightarrow> assert_action \<Rightarrow> kstate \<Rightarrow> (action_report \<times> go_error option) \<times> kstate" where
  "runAssert E c s objects act =
     (let tgt = ao_Target (as_Options act); name = t_Object tgt in
      case render E s objects name [] of
        Inl e \<Rightarrow> failedActionReport E NameAssert tgt
                  (wrap (msg [''render object '', go_quote name, '' for assert'']) e)
      | Inr obj \<Rightarrow> RunAssert E c (actionConf s (Some obj)) act)"

definition runLogs :: "env \<Rightarrow> ctx \<Rightarrow> step_service \<Rightarrow> strmap \<Rightarrow> logs_action \<Rightarrow> kstate \<Rightarrow> (action_report \<times> go_error option) \<times> kstate" where
  "runLogs E c s objects act =
     (let tgt = ao_Target (lg_Options act) in
      case targetConf E s tgt objects of
        Inl e \<Rightarrow> failedActionReport E NameLogs tgt e
      | Inr conf \<Rightarrow> RunLogs E c conf act)"

definition runExec :: "env \<Rightarrow> ctx \<Rightarrow> step_service \<Rightarrow> strmap \<Rightarrow> exec_action \<Rightarrow> kstate \<Rightarrow> (action_report \<times> go_error option) \<times> kstate" where
  "runExec E c s objects act =
     (let tgt = ao_Target (ex_Options act) in
      case targetConf E s tgt objects of
        Inl e \<Rightarrow> failedActionReport E NameExec tgt e
      | Inr conf \<Rightarrow> RunExec E c conf act)"

definition runDelete :: "env \<Rightarrow> ctx \<Rightarrow> step_service \<Rightarrow> strmap \<Rightarrow> delete_action \<Rightarrow> kstate \<Rightarrow> (action_report \<times> go_error option) \<times> kstate" where
  "runDelete E c s objects act =
     (let tgt = ao_Target (de_Options act); name = t_Object tgt in
      case render E s objects name [] of
        Inl e \<Rightarrow> failedActionReport E NameDelete tgt
                  (wrap (msg [''render object '', go_quote name, '' for delete'']) e)
      | Inr obj \<Rightarrow> RunDelete E c (actionConf s (Some obj)) act)"

text \<open>One guarded branch: skipped when the action is absent or an earlier one failed.\<close>

definition branch :: "'a option \<Rightarrow> ('a \<Rightarrow> kstate \<Rightarrow> (action_report \<times> go_error option) \<times> kstate) \<Rightarrow>
    (action_report list \<times> go_error option) \<times> kstate \<Rightarrow> (action_report list \<times> go_error option) \<times> kstate" where
  "branch act f = (\<lambda>((reports, err), s).
     if err = None then
       (case act of
          None \<Rightarrow> ((reports, err), s)
        | Some a \<Rightarrow>
            (case f a s of ((report, runErr), s) \<Rightarrow> (appendActionReport reports (Some report) runErr, s)))
     else ((reports, err), s))"

definition service_run :: "env \<Rightarrow> ctx \<Rightarrow> step_service \<Rightarrow> step option \<Rightarrow> strmap \<Rightarrow> kstate \<Rightarrow>
    (action_report list \<times> go_error option) \<times> kstate" where
  "service_run E c s stp objects k =
     (case stp of
        None \<Rightarrow> (([], Some (Sentinel ErrNilStep)), k)
      | Some st \<Rightarrow>
          let k = (([], None), k);
              k = branch (st_Ensure st) (runEnsure E c s objects) k;
              k = branch (st_Patch st) (runPatch E c s objects) k;
              k = branch (st_Wait st) (runWait E c s objects) k;
              k = branch (st_Assert st) (runAssert E c s objects) k;
              k = branch (st_Logs st) (runLogs E c s objects) k;
              k = branch (st_Exec st) (runExec E c s objects) k;
              k = branch (st_Delete st) (runDelete E c s objects) k in
          k)"

record step_config =
  sc_Template :: manager
  sc_Objects :: strmap
  sc_Step :: "step option"
  sc_Annotations :: strmap
  sc_Values :: "string store"

definition step_service_of :: "step_config \<Rightarrow> step \<Rightarrow> step_service" where
  "step_service_of conf st = \<lparr>ss_template = sc_Template conf,
     ss_annotations = AList.update stepAnnotation (st_Name st) (sc_Annotations conf),
     ss_values = sc_Values conf\<rparr>"

definition Run_step :: "env \<Rightarrow> ctx \<Rightarrow> step_config \<Rightarrow> kstate \<Rightarrow> (step_report \<times> go_error option) \<times> kstate" where
  "Run_step E c conf = (\<lambda>(svc, tr).
     let (t, tr) = now E tr; report = empty_step_report\<lparr>sr_StartedAt := t\<rparr> in
     (case sc_Step conf of
        None \<Rightarrow> step_finishReport E report (Some (Sentinel ErrNilStep)) (svc, tr)
      | Some st \<Rightarrow>
          let report = report\<lparr>sr_Name := st_Name st, sr_Description := st_Description st,
                sr_Optional := st_Optional st, sr_Total := CountActions st\<rparr> in
          (case service_run E c (step_service_of conf st) (Some st) (sc_Objects conf) (svc, tr) of
             ((actions, err), (svc, tr)) \<Rightarrow>
               let report = report\<lparr>sr_Actions := actions, sr_Passed := fst (countActions actions),
                     sr_Failed := snd (countActions actions), sr_Stats := objectStats actions\<rparr> in
               (case err of
                  Some e \<Rightarrow>
                    if st_Optional st then
                      let (t, tr) = now E tr in
                      ((report\<lparr>sr_FinishedAt := t, sr_State := StateSkipped, sr_Reason := err_text e\<rparr>, None), (svc, tr))
                    else step_finishReport E report (Some (wrap (msg [''run step '', go_quote (st_Name st)]) e)) (svc, tr)
                | None \<Rightarrow> step_finishReport E report None (svc, tr)))))"

section \<open>The step as a script\<close>

datatype act_item =
    IEnsure ensure_action | IPatch patch_action | IWait wait_action | IAssert assert_action
  | ILogs logs_action | IExec exec_action | IDelete delete_action

fun item_name :: "act_item \<Rightarrow> action_name" where
  "item_name (IEnsure a) = NameEnsure"
| "item_name (IPatch a) = NamePatch"
| "item_name (IWait a) = NameWait"
| "item_name (IAssert a) = NameAssert"
| "item_name (ILogs a) = NameLogs"
| "item_name (IExec a) = NameExec"
| "item_name (IDelete a) = NameDelete"

fun run_item :: "env \<Rightarrow> ctx \<Rightarrow> step_service \<Rightarrow> strmap \<Rightarrow> act_item \<Rightarrow> kstate \<Rightarrow> (action_report \<times> go_error option) \<times> kstate" where
  "run_item E c s objects (IEnsure a) = runEnsure E c s objects a"
| "run_item E c s objects (IPatch a) = runPatch E c s objects a"
| "run_item E c s objects (IWait a) = runWait E c s objects a"
| "run_item E c s objects (IAssert a) = runAssert E c s objects a"
| "run_item E c s objects (ILogs a) = runLogs E c s objects a"
| "run_item E c s objects (IExec a) = runExec E c s objects a"
| "run_item E c s objects (IDelete a) = runDelete E c s objects a"

definition opt_item :: "('a \<Rightarrow> act_item) \<Rightarrow> 'a option \<Rightarrow> act_item list" where
  "opt_item con x = (case x of None \<Rightarrow> [] | Some a \<Rightarrow> [con a])"

definition script :: "step \<Rightarrow> act_item list" where
  "script st = opt_item IEnsure (st_Ensure st) @ opt_item IPatch (st_Patch st) @
     opt_item IWait (st_Wait st) @ opt_item IAssert (st_Assert st) @ opt_item ILogs (st_Logs st) @
     opt_item IExec (st_Exec st) @ opt_item IDelete (st_Delete st)"

section \<open>Contracts of the reports\<close>

interpretation actions: tally ar_State "{StatePassed}" countActions
  by unfold_locales (auto simp: countActions_def case_prod_beta split: run_state.splits)

interpretation astats: stats_total action_stats objectStats
  by unfold_locales
    (auto simp: objectStats_def action_stats_def Add_def no_stats_def split: action_name.splits)

lemma failedActionReport_matches:
  "report_matches name (fst (failedActionReport E name tgt e s))"
  by (cases s) (simp add: failedActionReport_def report_matches_def Let_def case_prod_beta)

lemma run_item_matches: "report_matches (item_name a) (fst (run_item E c s objects a k))"
  by (cases a)
    (auto simp: runEnsure_def runPatch_def runWait_def runAssert_def runLogs_def runExec_def runDelete_def
      RunEnsure_def RunPatch_def RunWait_def RunAssert_def RunLogs_def RunExec_def RunDelete_def Let_def
      failedActionReport_matches run_action_matches split: sum.splits)

text \<open>What a step knows of one action: the name, the state and, after a failure, the reason.\<close>

interpretation items: sequencer "run_item E c s objects"
  "\<lambda>a r. ar_Action r = item_name a \<and> ar_State r = StatePassed"
  "\<lambda>a r e. ar_Action r = item_name a \<and> ar_State r = StateFailed \<and> ar_Reason r = err_text e"
proof (unfold_locales, goal_cases)
  case (1 a k r k')
  then show ?case using run_item_matches [of a E c s objects k] by (simp add: report_matches_def)
next
  case (2 a k r e k')
  then show ?case using run_item_matches [of a E c s objects k] by (simp add: report_matches_def)
qed

section \<open>The branches refine the script\<close>

lemma branch_failed [simp]: "branch act f ((rs, Some e), k) = ((rs, Some e), k)"
  by (simp add: branch_def)

lemma branch_seq:
  assumes "\<And>a k. f a k = g (con a) k"
  shows "branch act f (run_seq g xs k) = run_seq g (xs @ opt_item con act) k"
proof -
  obtain rs err k' where x: "run_seq g xs k = ((rs, err), k')" by (metis surj_pair)
  show ?thesis
    by (cases act; cases err)
      (auto simp: x branch_def opt_item_def run_seq_append assms appendActionReport_def
        split: prod.splits option.splits)
qed

lemma service_run_script:
  "service_run E c s (Some st) objects k = run_seq (run_item E c s objects) (script st) k"
proof -
  have start: "(([], None), k) = run_seq (run_item E c s objects) [] k" by simp
  show ?thesis
    unfolding service_run_def Let_def option.case script_def start
    by (subst branch_seq [where g = "run_item E c s objects" and con = IEnsure], simp)+
      (simp add: branch_seq [where g = "run_item E c s objects" and con = IPatch]
        branch_seq [where g = "run_item E c s objects" and con = IWait]
        branch_seq [where g = "run_item E c s objects" and con = IAssert]
        branch_seq [where g = "run_item E c s objects" and con = ILogs]
        branch_seq [where g = "run_item E c s objects" and con = IExec]
        branch_seq [where g = "run_item E c s objects" and con = IDelete] del: run_seq.simps)
qed

lemma length_script: "length (script st) = CountActions st"
  by (auto simp: script_def CountActions_def opt_item_def one_if_def split: option.splits)

section \<open>What the report of a step says\<close>

text \<open>
  The specification of a step: the actions of its report are the first ones of its script, all
  passed, or all but the last one, which failed with the error of the step; an optional step
  turns that failure into a skip.
\<close>

definition all_done :: "act_item list \<Rightarrow> action_report list \<Rightarrow> bool" where
  "all_done items reports =
     list_all2 (\<lambda>a r. ar_Action r = item_name a \<and> ar_State r = StatePassed) items reports"

definition stopped_at :: "act_item list \<Rightarrow> action_report list \<Rightarrow> go_error \<Rightarrow> bool" where
  "stopped_at items reports e =
     (\<exists>pre a post rpre r. items = pre @ a # post \<and> reports = rpre @ [r] \<and> all_done pre rpre \<and>
        ar_Action r = item_name a \<and> ar_State r = StateFailed \<and> ar_Reason r = err_text e)"

definition step_outcome :: "step \<Rightarrow> step_report \<times> go_error option \<Rightarrow> bool" where
  "step_outcome st res =
     (let r = fst res; err = snd res in
      sr_Name r = st_Name st \<and> sr_Total r = CountActions st \<and>
      (sr_Passed r, sr_Failed r) = countActions (sr_Actions r) \<and> sr_Stats r = objectStats (sr_Actions r) \<and>
      ((err = None \<and> sr_State r = StatePassed \<and> all_done (script st) (sr_Actions r)) \<or>
       (\<exists>e. stopped_at (script st) (sr_Actions r) e \<and>
          (if st_Optional st then err = None \<and> sr_State r = StateSkipped \<and> sr_Reason r = err_text e
           else err = Some (wrap (msg [''run step '', go_quote (st_Name st)]) e) \<and> sr_State r = StateFailed))))"

lemma service_run_outcome:
  assumes "service_run E c s (Some st) objects k = ((reports, err), k')"
  shows "(err = None \<and> all_done (script st) reports) \<or> (\<exists>e. err = Some e \<and> stopped_at (script st) reports e)"
  using items.seq_shape [OF assms [unfolded service_run_script]]
  unfolding all_done_def stopped_at_def by blast

lemma step_finish_parts:
  "fst (fst (step_finishReport E r err s)) =
     (let r' = r\<lparr>sr_FinishedAt := env_now E (snd s), sr_Duration := env_now E (snd s) - sr_StartedAt r\<rparr> in
      case err of Some e \<Rightarrow> r'\<lparr>sr_State := StateFailed, sr_Reason := err_text e\<rparr>
                | None \<Rightarrow> r'\<lparr>sr_State := StatePassed\<rparr>)"
  "snd (fst (step_finishReport E r err s)) = err"
  "snd (step_finishReport E r err s) = (fst s, snd s @ [EvNow (env_now E (snd s))])"
  by (cases s; auto simp: step_finishReport_def Let_def case_prod_beta split: option.split)+

text \<open>The state a step leaves behind is that of its actions, two clock readings apart.\<close>

lemma Run_step_state:
  assumes "sc_Step conf = Some st"
  shows "snd (Run_step E c conf (sv, tr)) =
    (let k = snd (service_run E c (step_service_of conf st) (Some st) (sc_Objects conf)
               (sv, tr @ [EvNow (env_now E tr)])) in
     (fst k, snd k @ [EvNow (env_now E (snd k))]))"
  by (auto simp: Run_step_def assms Let_def case_prod_beta step_finish_parts split: option.split)

lemma Run_step_outcome:
  assumes "sc_Step conf = Some st"
  shows "step_outcome st (fst (Run_step E c conf (sv, tr)))"
proof -
  obtain reports err k where run: "service_run E c (step_service_of conf st) (Some st) (sc_Objects conf)
      (sv, tr @ [EvNow (env_now E tr)]) = ((reports, err), k)" by (metis surj_pair)
  from service_run_outcome [OF run] show ?thesis
    by (cases err)
      (auto simp: Run_step_def step_outcome_def assms run empty_step_report_def Let_def case_prod_beta
        step_finish_parts)
qed

lemma Run_step_nil:
  assumes "sc_Step conf = None"
  shows "snd (fst (Run_step E c conf (sv, tr))) = Some (Sentinel ErrNilStep)"
    and "sr_State (fst (fst (Run_step E c conf (sv, tr)))) = StateFailed"
  by (simp_all add: Run_step_def assms Let_def case_prod_beta step_finish_parts)

lemma Run_step_states:
  "snd (fst (Run_step E c conf s)) = None \<Longrightarrow>
     sr_State (fst (fst (Run_step E c conf s))) \<in> {StatePassed, StateSkipped}"
  "snd (fst (Run_step E c conf s)) = Some e \<Longrightarrow> sr_State (fst (fst (Run_step E c conf s))) = StateFailed"
proof -
  obtain sv tr where s: "s = (sv, tr)" by (cases s)
  show "snd (fst (Run_step E c conf s)) = None \<Longrightarrow>
     sr_State (fst (fst (Run_step E c conf s))) \<in> {StatePassed, StateSkipped}"
    using Run_step_outcome [of conf _ E c sv tr] Run_step_nil [of conf E c sv tr]
    by (cases "sc_Step conf") (auto simp: s step_outcome_def Let_def split: if_splits)
  show "snd (fst (Run_step E c conf s)) = Some e \<Longrightarrow> sr_State (fst (fst (Run_step E c conf s))) = StateFailed"
    using Run_step_outcome [of conf _ E c sv tr] Run_step_nil [of conf E c sv tr]
    by (cases "sc_Step conf") (auto simp: s step_outcome_def Let_def split: if_splits)
qed

section \<open>Dry run and the guarantee of a step\<close>

lemma failedActionReport_state:
  "snd (failedActionReport E name tgt e s) = (fst s, snd s @ [EvNow (env_now E (snd s))])"
  by (cases s) (simp add: failedActionReport_def Let_def case_prod_beta)

lemma run_item_quiet:
  assumes "svc_dryRun (fst k)"
  shows "quiet k (snd (run_item E c s objects a k))"
  using assms quiet_event [of "EvNow (env_now E (snd k))" "fst k" "snd k"]
  by (cases a) (auto simp: runEnsure_def runPatch_def runWait_def runAssert_def runLogs_def runExec_def
      runDelete_def Let_def failedActionReport_state Run_quiet split: sum.splits)

lemma run_seq_quiet:
  assumes "svc_dryRun (fst k)" and "\<And>a k. svc_dryRun (fst k) \<Longrightarrow> quiet k (snd (f a k))"
  shows "quiet k (snd (run_seq f items k))"
proof -
  have "reflp (\<lambda>s s'. svc_dryRun (fst s) \<longrightarrow> quiet s s')" by (simp add: reflp_def)
  moreover have "transp (\<lambda>s s'. svc_dryRun (fst s) \<longrightarrow> quiet s s')"
    by (auto intro!: transpI dest: quiet_dry intro: quiet_trans)
  ultimately have "svc_dryRun (fst k) \<longrightarrow> quiet k (snd (run_seq f items k))"
    by (rule run_seq_relates) (use assms(2) in blast)
  with assms(1) show ?thesis by blast
qed

lemma Run_step_quiet:
  assumes "svc_dryRun (fst k)"
  shows "quiet k (snd (Run_step E c conf k))"
proof (cases "sc_Step conf")
  case None
  have "quiet (sv, tr) (sv, tr @ [EvNow t, EvNow t'])" for sv tr t t'
    by (auto simp: quiet_def)
  with None show ?thesis
    by (cases k) (simp add: Run_step_def Let_def case_prod_beta step_finish_parts)
next
  case (Some st)
  obtain sv tr where k: "k = (sv, tr)" by (cases k)
  let ?k1 = "(sv, tr @ [EvNow (env_now E tr)])"
  let ?k2 = "snd (service_run E c (step_service_of conf st) (Some st) (sc_Objects conf) ?k1)"
  have "quiet k ?k1" by (simp add: k)
  also have "quiet ?k1 ?k2"
    unfolding service_run_script
    by (rule run_seq_quiet) (use assms k run_item_quiet in auto)
  also have "quiet ?k2 (fst ?k2, snd ?k2 @ [EvNow (env_now E (snd ?k2))])"
    using quiet_event [of _ "fst ?k2" "snd ?k2"] by simp
  finally show ?thesis by (simp add: k Run_step_state [OF Some] Let_def)
qed

context kube_env
begin

lemma run_item_evolves: "evolves k (snd (run_item E c s objects a k))"
  using evolves_inert1 [of "EvNow (env_now E (snd k))" "fst k" "snd k"]
  by (cases a) (auto simp: runEnsure_def runPatch_def runWait_def runAssert_def runLogs_def runExec_def
      runDelete_def Let_def failedActionReport_state action_evolves split: sum.splits)

lemma Run_step_evolves: "evolves k (snd (Run_step E c conf k))"
proof (cases "sc_Step conf")
  case None
  have "evolves (sv, tr) (sv, tr @ [EvNow t, EvNow t'])" for sv tr t t'
    by (rule evolves_inert) simp
  with None show ?thesis
    by (cases k) (simp add: Run_step_def Let_def case_prod_beta step_finish_parts)
next
  case (Some st)
  obtain sv tr where k: "k = (sv, tr)" by (cases k)
  let ?k1 = "(sv, tr @ [EvNow (env_now E tr)])"
  let ?k2 = "snd (service_run E c (step_service_of conf st) (Some st) (sc_Objects conf) ?k1)"
  have "evolves k ?k1" by (simp add: k evolves_inert1)
  also have "evolves ?k1 ?k2"
    unfolding service_run_script
    by (rule run_seq_relates) (simp_all add: run_item_evolves)
  also have "evolves ?k2 (fst ?k2, snd ?k2 @ [EvNow (env_now E (snd ?k2))])"
    using evolves_inert1 [of _ "fst ?k2" "snd ?k2"] by simp
  finally show ?thesis by (simp add: k Run_step_state [OF Some] Let_def)
qed

end

end
