(* ===== verification/Kube_Cleanup.thy ===== *)
theory Kube_Cleanup
  imports Kube_Wait
begin

text \<open>
  What a successful \<^verbatim>\<open>Cleanup\<close> of \<^verbatim>\<open>src/internal/kube/service.go\<close> means: the applied cache is
  empty and a delete request was sent for every object that was in it. The proof rests on the
  soundness of the cache (\<open>cache_ok\<close>), and on the API server not changing its mind on the scope
  of a kind during the run (\<open>steady\<close>).
\<close>

section \<open>Steady histories\<close>

text \<open>
  A kind has one scope in the history, and looking a kind up never failed with a context error
  (\<^verbatim>\<open>RESTMapping\<close> is given no context).
\<close>

definition steady :: "ev list \<Rightarrow> bool" where
  "steady tr =
     ((\<forall>g a b. EvMapping g (Inr a) \<in> set tr \<longrightarrow> EvMapping g (Inr b) \<in> set tr \<longrightarrow> a = b) \<and>
      (\<forall>g e. EvMapping g (Inl e) \<in> set tr \<longrightarrow> \<not> ctx_error e))"

text \<open>An executable sufficient test, for concrete histories.\<close>

fun mapping_of :: "ev \<Rightarrow> (gvk \<times> bool) list" where
  "mapping_of (EvMapping g (Inr b)) = [(g, b)]"
| "mapping_of x = []"

fun mapping_err :: "ev \<Rightarrow> go_error list" where
  "mapping_err (EvMapping g (Inl e)) = [e]"
| "mapping_err x = []"

definition steady_test :: "ev list \<Rightarrow> bool" where
  "steady_test tr =
     (list_all (\<lambda>(g, b). list_all (\<lambda>(g', b'). g' = g \<longrightarrow> b' = b) (concat (map mapping_of tr)))
        (concat (map mapping_of tr)) \<and>
      list_all (\<lambda>e. \<not> ctx_error e) (concat (map mapping_err tr)))"

lemma steady_code [simp]: "steady_test tr \<Longrightarrow> steady tr"
  unfolding steady_def
proof (intro conjI allI impI)
  fix g a b assume t: "steady_test tr" and "EvMapping g (Inr a) \<in> set tr" and "EvMapping g (Inr b) \<in> set tr"
  then have "(g, a) \<in> set (concat (map mapping_of tr))" "(g, b) \<in> set (concat (map mapping_of tr))"
    by (force intro: bexI [of _ "EvMapping g (Inr _)"])+
  with t show "a = b" unfolding steady_test_def list_all_iff by fast
next
  fix g e assume t: "steady_test tr" and "EvMapping g (Inl e) \<in> set tr"
  then have "e \<in> set (concat (map mapping_err tr))" by force
  with t show "\<not> ctx_error e" unfolding steady_test_def list_all_iff by fast
qed

lemma steady_append: "steady (xs @ ys) \<Longrightarrow> steady xs"
  by (auto simp: steady_def)

section \<open>Requests for a key\<close>

text \<open>
  A delete request for the key was sent and answered: deleted, already gone, or cut off by the
  end of the context.
\<close>

fun answered_for :: "ctx \<Rightarrow> string \<Rightarrow> ev \<Rightarrow> bool" where
  "answered_for c k (EvDelete c' obj q) =
     (c' = c \<and> appliedKey obj = k \<and>
      (case q of None \<Rightarrow> True | Some e \<Rightarrow> is_reason NotFound e \<or> ctx_error e))"
| "answered_for c k x = False"

definition requested :: "ctx \<Rightarrow> string \<Rightarrow> ev list \<Rightarrow> bool" where
  "requested c k evs = list_ex (answered_for c k) evs"

lemma requested_mono: "set xs \<subseteq> set ys \<Longrightarrow> requested c k xs \<Longrightarrow> requested c k ys"
  by (auto simp: requested_def list_ex_iff)

section \<open>One delete attempt\<close>

lemma delete_attempt_cases:
  assumes "delete_attempt E c (obj, sv, tr) = (r, (obj', sv', tr'))"
  obtains (no_gvk) p where "r = Some (wrap p (Sentinel ErrObjectNoGVK))" "obj' = obj" "sv' = sv" "tr' = tr"
  | (unmapped) p q e where "r = Some (wrap p (wrap q e))" "obj' = obj" "sv' = sv"
      "tr' = tr @ [EvMapping (o_gvk obj) (Inl e)]"
  | (sent) nsd q where "tr' = tr @ [EvMapping (o_gvk obj) (Inr nsd), EvDelete c obj' q]"
      "sv' = sv\<lparr>svc_applied := Delete_key (svc_applied sv) (appliedKey obj')\<rparr>"
      "obj' = (if nsd \<and> o_namespace obj = [] then obj\<lparr>o_namespace := svc_namespace sv\<rparr> else obj)"
      "r = (case q of None \<Rightarrow> None | Some e \<Rightarrow> if is_reason NotFound e then None else Some e)"
proof -
  obtain r1 obj1 sv1 tr1 where ns: "setNamespace E (obj, sv, tr) = (r1, (obj1, sv1, tr1))"
    by (metis surj_pair)
  from ns show ?thesis
  proof (cases rule: setNamespace_cases)
    case no_gvk
    with ns assms that(1) show ?thesis by (auto simp: delete_attempt_def)
  next
    case (unmapped e p)
    with ns assms that(2) show ?thesis by (auto simp: delete_attempt_def)
  next
    case (mapped nsd)
    let ?q = "env_delete E tr1 c obj1"
    have st: "obj' = obj1" "sv' = sv\<lparr>svc_applied := Delete_key (svc_applied sv) (appliedKey obj1)\<rparr>"
      "tr' = tr1 @ [EvDelete c obj1 ?q]"
      "r = (case ?q of None \<Rightarrow> None | Some e \<Rightarrow> if is_reason NotFound e then None else Some e)"
      using ns mapped assms by (auto simp: delete_attempt_def Let_def split: option.splits if_splits)
    with mapped that(3) [of nsd ?q] show ?thesis by simp
  qed
qed

text \<open>
  What holds between the attempts of one \<^verbatim>\<open>Delete\<close>: the object is the given one, or was given
  the namespace of the service because its kind is namespaced.
\<close>

definition deleting :: "kobj \<Rightarrow> service \<Rightarrow> ev list \<Rightarrow> ostate \<Rightarrow> bool" where
  "deleting obj0 sv0 tr0 = (\<lambda>(obj, sv, tr).
     (obj = obj0 \<or> (o_namespace obj0 = [] \<and> obj = obj0\<lparr>o_namespace := svc_namespace sv0\<rparr> \<and>
        EvMapping (o_gvk obj0) (Inr True) \<in> set tr)) \<and>
     same_config sv0 sv \<and> keys (svc_applied sv) \<subseteq> keys (svc_applied sv0) \<and> (\<exists>sfx. tr = tr0 @ sfx))"

lemma deleting_start: "deleting obj sv tr (obj, sv, tr)"
  by (simp add: deleting_def)

lemma deleting_idle: "deleting obj0 sv0 tr0 s \<Longrightarrow> idle_obj s s' \<Longrightarrow> deleting obj0 sv0 tr0 s'"
  by (cases s; cases s') (auto simp: deleting_def idle_obj_def idle_tr_def)

lemma deleting_attempt:
  assumes "deleting obj0 sv0 tr0 s"
  shows "deleting obj0 sv0 tr0 (snd (delete_attempt E c s))"
proof -
  obtain obj sv tr where s: "s = (obj, sv, tr)" by (cases s)
  obtain r obj' sv' tr' where d: "delete_attempt E c (obj, sv, tr) = (r, (obj', sv', tr'))" by (metis surj_pair)
  from d have "deleting obj0 sv0 tr0 (obj', sv', tr')"
  proof (cases rule: delete_attempt_cases)
    case no_gvk
    with assms s show ?thesis by simp
  next
    case unmapped
    with assms s show ?thesis by (auto simp: deleting_def)
  next
    case sent
    with assms s show ?thesis
      by (auto simp: deleting_def same_config_def safe.keys_del split: if_splits)
  qed
  with s d show ?thesis by simp
qed

text \<open>
  In a steady history the attempt that ended without a lasting error sent the request for the
  recorded key and dropped the key.
\<close>

lemma delete_attempt_clean:
  assumes del: "deleting obj0 sv0 tr0 (obj, sv, tr)"
    and att: "delete_attempt E c (obj, sv, tr) = (r, (obj', sv', tr'))"
    and res: "r = None \<or> (\<exists>e. r = Some e \<and> ctx_error e)"
    and entry: "entry_ok (svc_namespace sv0) tr0 k obj0" and ns: "svc_namespace sv0 \<noteq> []"
    and st: "steady tr'"
  shows "k \<notin> keys (svc_applied sv') \<and>
    requested c k (drop (length tr0) tr')"
  using att
proof (cases rule: delete_attempt_cases)
  case no_gvk
  with res show ?thesis by auto
next
  case (unmapped p q e)
  with res st show ?thesis by (auto simp: steady_def)
next
  case (sent nsd q)
  have grows: "\<exists>sfx. tr = tr0 @ sfx" using del by (simp add: deleting_def)
  have scoped: "EvMapping (o_gvk obj) (Inr nsd) \<in> set tr'" using sent by simp
  have unchanged: "obj' = obj0"
  proof (cases "o_namespace obj0 = []")
    case True
    then have "EvMapping (o_gvk obj0) (Inr False) \<in> set tr'"
      using entry ns grows sent(1) by (auto simp: entry_ok_def)
    then have "EvMapping (o_gvk obj0) (Inr True) \<notin> set tr'" using st by (auto simp: steady_def)
    then show ?thesis using del sent scoped by (auto simp: deleting_def)
  next
    case False
    then show ?thesis using del sent by (auto simp: deleting_def)
  qed
  then show ?thesis
    using sent res entry grows
    by (auto simp: safe.keys_del entry_ok_def requested_def split: option.splits if_splits)
qed

section \<open>Delete and Cleanup\<close>

context kube_env
begin

lemma Delete_keys:
  assumes "Delete E c (Some obj) [] (sv, tr) = (r, (sv', tr'))"
  shows "keys (svc_applied sv') \<subseteq> keys (svc_applied sv)"
proof (cases "svc_dryRun sv")
  case True
  with assms show ?thesis by (simp add: Delete_def)
next
  case False
  define D where "D = env_on_error E (retryBackoff 1 0) retryAlways
    (env_on_error E (env_DefaultBackoff E) (is_reason ServerTimeout)
      (env_on_error E (env_DefaultBackoff E) (is_reason ServiceUnavailable) (delete_attempt E c))) (obj, sv, tr)"
  have "deleting obj sv tr (snd D)"
    unfolding D_def
    by (rule objs.on_error_invariant, rule deleting_start, rule objs.on_error_invariant, assumption,
        rule objs.on_error_invariant, assumption)
      (auto intro: deleting_attempt deleting_idle)
  with False assms show ?thesis
    by (auto simp: Delete_def Let_def new_delete_options_def D_def [symmetric] deleting_def
        split: prod.splits option.splits)
qed

lemma Delete_clean:
  assumes d: "Delete E c (Some obj) [] (sv, tr) = (None, (sv', tr'))" and live: "\<not> svc_dryRun sv"
    and entry: "entry_ok (svc_namespace sv) tr k obj" and ns: "svc_namespace sv \<noteq> []" and st: "steady tr'"
  shows "k \<notin> keys (svc_applied sv') \<and>
    requested c k (drop (length tr) tr')"
proof -
  let ?f = "delete_attempt E c"
  let ?loop = "env_on_error E (retryBackoff 1 0) (\<lambda>_. True)
    (env_on_error E (env_DefaultBackoff E) (is_reason ServerTimeout)
      (env_on_error E (env_DefaultBackoff E) (is_reason ServiceUnavailable) ?f)) (obj, sv, tr)"
  have run: "\<exists>obj'. ?loop = (None, (obj', sv', tr'))"
    using d live
    by (auto simp: Delete_def Let_def new_delete_options_def retryAlways_fun split: prod.splits option.splits)
  have "0 < bo_steps (retryBackoff 1 0)" by simp
  then have "\<exists>s1. deleting obj sv tr s1 \<and> snd (?f s1) = snd ?loop \<and>
      (fst (?f s1) = fst ?loop \<or> (\<exists>e. fst (?f s1) = Some e \<and> ctx_error e))"
    using deleting_start deleting_attempt deleting_idle by (rule on_error3_last)
  then obtain s1 where s1: "deleting obj sv tr s1" "snd (?f s1) = snd ?loop"
      "fst (?f s1) = fst ?loop \<or> (\<exists>e. fst (?f s1) = Some e \<and> ctx_error e)"
    by auto
  obtain obj1 sv1 tr1 where s1': "s1 = (obj1, sv1, tr1)" by (cases s1)
  obtain r obj' where att: "?f (obj1, sv1, tr1) = (r, (obj', sv', tr'))"
    "r = None \<or> (\<exists>e. r = Some e \<and> ctx_error e)"
    using run s1(2,3) s1' by (cases "?f (obj1, sv1, tr1)") auto
  show ?thesis
    using delete_attempt_clean [OF s1(1) [unfolded s1'] att entry ns st] by blast
qed

lemma cleanup_loop_clean:
  assumes "cleanup_loop E c entries (sv, tr) = (errs, (sv', tr'))" and "\<forall>x \<in> set errs. x = None"
    and "\<not> svc_dryRun sv" and "svc_namespace sv \<noteq> []" and "steady tr'"
    and "\<forall>(k, obj) \<in> set entries. entry_ok (svc_namespace sv) tr k obj"
  shows "keys (svc_applied sv') \<subseteq> keys (svc_applied sv) - fst ` set entries \<and>
    (\<forall>(k, obj) \<in> set entries. requested c k (drop (length tr) tr'))"
  using assms
proof (induction entries arbitrary: sv tr errs)
  case Nil
  then show ?case by simp
next
  case (Cons a entries)
  obtain k obj where a: "a = (k, obj)" by (cases a)
  obtain r sv1 tr1 where d: "Delete E c (Some obj) [] (sv, tr) = (r, (sv1, tr1))" by (metis surj_pair)
  obtain errs1 where rest: "cleanup_loop E c entries (sv1, tr1) = (errs1, (sv', tr'))"
      and errs: "errs = map_option (wrap (msg [''delete the applied object '', sq (o_name obj)])) r # errs1"
    using Cons.prems(1) a d by (auto split: prod.splits)
  have ev: "evolves (sv, tr) (sv1, tr1)" "evolves (sv1, tr1) (sv', tr')"
    using Delete_evolves [of "(sv, tr)" c "Some obj" "[]"] d
      cleanup_loop_evolves [of "(sv1, tr1)" c entries] rest by auto
  then obtain x y where grow: "tr1 = tr @ x" "tr' = tr1 @ y" by (auto simp: evolves_def)
  have r: "r = None" using Cons.prems(2) errs by simp
  have cfg: "same_config sv sv1" using ev by (simp add: evolves_def)
  have here: "k \<notin> keys (svc_applied sv1) \<and>
      requested c k (drop (length tr) tr1)"
  proof (rule Delete_clean [OF d [unfolded r]])
    show "steady tr1" using Cons.prems(5) grow(2) by (auto intro: steady_append)
    show "entry_ok (svc_namespace sv) tr k obj" using Cons.prems(6) a by simp
  qed (use Cons.prems in auto)
  have later: "keys (svc_applied sv') \<subseteq> keys (svc_applied sv1) - fst ` set entries \<and>
      (\<forall>(k, obj) \<in> set entries. requested c k (drop (length tr1) tr'))"
    using rest
  proof (rule Cons.IH)
    show "\<forall>(k, obj) \<in> set entries. entry_ok (svc_namespace sv1) tr1 k obj"
      using Cons.prems(6) cfg grow(1) by (auto simp: same_config_def intro: entry_ok_mono)
  qed (use Cons.prems errs cfg in \<open>auto simp: same_config_def\<close>)
  have sub: "keys (svc_applied sv1) \<subseteq> keys (svc_applied sv)" using d by (rule Delete_keys)
  show ?case
  proof (intro conjI)
    show "keys (svc_applied sv') \<subseteq> keys (svc_applied sv) - fst ` set (a # entries)"
      using here later sub a by auto
    have d1: "set (drop (length tr) tr1) \<subseteq> set (drop (length tr) tr')"
      "set (drop (length tr1) tr') \<subseteq> set (drop (length tr) tr')"
      using grow by auto
    show "\<forall>(k, obj) \<in> set (a # entries). requested c k (drop (length tr) tr')"
      using here later d1 a by (auto intro: requested_mono)
  qed
qed

lemma Cleanup_clean:
  assumes "Cleanup E c (sv, tr) = (None, (sv', tr'))" and "\<not> svc_dryRun sv" and "svc_namespace sv \<noteq> []"
    and "steady tr'" and "cache_ok (sv, tr)"
  shows "keys (svc_applied sv') = {}"
    and "\<And>k. k \<in> keys (svc_applied sv) \<Longrightarrow>
      requested c k (drop (length tr) tr')"
proof -
  let ?entries = "Iter (env_order E tr) (svc_applied sv)"
  obtain errs where loop: "cleanup_loop E c ?entries (sv, tr) = (errs, (sv', tr'))" "errors_join errs = None"
    using assms(1,2) by (auto simp: Cleanup_def split: prod.splits)
  have ent: "set ?entries = set (svc_applied sv)" by (simp add: Iter_def order_set)
  have "keys (svc_applied sv') \<subseteq> keys (svc_applied sv) - fst ` set ?entries \<and>
    (\<forall>(k, obj) \<in> set ?entries. requested c k (drop (length tr) tr'))"
    using loop(1)
  proof (rule cleanup_loop_clean)
    show "\<forall>x \<in> set errs. x = None" using loop(2) by (simp add: errors_join_None_iff)
    show "\<forall>(k, obj) \<in> set ?entries. entry_ok (svc_namespace sv) tr k obj"
      using assms(5) by (simp add: ent cache_ok_def)
  qed (use assms in auto)
  then show "keys (svc_applied sv') = {}"
    and "\<And>k. k \<in> keys (svc_applied sv) \<Longrightarrow>
      requested c k (drop (length tr) tr')"
    by (fastforce simp: ent keys_def)+
qed

end

end
