(* ===== verification/Suite.thy ===== *)
theory Suite
  imports Steps Kube_Cleanup
begin

text \<open>
  Cases (\<^verbatim>\<open>src/internal/engine/suite\<close>): the case file, its report, the steps with their hooks,
  and the deferred cleanup. Reading, decoding and validating a case file is done by libraries:
  they are the record \<open>case_io\<close>. Logging is left out.
\<close>

section \<open>Case files\<close>

definition caseAnnotation :: string where
  "caseAnnotation = ''testing.kube2e.io/case''"

record hooks =
  hk_BeforeEach :: "step option list"
  hk_AfterEach :: "step option list"

record case_file =
  cf_Path :: string
  cf_Version :: string
  cf_Name :: string
  cf_Description :: string
  cf_Tags :: "string list"
  cf_Objects :: strmap
  cf_Hooks :: hooks
  cf_Steps :: "step option list"

record field_error =
  fe_Namespace :: string
  fe_Tag :: string
  fe_Param :: string

record case_io =
  io_read :: "ev list \<Rightarrow> string \<Rightarrow> go_error + string"
  io_unmarshal :: "string \<Rightarrow> go_error + case_file"
  io_validate :: "case_file \<Rightarrow> (go_error + field_error list) option"

definition format_field_error :: "field_error \<Rightarrow> string" where
  "format_field_error e =
     (let field = replace_all ''actionOptions.'' '''' (trim_prefix (fe_Namespace e) ''Case.'') in
      if fe_Tag e = ''required'' then field @ '': required''
      else if fe_Tag e = ''required_without'' then field @ '': required when '' @ fe_Param e @ '' is not set''
      else if fe_Tag e = ''required_with'' then field @ '': required when '' @ fe_Param e @ '' is set''
      else if fe_Tag e = ''excluded_with'' then field @ '': must not be set together with '' @ fe_Param e
      else if fe_Tag e = ''eq'' then field @ '': must equal '' @ fe_Param e
      else if fe_Tag e = ''min'' then field @ '': must have at least '' @ fe_Param e @ '' item(s)''
      else field @ '': '' @ fe_Tag e)"

definition formatValidationErrors :: "field_error list \<Rightarrow> string" where
  "formatValidationErrors errs = join ''; '' (map format_field_error errs)"

definition parseCaseFile :: "case_io \<Rightarrow> ev list \<Rightarrow> string \<Rightarrow> go_error + case_file" where
  "parseCaseFile io tr path =
     (case io_read io tr path of
        Inl e \<Rightarrow> Inl (wrap ''read case file'' e)
      | Inr content \<Rightarrow>
          (case io_unmarshal io content of
             Inl e \<Rightarrow> Inl (wrap ''unmarshal case file'' e)
           | Inr tc \<Rightarrow>
               (case io_validate io tc of
                  Some (Inr verrs) \<Rightarrow> Inl (Opaque (''invalid case: '' @ formatValidationErrors verrs))
                | Some (Inl e) \<Rightarrow> Inl (wrap ''validate case'' e)
                | None \<Rightarrow> Inr (tc\<lparr>cf_Path := path\<rparr>))))"

section \<open>The case report\<close>

record hooks_report =
  hr_BeforeEach :: "step_report list"
  hr_AfterEach :: "step_report list"

record case_report =
  cr_Version :: string
  cr_Path :: string
  cr_Name :: string
  cr_Description :: string
  cr_Tags :: "string list"
  cr_Objects :: strmap
  cr_State :: run_state
  cr_Reason :: string
  cr_StartedAt :: time
  cr_FinishedAt :: time
  cr_Duration :: duration
  cr_Hooks :: "hooks_report option"
  cr_Passed :: nat
  cr_Failed :: nat
  cr_Total :: nat
  cr_Stats :: stats
  cr_Steps :: "step_report list"

definition empty_case_report :: case_report where
  "empty_case_report = \<lparr>cr_Version = [], cr_Path = [], cr_Name = [], cr_Description = [], cr_Tags = [],
     cr_Objects = [], cr_State = StateUnset, cr_Reason = [], cr_StartedAt = 0, cr_FinishedAt = 0,
     cr_Duration = 0, cr_Hooks = None, cr_Passed = 0, cr_Failed = 0, cr_Total = 0, cr_Stats = no_stats,
     cr_Steps = []\<rparr>"

definition skippedStepReport :: "env \<Rightarrow> step option \<Rightarrow> string \<Rightarrow> ev list \<Rightarrow> step_report \<times> ev list" where
  "skippedStepReport E st reason tr =
     (let (t, tr) = now E tr;
          report = empty_step_report\<lparr>sr_StartedAt := t, sr_FinishedAt := t, sr_State := StateSkipped,
            sr_Reason := reason\<rparr> in
      (case st of
         None \<Rightarrow> report
       | Some s \<Rightarrow> report\<lparr>sr_Name := st_Name s, sr_Description := st_Description s,
           sr_Optional := st_Optional s, sr_Total := CountActions s\<rparr>, tr))"

definition appendHooksReport :: "case_report \<Rightarrow> hooks_report \<Rightarrow> case_report" where
  "appendHooksReport report hooks =
     (if length (hr_BeforeEach hooks) = 0 \<and> length (hr_AfterEach hooks) = 0 then report
      else
        let old = (case cr_Hooks report of None \<Rightarrow> \<lparr>hr_BeforeEach = [], hr_AfterEach = []\<rparr> | Some h \<Rightarrow> h) in
        report\<lparr>cr_Hooks := Some \<lparr>hr_BeforeEach = hr_BeforeEach old @ hr_BeforeEach hooks,
                                 hr_AfterEach = hr_AfterEach old @ hr_AfterEach hooks\<rparr>\<rparr>)"

definition countSteps :: "step_report list \<Rightarrow> nat \<times> nat" where
  "countSteps reports = foldl (\<lambda>(passed, failed) report.
     case sr_State report of
       StatePassed \<Rightarrow> (passed + 1, failed)
     | StateSkipped \<Rightarrow> (passed + 1, failed)
     | StateFailed \<Rightarrow> (passed, failed + 1)
     | StateUnset \<Rightarrow> (passed, failed)) (0, 0) reports"

definition stepStats :: "step_report list \<Rightarrow> stats" where
  "stepStats reports = foldl (\<lambda>stats report. Add stats (sr_Stats report)) no_stats reports"

definition caseStats :: "case_report \<Rightarrow> stats" where
  "caseStats report =
     (let stats = stepStats (cr_Steps report) in
      case cr_Hooks report of
        None \<Rightarrow> stats
      | Some h \<Rightarrow>
          let stats = Add stats (stepStats (hr_BeforeEach h)) in
          Add stats (stepStats (hr_AfterEach h)))"

definition case_newReport :: "env \<Rightarrow> case_file option \<Rightarrow> ev list \<Rightarrow> case_report \<times> ev list" where
  "case_newReport E testCase tr =
     (let (t, tr) = now E tr; report = empty_case_report\<lparr>cr_StartedAt := t\<rparr> in
      case testCase of
        None \<Rightarrow> (report, tr)
      | Some tc \<Rightarrow>
          (report\<lparr>cr_Version := cf_Version tc, cr_Path := cf_Path tc, cr_Name := cf_Name tc,
             cr_Description := cf_Description tc, cr_Tags := cf_Tags tc, cr_Objects := cf_Objects tc,
             cr_Total := length (cf_Steps tc)\<rparr>, tr))"

definition case_finishReport :: "env \<Rightarrow> case_report \<Rightarrow> go_error option \<Rightarrow> ev list \<Rightarrow>
    (case_report \<times> go_error option) \<times> ev list" where
  "case_finishReport E report err tr =
     (let (t, tr) = now E tr;
          report = report\<lparr>cr_FinishedAt := t, cr_Duration := t - cr_StartedAt report, cr_Stats := caseStats report\<rparr> in
      case err of
        Some e \<Rightarrow> ((report\<lparr>cr_State := StateFailed, cr_Reason := err_text e\<rparr>, Some e), tr)
      | None \<Rightarrow>
          ((if cr_State report = StateUnset then report\<lparr>cr_State := StatePassed\<rparr> else report, None), tr))"

section \<open>Running the steps of a case\<close>

definition cleanupTimeout :: duration where
  "cleanupTimeout = 30 * 1000000000"

record case_service =
  cv_template :: manager
  cv_annotations :: strmap
  cv_values :: "string store"

definition step_name :: "step option \<Rightarrow> string" where
  "step_name st = (case st of None \<Rightarrow> [] | Some s \<Rightarrow> st_Name s)"

definition runStep :: "env \<Rightarrow> ctx \<Rightarrow> case_service \<Rightarrow> case_file \<Rightarrow> string \<Rightarrow> step option \<Rightarrow> kstate \<Rightarrow>
    (step_report \<times> go_error option) \<times> kstate" where
  "runStep E c s tc phase st k =
     (let conf = \<lparr>sc_Template = cv_template s, sc_Objects = cf_Objects tc, sc_Step = st,
            sc_Annotations = cv_annotations s, sc_Values = cv_values s\<rparr> in
      case Run_step E c conf k of
        ((report, err), k') \<Rightarrow>
          ((report, map_option (wrap (msg [''run the '', phase, '' '', sq (step_name st)])) err), k'))"

fun runSteps_from :: "env \<Rightarrow> ctx \<Rightarrow> case_service \<Rightarrow> case_file \<Rightarrow> string \<Rightarrow> step option list \<Rightarrow>
    step_report list \<Rightarrow> kstate \<Rightarrow> (step_report list \<times> go_error option) \<times> kstate" where
  "runSteps_from E c s tc phase [] reports k = ((reports, None), k)"
| "runSteps_from E c s tc phase (st # steps) reports k =
     (case runStep E c s tc phase st k of
        ((report, err), k') \<Rightarrow>
          let reports = reports @ [report] in
          (case err of
             Some e \<Rightarrow> ((reports, Some e), k')
           | None \<Rightarrow> runSteps_from E c s tc phase steps reports k'))"

definition runSteps :: "env \<Rightarrow> ctx \<Rightarrow> case_service \<Rightarrow> case_file \<Rightarrow> step option list \<Rightarrow> string \<Rightarrow> kstate \<Rightarrow>
    (step_report list \<times> go_error option) \<times> kstate" where
  "runSteps E c s tc steps phase k = runSteps_from E c s tc phase steps [] k"

definition runStepWithHooks :: "env \<Rightarrow> ctx \<Rightarrow> case_service \<Rightarrow> case_file \<Rightarrow> step option \<Rightarrow> kstate \<Rightarrow>
    (step_report \<times> hooks_report \<times> go_error option) \<times> kstate" where
  "runStepWithHooks E c s tc caseStep k =
     (case runSteps E c s tc (hk_BeforeEach (cf_Hooks tc)) ''before hook'' k of
        ((beforeReports, err), k) \<Rightarrow>
          (case (case err of
                   Some e \<Rightarrow>
                     (case skippedStepReport E caseStep (''before hook failed: '' @ err_text e) (snd k) of
                        (report, tr) \<Rightarrow> ((report, errors_join [None, Some e]), (fst k, tr)))
                 | None \<Rightarrow>
                     (case runStep E c s tc ''step'' caseStep k of
                        ((report, err), k) \<Rightarrow>
                          ((report, if err \<noteq> None then errors_join [None, err] else None), k))) of
             ((stepReport, result), k) \<Rightarrow>
               (case runSteps E c s tc (hk_AfterEach (cf_Hooks tc)) ''after hook'' k of
                  ((afterReports, err), k) \<Rightarrow>
                    ((stepReport, \<lparr>hr_BeforeEach = beforeReports, hr_AfterEach = afterReports\<rparr>,
                      if err \<noteq> None then errors_join [result, err] else result), k))))"

text \<open>The loop of \<^verbatim>\<open>run\<close> over the steps of the case.\<close>

fun case_loop :: "env \<Rightarrow> ctx \<Rightarrow> case_service \<Rightarrow> case_file \<Rightarrow> step option list \<Rightarrow> case_report \<Rightarrow> kstate \<Rightarrow>
    (case_report \<times> go_error option) \<times> kstate" where
  "case_loop E c s tc [] report k = ((report, None), k)"
| "case_loop E c s tc (st # steps) report k =
     (case runStepWithHooks E c s tc st k of
        ((stepReport, hooksReport, stepErr), k') \<Rightarrow>
          let report = appendHooksReport report hooksReport;
              report = report\<lparr>cr_Steps := cr_Steps report @ [stepReport]\<rparr>;
              report = report\<lparr>cr_Passed := fst (countSteps (cr_Steps report)),
                              cr_Failed := snd (countSteps (cr_Steps report))\<rparr> in
          (case stepErr of
             Some e \<Rightarrow> ((report, Some e), k')
           | None \<Rightarrow> case_loop E c s tc steps report k'))"

text \<open>The deferred function of \<^verbatim>\<open>run\<close>: cleanup on a context detached from the run.\<close>

definition deferred_cleanup :: "env \<Rightarrow> ctx \<Rightarrow> go_error option \<Rightarrow> kstate \<Rightarrow> go_error option \<times> kstate" where
  "deferred_cleanup E c err k =
     (let cleanupCtx = WithTimeout (WithoutCancel c) cleanupTimeout in
      case Cleanup E cleanupCtx k of
        (Some cleanupErr, k) \<Rightarrow> (errors_join [err, Some (wrap ''cleanup applied resources'' cleanupErr)], k)
      | (None, k) \<Rightarrow> (err, k))"

definition run_case :: "env \<Rightarrow> ctx \<Rightarrow> case_service \<Rightarrow> case_file option \<Rightarrow> kstate \<Rightarrow>
    (case_report \<times> go_error option) \<times> kstate" where
  "run_case E c s testCase k =
     (case case_newReport E testCase (snd k) of
        (report, tr) \<Rightarrow>
          (case testCase of
             None \<Rightarrow>
               (case case_finishReport E report (Some (Sentinel ErrNilTestCase)) tr of
                  (res, tr) \<Rightarrow> (res, (fst k, tr)))
           | Some tc \<Rightarrow>
               if length (cf_Steps tc) = 0 then ((report, None), (fst k, tr))
               else
                 (case case_loop E c s tc (cf_Steps tc) report (fst k, tr) of
                    ((report, err), k) \<Rightarrow>
                      (case deferred_cleanup E c err k of (err, k) \<Rightarrow> ((report, err), k)))))"

section \<open>Running a case file\<close>

record case_config =
  cc_DryRun :: bool
  cc_ForceConflicts :: bool
  cc_Template :: manager
  cc_Path :: string
  cc_Tags :: "string list"
  cc_Namespace :: string
  cc_Annotations :: strmap

fun anyTagMatches :: "string list \<Rightarrow> string list \<Rightarrow> bool" where
  "anyTagMatches [] reqs = False"
| "anyTagMatches (item # items) reqs =
     (if item \<in> set reqs then True else anyTagMatches items reqs)"

definition kube_options :: "case_config \<Rightarrow> option_fun list" where
  "kube_options conf =
     (if cc_Namespace conf \<noteq> [] then [WithNamespace (cc_Namespace conf)] else []) @
     (if cc_ForceConflicts conf then [WithForceConflicts] else []) @
     (if cc_DryRun conf then [WithDryRun] else [])"

definition namespace_object :: "string \<Rightarrow> kobj" where
  "namespace_object name = \<lparr>o_gvk = \<lparr>gvk_group = [], gvk_version = ''v1'', gvk_kind = ''Namespace''\<rparr>,
     o_name = name, o_namespace = [], o_annotations = [], o_typed = True, o_body = JNull\<rparr>"

definition case_service_of :: "case_config \<Rightarrow> case_file \<Rightarrow> case_service" where
  "case_service_of conf tc = \<lparr>cv_template = cc_Template conf,
     cv_annotations = AList.update caseAnnotation (cf_Name tc) (cc_Annotations conf),
     cv_values = NewStore\<rparr>"

text \<open>The namespace of the run is ensured first and never cached.\<close>

definition ensure_namespace :: "env \<Rightarrow> ctx \<Rightarrow> case_config \<Rightarrow> kstate \<Rightarrow> go_error option \<times> kstate" where
  "ensure_namespace E c conf k =
     (if cc_Namespace conf \<noteq> [] then
        (case Ensure E c (Some (namespace_object (cc_Namespace conf))) [WithEnsureToCache False] k of
           (Some e, k) \<Rightarrow> (Some (wrap (msg [''ensure namespace '', sq (cc_Namespace conf)]) e), k)
         | (None, k) \<Rightarrow> (None, k))
      else (None, k))"

definition Run_case :: "env \<Rightarrow> case_io \<Rightarrow> ctx \<Rightarrow> case_config \<Rightarrow> ev list \<Rightarrow>
    (case_report \<times> go_error option) \<times> ev list" where
  "Run_case E io c conf tr =
     (let (startedAt, tr) = now E tr;
          report = empty_case_report\<lparr>cr_Path := cc_Path conf, cr_StartedAt := startedAt\<rparr> in
      case parseCaseFile io tr (cc_Path conf) of
        Inl e \<Rightarrow> case_finishReport E report (Some (wrap (msg [''parse case file '', sq (cc_Path conf)]) e)) tr
      | Inr tc \<Rightarrow>
          let (report, tr) = case_newReport E (Some tc) tr;
              report = report\<lparr>cr_StartedAt := startedAt\<rparr> in
          if 0 < length (cc_Tags conf) \<and> \<not> anyTagMatches (cf_Tags tc) (cc_Tags conf) then
            let (t, tr) = now E tr in
            ((report\<lparr>cr_FinishedAt := t, cr_State := StateSkipped\<rparr>, None), tr)
          else
            (case New_service E (kube_options conf) of
               Inl e \<Rightarrow> case_finishReport E report (Some (wrap ''create kube service'' e)) tr
             | Inr svc \<Rightarrow>
                 (case ensure_namespace E c conf (svc, tr) of
                    (Some e, (svc, tr)) \<Rightarrow> case_finishReport E report (Some e) tr
                  | (None, k) \<Rightarrow>
                      (case run_case E c (case_service_of conf tc) (Some tc) k of
                         ((runReport, err), (svc, tr)) \<Rightarrow>
                           case_finishReport E (runReport\<lparr>cr_StartedAt := startedAt\<rparr>) err tr))))"

end
