(* ===== verification/Case_Contracts.thy ===== *)
theory Case_Contracts
  imports Suite
begin

text \<open>
  What the case runner promises. The locale \<open>step_closed\<close> lifts a relation on states that a step,
  a cleanup and a clock reading keep to everything a case does; it is interpreted for the dry-run
  guarantee and, inside \<open>kube_env\<close>, for the cache guarantee. The reports of hooks and steps are
  described through the sequencing contract.
\<close>

section \<open>Counting steps\<close>

interpretation steps: tally sr_State "{StatePassed, StateSkipped}" countSteps
  by unfold_locales (auto simp: countSteps_def case_prod_beta split: run_state.splits)

interpretation sstats: stats_total sr_Stats stepStats
  by unfold_locales (simp_all add: stepStats_def)

section \<open>The hook loop is a sequence\<close>

lemma runSteps_from_seq:
  "runSteps_from E c s tc phase sts reports k =
     (case run_seq (runStep E c s tc phase) sts k of ((rs, err), k') \<Rightarrow> ((reports @ rs, err), k'))"
  by (induction sts arbitrary: reports k) (auto split: prod.splits option.splits)

lemma runSteps_seq: "runSteps E c s tc sts phase k = run_seq (runStep E c s tc phase) sts k"
  by (simp add: runSteps_def runSteps_from_seq case_prod_beta)

text \<open>What is true of every step report, whether the step ran or was skipped.\<close>

definition report_sound :: "step_report \<Rightarrow> bool" where
  "report_sound r = (sr_State r \<noteq> StateUnset \<and> sr_Stats r = objectStats (sr_Actions r))"

definition step_good :: "step_report \<Rightarrow> bool" where
  "step_good r = (sr_State r \<in> {StatePassed, StateSkipped})"

lemma Run_step_sound: "report_sound (fst (fst (Run_step E c conf k)))"
proof -
  obtain sv tr where k: "k = (sv, tr)" by (cases k)
  show ?thesis
  proof (cases "sc_Step conf")
    case None
    then show ?thesis
      by (simp add: k report_sound_def Run_step_def Let_def case_prod_beta step_finish_parts
          empty_step_report_def objectStats_def)
  next
    case (Some st)
    then show ?thesis
      using Run_step_outcome [OF Some, of E c sv tr]
      by (auto simp: k report_sound_def step_outcome_def Let_def split: if_splits)
  qed
qed

lemma runStep_parts:
  assumes "runStep E c s tc phase st k = ((r, err), k')"
  shows "report_sound r" and "err = None \<Longrightarrow> step_good r" and "err = Some e \<Longrightarrow> sr_State r = StateFailed"
proof -
  obtain conf where conf: "r = fst (fst (Run_step E c conf k))"
    "err = None \<longleftrightarrow> snd (fst (Run_step E c conf k)) = None"
    using assms by (auto simp: runStep_def Let_def case_prod_beta)
  show "report_sound r" using Run_step_sound conf(1) by simp
  show "err = None \<Longrightarrow> step_good r" using Run_step_states(1) conf by (simp add: step_good_def)
  show "err = Some e \<Longrightarrow> sr_State r = StateFailed"
    using Run_step_states(2) conf by (cases "snd (fst (Run_step E c conf k))") simp_all
qed

interpretation hook_steps: sequencer "runStep E c s tc phase"
  "\<lambda>st r. report_sound r \<and> step_good r" "\<lambda>st r e. report_sound r \<and> sr_State r = StateFailed"
  by unfold_locales (auto dest: runStep_parts)

lemma run_steps_sound:
  assumes "run_seq (runStep E c s tc phase) sts k = ((rs, err), k')"
  shows "\<forall>r \<in> set rs. report_sound r"
proof -
  have ok: "list_all2 (\<lambda>st r. report_sound r \<and> step_good r) xs rs \<Longrightarrow> \<forall>r \<in> set rs. report_sound r"
    for xs :: "step option list" and rs
    by (induction rule: list_all2_induct) auto
  from hook_steps.seq_shape [OF assms] show ?thesis by (auto dest!: ok)
qed

section \<open>Relations that everything in a case keeps\<close>

locale step_closed =
  fixes E :: env and R :: "kstate \<Rightarrow> kstate \<Rightarrow> bool"
  assumes rel_refl: "R k k"
    and rel_trans: "R k k' \<Longrightarrow> R k' k'' \<Longrightarrow> R k k''"
    and rel_clock: "R (sv, tr) (sv, tr @ [EvNow t])"
    and rel_step: "R k (snd (Run_step E c conf k))"
    and rel_cleanup: "R k (snd (Cleanup E c k))"
begin

lemma rel_runStep: "R k (snd (runStep E c s tc phase st k))"
  using rel_step by (simp add: runStep_def Let_def case_prod_beta)

lemma rel_runSteps: "R k (snd (runSteps E c s tc sts phase k))"
  unfolding runSteps_seq
  by (rule run_seq_relates) (auto intro: reflpI transpI rel_refl rel_trans rel_runStep)

lemma rel_withHooks: "R k (snd (runStepWithHooks E c s tc st k))"
proof -
  obtain bs be k1 where b: "runSteps E c s tc (hk_BeforeEach (cf_Hooks tc)) ''before hook'' k = ((bs, be), k1)"
    by (metis surj_pair)
  have r1: "R k k1" using rel_runSteps [of k c s tc "hk_BeforeEach (cf_Hooks tc)" "''before hook''"] b by simp
  have clock: "R k1 (fst k1, snd k1 @ [EvNow t])" for t using rel_clock [of "fst k1" "snd k1"] by simp
  have tail: "R k (snd (runSteps E c s tc (hk_AfterEach (cf_Hooks tc)) ''after hook'' k2))" if "R k1 k2" for k2
    using r1 that rel_runSteps rel_trans by blast
  show ?thesis
    using tail [OF clock] tail [OF rel_runStep [of k1 c s tc "''step''" st]]
    by (cases be) (auto simp: runStepWithHooks_def b skippedStepReport_def Let_def case_prod_beta)
qed

lemma rel_loop: "R k (snd (case_loop E c s tc sts report k))"
proof (induction sts arbitrary: report k)
  case Nil
  show ?case by (simp add: rel_refl)
next
  case (Cons st sts)
  obtain sr hr err k1 where w: "runStepWithHooks E c s tc st k = ((sr, hr, err), k1)" by (metis surj_pair)
  then have "R k k1" using rel_withHooks [of k c s tc st] by simp
  with w show ?case using Cons.IH [of k1] rel_trans by (auto simp: Let_def split: option.split)
qed

lemma rel_case: "R k (snd (run_case E c s testCase k))"
proof -
  have clock: "R k (fst k, snd k @ [EvNow t])" for t
    using rel_clock [of "fst k" "snd k"] by simp
  have clock2: "R k (fst k, snd k @ [EvNow t, EvNow t'])" for t t'
    using rel_trans [OF clock [of t] rel_clock [of "fst k" "snd k @ [EvNow t]" t']] by simp
  have deferred: "R k1 (snd (deferred_cleanup E c err k1))" for k1 err
    using rel_cleanup [of k1 "WithTimeout (WithoutCancel c) cleanupTimeout"]
    by (auto simp: deferred_cleanup_def Let_def case_prod_beta split: option.split prod.split)
  have "R k (snd (deferred_cleanup E c err (snd (case_loop E c s tc sts report (fst k, snd k @ [EvNow t])))))"
    for err tc sts report t
    by (rule rel_trans [OF rel_trans [OF clock rel_loop] deferred])
  then show ?thesis
    using clock clock2
    by (cases testCase)
      (auto simp: run_case_def case_newReport_def case_finishReport_def Let_def case_prod_beta)
qed

end

text \<open>In dry-run mode nothing reaches the cluster.\<close>

interpretation dry: step_closed E "\<lambda>k k'. svc_dryRun (fst k) \<longrightarrow> quiet k k'"
proof (unfold_locales, goal_cases)
  case (2 k k' k'')
  then show ?case using quiet_dry quiet_trans by blast
qed (auto simp: Run_step_quiet operation_quiet)

text \<open>Whatever the cluster does, the cache keeps to the observer.\<close>

sublocale kube_env \<subseteq> guarantee: step_closed E evolves
proof (unfold_locales, goal_cases)
  case (2 k k' k'')
  then show ?case by (rule evolves_trans)
next
  case (3 sv tr t)
  show ?case by (rule evolves_inert1) simp
qed (auto simp: Run_step_evolves Cleanup_evolves)

context kube_env
begin

lemma run_case_evolves: "evolves k (snd (run_case E c s testCase k))"
  by (rule guarantee.rel_case)

end

section \<open>A step with its hooks\<close>

text \<open>
  The specification of one step with hooks, over the three sequences: before hooks, the step
  unless a before hook failed, after hooks in every case.
\<close>

inductive hooks_run :: "env \<Rightarrow> ctx \<Rightarrow> case_service \<Rightarrow> case_file \<Rightarrow> step option \<Rightarrow> kstate \<Rightarrow>
    step_report \<Rightarrow> hooks_report \<Rightarrow> go_error option \<Rightarrow> kstate \<Rightarrow> bool"
  for E c s tc st k where
  ran: "\<lbrakk>run_seq (runStep E c s tc ''before hook'') (hk_BeforeEach (cf_Hooks tc)) k = ((bs, None), k1);
         runStep E c s tc ''step'' st k1 = ((main, me), k2);
         run_seq (runStep E c s tc ''after hook'') (hk_AfterEach (cf_Hooks tc)) k2 = ((as, ae), k3);
         err = None \<longleftrightarrow> me = None \<and> ae = None\<rbrakk>
        \<Longrightarrow> hooks_run E c s tc st k main \<lparr>hr_BeforeEach = bs, hr_AfterEach = as\<rparr> err k3"
| blocked: "\<lbrakk>run_seq (runStep E c s tc ''before hook'') (hk_BeforeEach (cf_Hooks tc)) k = ((bs, Some e), k1);
         sr_State main = StateSkipped; sr_Actions main = []; sr_Stats main = no_stats; sr_Name main = step_name st;
         run_seq (runStep E c s tc ''after hook'') (hk_AfterEach (cf_Hooks tc))
           (fst k1, snd k1 @ [EvNow t]) = ((as, ae), k3)\<rbrakk>
        \<Longrightarrow> hooks_run E c s tc st k main \<lparr>hr_BeforeEach = bs, hr_AfterEach = as\<rparr> (Some e') k3"

lemma skippedStepReport_parts:
  "skippedStepReport E st reason tr = (main, tr') \<Longrightarrow>
     sr_State main = StateSkipped \<and> sr_Actions main = [] \<and> sr_Stats main = no_stats \<and>
     sr_Name main = step_name st \<and> tr' = tr @ [EvNow (env_now E tr)]"
  by (auto simp: skippedStepReport_def Let_def case_prod_beta empty_step_report_def step_name_def
      split: option.splits)

lemma errors_join_second [simp]: "errors_join [x, Some e] \<noteq> None" "errors_join [None, Some e] \<noteq> None"
  by (simp_all add: errors_join_None_iff)

lemma runStepWithHooks_run:
  assumes w: "runStepWithHooks E c s tc st k = ((r, h, err), k')"
  shows "hooks_run E c s tc st k r h err k'"
proof -
  obtain bs be k1 where b: "run_seq (runStep E c s tc ''before hook'') (hk_BeforeEach (cf_Hooks tc)) k = ((bs, be), k1)"
    by (metis surj_pair)
  show ?thesis
  proof (cases be)
    case None
    obtain main me k2 where m: "runStep E c s tc ''step'' st k1 = ((main, me), k2)" by (metis surj_pair)
    obtain as ae k3 where a: "run_seq (runStep E c s tc ''after hook'') (hk_AfterEach (cf_Hooks tc)) k2 = ((as, ae), k3)"
      by (metis surj_pair)
    have eqs: "r = main" "h = \<lparr>hr_BeforeEach = bs, hr_AfterEach = as\<rparr>" "k' = k3"
      "err = (if ae \<noteq> None then errors_join [if me \<noteq> None then errors_join [None, me] else None, ae]
              else if me \<noteq> None then errors_join [None, me] else None)"
      using w None b m a by (auto simp: runStepWithHooks_def runSteps_seq split: if_splits)
    have "err = None \<longleftrightarrow> me = None \<and> ae = None" by (cases me; cases ae) (simp_all add: eqs(4))
    with b [unfolded None] m a show ?thesis unfolding eqs(1-3) by (rule ran)
  next
    case (Some e)
    obtain main tr2 where sk: "skippedStepReport E st (''before hook failed: '' @ err_text e) (snd k1) = (main, tr2)"
      by (metis surj_pair)
    obtain as ae k3 where a: "run_seq (runStep E c s tc ''after hook'') (hk_AfterEach (cf_Hooks tc))
        (fst k1, tr2) = ((as, ae), k3)" by (metis surj_pair)
    have eqs: "r = main" "h = \<lparr>hr_BeforeEach = bs, hr_AfterEach = as\<rparr>" "k' = k3"
      "err = (if ae \<noteq> None then errors_join [errors_join [None, Some e], ae] else errors_join [None, Some e])"
      using w Some b sk a by (simp_all add: runStepWithHooks_def runSteps_seq)
    obtain e' where "err = Some e'" by (cases ae; cases err) (use eqs(4) in simp_all)
    with b Some a skippedStepReport_parts [OF sk] show ?thesis
      by (auto simp: eqs(1-3) intro: blocked)
  qed
qed

lemma withHooks_sound:
  assumes "runStepWithHooks E c s tc st k = ((r, h, err), k')"
  shows "report_sound r" and "err = None \<Longrightarrow> step_good r"
    and "\<forall>x \<in> set (hr_BeforeEach h) \<union> set (hr_AfterEach h). report_sound x"
  using runStepWithHooks_run [OF assms]
  by (cases rule: hooks_run.cases; auto simp: report_sound_def [of r] objectStats_def
      dest: runStep_parts run_steps_sound)+

section \<open>The loop over the steps\<close>

text \<open>
  What a case report says after the loop: which reports were added, that they are sound, that a
  loop without error ran every step, and that the counts are those of the reports.
\<close>

definition counts_ok :: "case_report \<Rightarrow> bool" where
  "counts_ok r = ((cr_Passed r, cr_Failed r) = countSteps (cr_Steps r))"

definition hook_reports :: "case_report \<Rightarrow> step_report list" where
  "hook_reports r = (case cr_Hooks r of None \<Rightarrow> [] | Some h \<Rightarrow> hr_BeforeEach h @ hr_AfterEach h)"

definition same_header :: "case_report \<Rightarrow> case_report \<Rightarrow> bool" where
  "same_header r r' = (cr_Version r' = cr_Version r \<and> cr_Path r' = cr_Path r \<and> cr_Name r' = cr_Name r \<and>
     cr_Description r' = cr_Description r \<and> cr_Tags r' = cr_Tags r \<and> cr_Objects r' = cr_Objects r \<and>
     cr_State r' = cr_State r \<and> cr_Total r' = cr_Total r \<and> cr_StartedAt r' = cr_StartedAt r)"

lemma appendHooks_parts:
  "cr_Steps (appendHooksReport r h) = cr_Steps r" "same_header r (appendHooksReport r h)"
  "set (hook_reports (appendHooksReport r h)) =
     set (hook_reports r) \<union> set (hr_BeforeEach h) \<union> set (hr_AfterEach h)"
  by (auto simp: appendHooksReport_def same_header_def hook_reports_def Let_def split: option.splits)

lemma case_loop_contract:
  assumes "case_loop E c s tc sts r k = ((r', err), k')" and "counts_ok r"
    and "\<forall>x \<in> set (cr_Steps r) \<union> set (hook_reports r). report_sound x"
  shows "\<exists>rs. cr_Steps r' = cr_Steps r @ rs \<and> length rs \<le> length sts \<and>
      (err = None \<longrightarrow> length rs = length sts \<and> (\<forall>x \<in> set rs. step_good x)) \<and>
      (err \<noteq> None \<longrightarrow> (\<forall>x \<in> set (butlast rs). step_good x))"
    and "counts_ok r'" and "same_header r r'"
    and "\<forall>x \<in> set (cr_Steps r') \<union> set (hook_reports r'). report_sound x"
proof -
  have "(\<exists>rs. cr_Steps r' = cr_Steps r @ rs \<and> length rs \<le> length sts \<and>
      (err = None \<longrightarrow> length rs = length sts \<and> (\<forall>x \<in> set rs. step_good x)) \<and>
      (err \<noteq> None \<longrightarrow> (\<forall>x \<in> set (butlast rs). step_good x))) \<and>
    counts_ok r' \<and> same_header r r' \<and> (\<forall>x \<in> set (cr_Steps r') \<union> set (hook_reports r'). report_sound x)"
    using assms
  proof (induction sts arbitrary: r k)
    case Nil
    then show ?case by (auto simp: same_header_def)
  next
    case (Cons st sts)
    obtain sr h e k1 where w: "runStepWithHooks E c s tc st k = ((sr, h, e), k1)" by (metis surj_pair)
    note snd_w = withHooks_sound [OF w]
    define r1 where "r1 = (let r = appendHooksReport r h; r = r\<lparr>cr_Steps := cr_Steps r @ [sr]\<rparr> in
      r\<lparr>cr_Passed := fst (countSteps (cr_Steps r)), cr_Failed := snd (countSteps (cr_Steps r))\<rparr>)"
    have r1: "cr_Steps r1 = cr_Steps r @ [sr]" "counts_ok r1" "same_header r r1"
      "hook_reports r1 = hook_reports (appendHooksReport r h)"
      using appendHooks_parts(1,2) [of r h]
      by (simp_all add: r1_def Let_def counts_ok_def same_header_def hook_reports_def)
    have sound1: "\<forall>x \<in> set (cr_Steps r1) \<union> set (hook_reports r1). report_sound x"
      using Cons.prems(3) snd_w(1,3) by (auto simp: r1(1,4) appendHooks_parts(3))
    show ?case
    proof (cases e)
      case (Some x)
      then have "r' = r1" "err = Some x"
        using Cons.prems(1) w by (simp_all add: r1_def Let_def)
      with r1 sound1 show ?thesis by (auto intro!: exI [of _ "[sr]"])
    next
      case None
      then have rest: "case_loop E c s tc sts r1 k1 = ((r', err), k')"
        using Cons.prems(1) w by (simp add: r1_def Let_def)
      have good: "step_good sr" using snd_w(2) None by simp
      obtain rs where rs: "cr_Steps r' = cr_Steps r1 @ rs" "length rs \<le> length sts"
          "err = None \<longrightarrow> length rs = length sts \<and> (\<forall>x \<in> set rs. step_good x)"
          "err \<noteq> None \<longrightarrow> (\<forall>x \<in> set (butlast rs). step_good x)"
        and rest': "counts_ok r'" "same_header r1 r'"
          "\<forall>x \<in> set (cr_Steps r') \<union> set (hook_reports r'). report_sound x"
        using Cons.IH [OF rest r1(2) sound1] by blast
      have "same_header r r'" using r1(3) rest'(2) by (simp add: same_header_def)
      with rs rest' r1(1) good show ?thesis
        by (intro conjI exI [of _ "sr # rs"]) (auto split: if_splits)
    qed
  qed
  then show "\<exists>rs. cr_Steps r' = cr_Steps r @ rs \<and> length rs \<le> length sts \<and>
      (err = None \<longrightarrow> length rs = length sts \<and> (\<forall>x \<in> set rs. step_good x)) \<and>
      (err \<noteq> None \<longrightarrow> (\<forall>x \<in> set (butlast rs). step_good x))"
    and "counts_ok r'" and "same_header r r'"
    and "\<forall>x \<in> set (cr_Steps r') \<union> set (hook_reports r'). report_sound x"
    by blast+
qed

end
