(* ===== verification/Case_Leaks.thy ===== *)
theory Case_Leaks
  imports Case_Contracts
begin

text \<open>
  A whole case (\<^verbatim>\<open>Run\<close> of \<^verbatim>\<open>src/internal/engine/suite/run.go\<close>): the verdict of its report, the
  deferred cleanup on a detached context, and the theorem's groundwork that a case without error
  leaves nothing behind but its namespace.
\<close>

section \<open>Finishing a report\<close>

lemma case_finish_parts:
  assumes "case_finishReport E r err tr = ((r', err'), tr')"
  shows "err' = err" and "tr' = tr @ [EvNow (env_now E tr)]"
    and "cr_Steps r' = cr_Steps r" and "cr_Hooks r' = cr_Hooks r" and "cr_Passed r' = cr_Passed r"
    and "cr_Failed r' = cr_Failed r" and "cr_Total r' = cr_Total r" and "cr_Stats r' = caseStats r"
    and "cr_Duration r' = cr_FinishedAt r' - cr_StartedAt r'" and "cr_StartedAt r' = cr_StartedAt r"
    and "err = None \<Longrightarrow> cr_State r = StateUnset \<Longrightarrow> cr_State r' = StatePassed"
    and "err = Some e \<Longrightarrow> cr_State r' = StateFailed \<and> cr_Reason r' = err_text e"
  using assms by (auto simp: case_finishReport_def Let_def case_prod_beta split: option.splits)

lemma case_newReport_parts:
  assumes "case_newReport E (Some tc) tr = (r, tr')"
  shows "tr' = tr @ [EvNow (env_now E tr)]" and "cr_Steps r = []" and "cr_Hooks r = None"
    and "cr_State r = StateUnset" and "cr_Total r = length (cf_Steps tc)" and "cr_Name r = cf_Name tc"
    and "counts_ok r" and "hook_reports r = []"
  using assms
  by (auto simp: case_newReport_def Let_def case_prod_beta empty_case_report_def counts_ok_def countSteps_def
      hook_reports_def)

section \<open>The cleanup of a case\<close>

lemma deferred_cleanup_parts:
  "snd (deferred_cleanup E c err k) = snd (Cleanup E (WithTimeout (WithoutCancel c) cleanupTimeout) k)"
  "fst (deferred_cleanup E c err k) = None \<longleftrightarrow>
     err = None \<and> fst (Cleanup E (WithTimeout (WithoutCancel c) cleanupTimeout) k) = None"
  by (auto simp: deferred_cleanup_def Let_def case_prod_beta split: option.splits prod.splits)

text \<open>Whatever the steps did, the case ends with a cleanup on a detached context.\<close>

lemma run_case_loop:
  assumes "cf_Steps tc \<noteq> []"
  shows "\<exists>r0 tr0 r1 err k1. case_newReport E (Some tc) tr = (r0, tr0) \<and>
    case_loop E c s tc (cf_Steps tc) r0 (sv, tr0) = ((r1, err), k1) \<and>
    run_case E c s (Some tc) (sv, tr) =
      ((r1, fst (deferred_cleanup E c err k1)), snd (deferred_cleanup E c err k1))"
proof -
  obtain r0 tr0 where n: "case_newReport E (Some tc) tr = (r0, tr0)" by (metis surj_pair)
  obtain r1 err k1 where "case_loop E c s tc (cf_Steps tc) r0 (sv, tr0) = ((r1, err), k1)" by (metis surj_pair)
  with n assms show ?thesis by (cases k1) (auto simp: run_case_def case_prod_beta)
qed

section \<open>The report of a case\<close>

text \<open>The part of the verdict that does not depend on how the case ended.\<close>

definition case_sound :: "case_report \<Rightarrow> bool" where
  "case_sound r = (counts_ok r \<and> length (cr_Steps r) \<le> cr_Total r \<and>
     (\<forall>x \<in> set (cr_Steps r) \<union> set (hook_reports r). report_sound x) \<and>
     (\<forall>x \<in> set (butlast (cr_Steps r)). step_good x))"

definition case_complete :: "case_report \<Rightarrow> bool" where
  "case_complete r = (length (cr_Steps r) = cr_Total r \<and> (\<forall>x \<in> set (cr_Steps r). step_good x))"

lemma run_case_report:
  assumes "run_case E c s (Some tc) (sv, tr) = ((r, err), k')"
  shows "case_sound r" and "err = None \<Longrightarrow> case_complete r" and "cr_State r = StateUnset"
    and "cr_Total r = length (cf_Steps tc)" and "cr_Name r = cf_Name tc"
proof -
  have "case_sound r \<and> (err = None \<longrightarrow> case_complete r) \<and> cr_State r = StateUnset \<and>
      cr_Total r = length (cf_Steps tc) \<and> cr_Name r = cf_Name tc"
  proof (cases "cf_Steps tc = []")
    case True
    obtain r0 tr0 where n: "case_newReport E (Some tc) tr = (r0, tr0)" by (metis surj_pair)
    with True assms have "r = r0" by (simp add: run_case_def)
    with True case_newReport_parts [OF n] show ?thesis by (simp add: case_sound_def case_complete_def)
  next
    case False
    then obtain r0 tr0 err0 k1 where n: "case_newReport E (Some tc) tr = (r0, tr0)"
      and loop: "case_loop E c s tc (cf_Steps tc) r0 (sv, tr0) = ((r, err0), k1)"
      and err: "err = fst (deferred_cleanup E c err0 k1)"
      using run_case_loop [of tc E tr c s sv] assms by auto
    note new = case_newReport_parts [OF n]
    have base: "\<forall>x \<in> set (cr_Steps r0) \<union> set (hook_reports r0). report_sound x" using new by simp
    note con = case_loop_contract [OF loop new(7) base]
    obtain rs where rs: "cr_Steps r = rs" "length rs \<le> length (cf_Steps tc)"
        "err0 = None \<longrightarrow> length rs = length (cf_Steps tc) \<and> (\<forall>x \<in> set rs. step_good x)"
        "err0 \<noteq> None \<longrightarrow> (\<forall>x \<in> set (butlast rs). step_good x)"
      using con(1) new(2) by auto
    have "\<forall>x \<in> set (butlast rs). step_good x"
      using rs(3,4) by (cases err0) (auto dest: in_set_butlastD)
    moreover have "err = None \<Longrightarrow> err0 = None" using err deferred_cleanup_parts(2) by metis
    ultimately show ?thesis
      using rs con(2-4) new by (auto simp: case_sound_def case_complete_def same_header_def)
  qed
  then show "case_sound r" and "err = None \<Longrightarrow> case_complete r" and "cr_State r = StateUnset"
    and "cr_Total r = length (cf_Steps tc)" and "cr_Name r = cf_Name tc" by blast+
qed

lemma case_sound_counts:
  assumes "case_sound r"
  shows "cr_Passed r + cr_Failed r = length (cr_Steps r)" and "cr_Failed r \<le> 1"
proof -
  have st: "sr_State x \<in> insert StateFailed {StatePassed, StateSkipped}" if "x \<in> set (cr_Steps r)" for x
    using that assms by (cases "sr_State x") (auto simp: case_sound_def report_sound_def)
  have pf: "cr_Passed r = fst (countSteps (cr_Steps r))" "cr_Failed r = snd (countSteps (cr_Steps r))"
    using assms by (simp_all add: case_sound_def counts_ok_def prod_eq_iff)
  show "cr_Passed r + cr_Failed r = length (cr_Steps r)"
    unfolding pf by (rule steps.tally_total) (rule st)
  show "cr_Failed r \<le> 1"
  proof (cases "cr_Steps r" rule: rev_cases)
    case Nil
    then show ?thesis by (simp add: pf steps.tally_Nil)
  next
    case (snoc xs x)
    then have "\<forall>y \<in> set xs. sr_State y \<noteq> StateFailed"
      using assms by (auto simp: case_sound_def step_good_def)
    then have "snd (countSteps xs) = 0" by (simp add: steps.no_failed_iff)
    then show ?thesis by (simp add: pf snoc steps.tally_snoc)
  qed
qed

lemma case_complete_counts:
  assumes "case_sound r" and "case_complete r"
  shows "cr_Passed r = cr_Total r" and "cr_Failed r = 0"
proof -
  have "snd (countSteps (cr_Steps r)) = 0"
    using assms(2) by (auto simp: steps.no_failed_iff case_complete_def step_good_def)
  then show f: "cr_Failed r = 0" using assms(1) by (auto simp: case_sound_def counts_ok_def prod_eq_iff)
  show "cr_Passed r = cr_Total r"
    using case_sound_counts(1) [OF assms(1)] f assms(2) by (simp add: case_complete_def)
qed

section \<open>The verdict of Run\<close>

text \<open>The three ways a case file run ends, as values of the model's own functions.\<close>

lemma Run_case_cases:
  assumes "Run_case E io c conf tr = ((r, err), tr')"
  obtains (failed) r0 tr0 e where "case_finishReport E r0 (Some e) tr0 = ((r, err), tr')" "cr_Steps r0 = []"
      "cr_Hooks r0 = None" "counts_ok r0"
  | (skipped) tc where "parseCaseFile io (tr @ [EvNow (env_now E tr)]) (cc_Path conf) = Inr tc"
      "cc_Tags conf \<noteq> []" "\<not> anyTagMatches (cf_Tags tc) (cc_Tags conf)" "err = None"
      "cr_State r = StateSkipped" "cr_Steps r = []" "\<exists>t1 t2 t3. tr' = tr @ [EvNow t1, EvNow t2, EvNow t3]"
  | (ran) tc sv k r1 sv1 tr1 t where "parseCaseFile io (tr @ [EvNow (env_now E tr)]) (cc_Path conf) = Inr tc"
      "cc_Tags conf = [] \<or> anyTagMatches (cf_Tags tc) (cc_Tags conf)"
      "New_service E (kube_options conf) = Inr sv"
      "\<exists>t1 t2. ensure_namespace E c conf (sv, tr @ [EvNow t1, EvNow t2]) = (None, k)"
      "run_case E c (case_service_of conf tc) (Some tc) k = ((r1, err), (sv1, tr1))"
      "case_finishReport E (r1\<lparr>cr_StartedAt := t\<rparr>) err tr1 = ((r, err), tr')"
proof (cases "parseCaseFile io (tr @ [EvNow (env_now E tr)]) (cc_Path conf)")
  case (Inl e)
  with assms that(1) show ?thesis
    by (auto simp: Run_case_def Let_def case_prod_beta empty_case_report_def counts_ok_def countSteps_def)
next
  case (Inr tc)
  let ?tr1 = "tr @ [EvNow (env_now E tr)]"
  obtain r0 tr0 where n: "case_newReport E (Some tc) ?tr1 = (r0, tr0)" by (metis surj_pair)
  note new = case_newReport_parts [OF n]
  show ?thesis
  proof (cases "0 < length (cc_Tags conf) \<and> \<not> anyTagMatches (cf_Tags tc) (cc_Tags conf)")
    case True
    with Inr n assms that(2) [OF Inr] new show ?thesis
      by (auto simp: Run_case_def Let_def case_prod_beta)
  next
    case tags: False
    show ?thesis
    proof (cases "New_service E (kube_options conf)")
      case (Inl e)
      with Inr n tags assms that(1) new show ?thesis
        by (auto simp: Run_case_def Let_def case_prod_beta counts_ok_def)
    next
      case svc: (Inr sv)
      obtain ne k where ns: "ensure_namespace E c conf (sv, tr0) = (ne, k)" by (metis surj_pair)
      show ?thesis
      proof (cases ne)
        case (Some e)
        with Inr n tags svc ns assms that(1) new show ?thesis
          by (cases k) (auto simp: Run_case_def Let_def case_prod_beta counts_ok_def)
      next
        case None
        obtain r1 err1 sv1 tr1 where rc:
          "run_case E c (case_service_of conf tc) (Some tc) k = ((r1, err1), (sv1, tr1))" by (metis surj_pair)
        have fin: "case_finishReport E (r1\<lparr>cr_StartedAt := env_now E tr\<rparr>) err1 tr1 = ((r, err), tr')"
          using Inr n tags svc ns None rc assms by (auto simp: Run_case_def Let_def case_prod_beta)
        moreover have "err1 = err" using case_finish_parts(1) [OF fin] by simp
        moreover have "\<exists>t1 t2. ensure_namespace E c conf (sv, tr @ [EvNow t1, EvNow t2]) = (None, k)"
          using ns None new(1) by auto
        ultimately show ?thesis using that(3) [OF Inr _ svc _ _] tags rc by auto
      qed
    qed
  qed
qed

text \<open>
  The verdict: a failed case says why; a passed case ran every step; the counts are the counts of
  the step reports, never more than one failed; the statistics are those of the reports.
\<close>

definition case_verdict :: "case_config \<Rightarrow> case_report \<times> go_error option \<Rightarrow> bool" where
  "case_verdict conf res =
     (let r = fst res in
      (case snd res of
         Some e \<Rightarrow> cr_State r = StateFailed \<and> cr_Reason r = err_text e
       | None \<Rightarrow>
           (cr_State r = StatePassed \<and> case_complete r \<and> cr_Passed r = cr_Total r \<and> cr_Failed r = 0) \<or>
           (cr_State r = StateSkipped \<and> cr_Steps r = [] \<and> cc_Tags conf \<noteq> [])) \<and>
      (cr_State r \<noteq> StateSkipped \<longrightarrow>
         cr_Passed r + cr_Failed r = length (cr_Steps r) \<and> cr_Failed r \<le> 1 \<and>
         cr_Stats r = caseStats r \<and> cr_Duration r = cr_FinishedAt r - cr_StartedAt r \<and>
         (\<forall>x \<in> set (cr_Steps r) \<union> set (hook_reports r). report_sound x)))"

lemma caseStats_cong:
  "cr_Steps r = cr_Steps r' \<Longrightarrow> cr_Hooks r = cr_Hooks r' \<Longrightarrow> caseStats r = caseStats r'"
  by (simp add: caseStats_def)

lemma Run_case_verdict: "case_verdict conf (fst (Run_case E io c conf tr))"
proof -
  obtain r err tr' where run: "Run_case E io c conf tr = ((r, err), tr')" by (metis surj_pair)
  from run have "case_verdict conf (r, err)"
  proof (cases rule: Run_case_cases)
    case (failed r0 tr0 e)
    note fin = case_finish_parts [OF failed(1)]
    have "caseStats r = caseStats r0" using fin by (intro caseStats_cong) simp_all
    moreover have "cr_Passed r = 0 \<and> cr_Failed r = 0"
      using failed(2,4) fin by (simp add: counts_ok_def countSteps_def)
    ultimately show ?thesis
      using fin failed by (auto simp: case_verdict_def hook_reports_def)
  next
    case skipped
    then show ?thesis by (simp add: case_verdict_def)
  next
    case (ran tc sv k r1 sv1 tr1 t)
    note fin = case_finish_parts [OF ran(6)]
    note rep = run_case_report [of E c "case_service_of conf tc" tc "fst k" "snd k", unfolded prod.collapse, OF ran(5)]
    have same: "case_sound r = case_sound r1" "case_complete r = case_complete r1" "caseStats r = caseStats r1"
      using fin by (simp_all add: case_sound_def case_complete_def counts_ok_def hook_reports_def caseStats_def)
    have stats: "cr_Stats r = caseStats r" using fin same(3) by (simp add: caseStats_def)
    have cnt: "cr_Passed r + cr_Failed r = length (cr_Steps r)" "cr_Failed r \<le> 1"
      "\<forall>x \<in> set (cr_Steps r) \<union> set (hook_reports r). report_sound x"
      using case_sound_counts [of r] rep(1) same(1) by (auto simp: case_sound_def)
    show ?thesis
    proof (cases err)
      case None
      then have "case_complete r" using rep(2) same(2) by simp
      moreover have "cr_Passed r = cr_Total r" "cr_Failed r = 0"
        using case_complete_counts [of r] rep(1) same(1) calculation by simp_all
      ultimately show ?thesis using None fin rep(3) stats cnt by (simp add: case_verdict_def)
    next
      case (Some e)
      then show ?thesis using fin stats cnt by (simp add: case_verdict_def)
    qed
  qed
  with run show ?thesis by simp
qed

section \<open>Statistics are counts of actions\<close>

definition actions_of :: "step_report list \<Rightarrow> action_report list" where
  "actions_of rs = concat (map sr_Actions rs)"

definition passed_actions :: "action_name \<Rightarrow> action_report list \<Rightarrow> nat" where
  "passed_actions name as = length (filter (\<lambda>a. ar_Action a = name \<and> ar_State a = StatePassed) as)"

lemma objectStats_counts:
  "Ensured (objectStats as) = passed_actions NameEnsure as"
  "Patched (objectStats as) = passed_actions NamePatch as"
  "Deleted (objectStats as) = passed_actions NameDelete as"
  by (induction as)
    (auto simp: astats.total_Nil astats.total_Cons action_stats_def passed_actions_def split: action_name.splits)

lemma stepStats_sound: "\<forall>x \<in> set rs. report_sound x \<Longrightarrow> stepStats rs = objectStats (actions_of rs)"
  by (induction rs)
    (auto simp: sstats.total_Nil sstats.total_Cons actions_of_def astats.total_Nil astats.total_append report_sound_def)

lemma caseStats_sound:
  assumes "\<forall>x \<in> set (cr_Steps r) \<union> set (hook_reports r). report_sound x"
  shows "caseStats r = objectStats (actions_of (cr_Steps r @ hook_reports r))"
proof (cases "cr_Hooks r")
  case None
  with assms show ?thesis by (simp add: caseStats_def hook_reports_def stepStats_sound)
next
  case (Some h)
  have "caseStats r = stepStats (cr_Steps r @ hook_reports r)"
    using Some by (simp add: caseStats_def hook_reports_def sstats.total_append Add_assoc)
  with assms show ?thesis by (subst stepStats_sound [symmetric]) auto
qed

section \<open>The tag filter\<close>

lemma anyTagMatches_iff: "anyTagMatches items reqs \<longleftrightarrow> set items \<inter> set reqs \<noteq> {}"
  by (induction items) auto

lemma Run_case_skips:
  assumes parsed: "parseCaseFile io (tr @ [EvNow (env_now E tr)]) (cc_Path conf) = Inr tc"
  shows "cr_State (fst (fst (Run_case E io c conf tr))) = StateSkipped \<longleftrightarrow>
    cc_Tags conf \<noteq> [] \<and> set (cf_Tags tc) \<inter> set (cc_Tags conf) = {}"
proof -
  let ?skip = "cc_Tags conf \<noteq> [] \<and> set (cf_Tags tc) \<inter> set (cc_Tags conf) = {}"
  obtain r err tr' where run: "Run_case E io c conf tr = ((r, err), tr')" by (metis surj_pair)
  show ?thesis
  proof (cases ?skip)
    case True
    then show ?thesis
      using parsed by (simp add: Run_case_def Let_def case_prod_beta anyTagMatches_iff)
  next
    case False
    from run have "cr_State r \<noteq> StateSkipped"
    proof (cases rule: Run_case_cases)
      case (failed r0 tr0 e)
      then show ?thesis using case_finish_parts(12) [OF failed(1)] by simp
    next
      case (skipped tc')
      then show ?thesis using False parsed by (simp add: anyTagMatches_iff)
    next
      case (ran tc' sv k r1 sv1 tr1 t)
      note rep = run_case_report [of E c "case_service_of conf tc'" tc' "fst k" "snd k", unfolded prod.collapse, OF ran(5)]
      show ?thesis
        using case_finish_parts(11,12) [OF ran(6)] rep(3) by (cases err) simp_all
    qed
    with run False show ?thesis by auto
  qed
qed

section \<open>Ensuring the namespace adds only the namespace\<close>

definition namespace_keys :: "string \<Rightarrow> string set" where
  "namespace_keys name = {k. \<exists>ns. k = join ''/'' [ns, ''Namespace'', name]}"

fun adds_only :: "string set \<Rightarrow> ev \<Rightarrow> bool" where
  "adds_only ks (EvApply c obj os r) = (r = None \<longrightarrow> appliedKey obj \<in> ks)"
| "adds_only ks x = True"

lemma track_adds_only: "adds_only ks x \<Longrightarrow> snd (track (b, K) x) \<subseteq> K \<union> ks"
  by (cases x; cases "case x of EvGet c g k r \<Rightarrow> r | _ \<Rightarrow> undefined"; cases "case x of EvApply c obj os r \<Rightarrow> r | _ \<Rightarrow> undefined")
    auto

lemma owed_adds_only:
  assumes "list_all (adds_only ks) xs"
  shows "snd (owed (b, K) xs) \<subseteq> K \<union> ks"
  using assms
proof (induction xs arbitrary: b K)
  case Nil
  show ?case by simp
next
  case (Cons x xs)
  obtain b' K' where t: "track (b, K) x = (b', K')" by (cases "track (b, K) x")
  then have "K' \<subseteq> K \<union> ks" using track_adds_only [of ks x b K] Cons.prems by simp
  moreover have "snd (owed (b', K') xs) \<subseteq> K' \<union> ks" using Cons by simp
  ultimately show ?case using t by auto
qed

lemma track_mono:
  assumes "K' \<subseteq> K \<union> A"
  shows "fst (track (b, K') x) = fst (track (b, K) x) \<and> snd (track (b, K') x) \<subseteq> snd (track (b, K) x) \<union> A"
  using assms
  by (cases x; cases "case x of EvGet c g k r \<Rightarrow> r | _ \<Rightarrow> undefined"; cases "case x of EvApply c obj os r \<Rightarrow> r | _ \<Rightarrow> undefined")
    auto

lemma owed_mono:
  assumes "K' \<subseteq> K \<union> A"
  shows "snd (owed (b, K') xs) \<subseteq> snd (owed (b, K) xs) \<union> A"
  using assms
proof (induction xs arbitrary: b K K')
  case Nil
  then show ?case by simp
next
  case (Cons x xs)
  obtain b1 K1 where t: "track (b, K) x = (b1, K1)" by (cases "track (b, K) x")
  obtain b2 K2 where t': "track (b, K') x = (b2, K2)" by (cases "track (b, K') x")
  have "b2 = b1" "K2 \<subseteq> K1 \<union> A" using track_mono [OF Cons.prems, of b x] t t' by simp_all
  then show ?case using Cons.IH t t' by simp
qed

text \<open>What holds between the attempts of ensuring an object that is not cached.\<close>

definition ensuring :: "string \<Rightarrow> service \<Rightarrow> ev list \<Rightarrow> ostate \<Rightarrow> bool" where
  "ensuring name sv0 tr0 = (\<lambda>(obj, sv, tr).
     gvk_kind (o_gvk obj) = ''Namespace'' \<and> o_name obj = name \<and> sv = sv0 \<and>
     (\<exists>sfx. tr = tr0 @ sfx \<and> list_all (adds_only (namespace_keys name)) sfx))"

lemma ensuring_start: "ensuring name sv tr (namespace_object name, sv, tr)"
  by (simp add: ensuring_def namespace_object_def)

lemma ensuring_idle: "ensuring name sv0 tr0 s \<Longrightarrow> idle_obj s s' \<Longrightarrow> ensuring name sv0 tr0 s'"
proof -
  have "list_all (adds_only ks) (map EvSleep ds)" for ks ds by (induction ds) auto
  then show "ensuring name sv0 tr0 s \<Longrightarrow> idle_obj s s' \<Longrightarrow> ensuring name sv0 tr0 s'"
    by (cases s; cases s') (auto simp: ensuring_def idle_obj_def idle_tr_def)
qed

lemma ensuring_extend:
  "ensuring name sv0 tr0 (obj, sv, tr) \<Longrightarrow> list_all (adds_only (namespace_keys name)) xs \<Longrightarrow>
   gvk_kind (o_gvk obj') = ''Namespace'' \<Longrightarrow> o_name obj' = name \<Longrightarrow> ensuring name sv0 tr0 (obj', sv, tr @ xs)"
  by (auto simp: ensuring_def)

lemma ensuring_attempt:
  assumes "\<And>obj raw. env_to_unstructured E obj = Inr raw \<Longrightarrow> appliedKey raw = appliedKey obj"
    and "\<not> eo_ToCache opts" and I: "ensuring name sv0 tr0 s"
  shows "ensuring name sv0 tr0 (snd (ensure_attempt E c opts s))"
proof -
  obtain obj sv tr where s: "s = (obj, sv, tr)" by (cases s)
  obtain r obj1 sv1 tr1 where ns: "setNamespace E (obj, sv, tr) = (r, (obj1, sv1, tr1))" by (metis surj_pair)
  have I1: "ensuring name sv0 tr0 (obj1, sv1, tr1)"
    using ns I s by (cases rule: setNamespace_cases) (auto simp: ensuring_def)
  define obj2 where "obj2 = merge_annotations (eo_Annotations opts) obj1"
  have o2: "gvk_kind (o_gvk obj2) = ''Namespace''" "o_name obj2 = name"
    using I1 by (simp_all add: ensuring_def obj2_def merge_annotations_def)
  then have key: "appliedKey a \<in> namespace_keys name" if "toApplyConfiguration E obj2 = Inr a" for a
    using toApply_key [OF assms(1) that] by (auto simp: namespace_keys_def appliedKey_def)
  have ext: "ensuring name sv0 tr0 (obj2, sv1, tr1 @ xs)"
    if "list_all (adds_only (namespace_keys name)) xs" for xs
    using ensuring_extend [OF I1 that] o2 by simp
  show ?thesis
    using ns s I1 ext [of "[]"] ext [of "[_]"] ext [of "[_, _]"] key assms(2)
    by (auto simp: ensure_attempt_def Let_def obj2_def [symmetric] split: option.splits sum.splits)
qed

section \<open>A case without error leaves only its namespace\<close>

context kube_env
begin

lemma ensure_namespace_adds:
  assumes "ensure_namespace E c conf (sv, tr) = (r, (sv', tr'))"
  shows "sv' = sv" and "\<exists>sfx. tr' = tr @ sfx \<and> list_all (adds_only (namespace_keys (cc_Namespace conf))) sfx"
proof -
  let ?opts = "foldl (\<lambda>o' opt. opt o') newEnsureOptions [WithEnsureToCache False]"
  have nocache: "\<not> eo_ToCache ?opts" by (simp add: WithEnsureToCache_def)
  have att: "ensuring n sv tr (snd (ensure_attempt E c ?opts s))" if "ensuring n sv tr s" for n s
    using convert_key nocache that by (rule ensuring_attempt)
  define D where "D = env_on_error E (eo_Retry ?opts) retryAlways
      (env_on_error E (env_DefaultBackoff E) (is_reason ServerTimeout)
        (env_on_error E (env_DefaultBackoff E) (is_reason ServiceUnavailable) (ensure_attempt E c ?opts)))
      (namespace_object (cc_Namespace conf), sv, tr)"
  have "ensuring (cc_Namespace conf) sv tr (snd D)"
    unfolding D_def
    by (rule objs.on_error_invariant, rule ensuring_start, rule objs.on_error_invariant, assumption,
        rule objs.on_error_invariant, assumption)
      (blast intro: att ensuring_idle)+
  then have "sv' = sv \<and> (\<exists>sfx. tr' = tr @ sfx \<and> list_all (adds_only (namespace_keys (cc_Namespace conf))) sfx)"
    using assms D_def [symmetric]
    by (auto simp: ensure_namespace_def Ensure_def Let_def ensuring_def split: if_splits prod.splits option.splits)
  then show "sv' = sv" and "\<exists>sfx. tr' = tr @ sfx \<and> list_all (adds_only (namespace_keys (cc_Namespace conf))) sfx"
    by blast+
qed

text \<open>The keys a case without error leaves in its cache: none.\<close>

lemma run_case_clean:
  assumes run: "run_case E c s (Some tc) (sv, tr) = ((r, None), (sv', tr'))"
    and fresh: "svc_applied sv = NewStore" and live: "\<not> svc_dryRun sv" and ns: "svc_namespace sv \<noteq> []"
    and st: "steady tr'"
  shows "keys (svc_applied sv') = {}"
proof (cases "cf_Steps tc = []")
  case True
  with run have "sv' = sv" by (auto simp: run_case_def split: prod.splits)
  then show ?thesis using fresh safe.keys_empty by simp
next
  case False
  then obtain r0 tr0 err0 sv1 tr1 where n: "case_newReport E (Some tc) tr = (r0, tr0)"
    and loop: "case_loop E c s tc (cf_Steps tc) r0 (sv, tr0) = ((r, err0), (sv1, tr1))"
    and fin: "deferred_cleanup E c err0 (sv1, tr1) = (None, (sv', tr'))"
    using run_case_loop [of tc E tr c s sv] run by (auto simp: prod_eq_iff)
  have ev: "evolves (sv, tr0) (sv1, tr1)"
    using guarantee.rel_loop [of "(sv, tr0)" c s tc "cf_Steps tc" r0] loop by simp
  have "Cleanup E (WithTimeout (WithoutCancel c) cleanupTimeout) (sv1, tr1) = (None, (sv', tr'))"
    using deferred_cleanup_parts [of E c err0 "(sv1, tr1)"] fin by (simp add: prod_eq_iff)
  then show ?thesis
  proof (rule Cleanup_clean(1))
    show "cache_ok (sv1, tr1)" using ev fresh by (simp add: evolves_def)
  qed (use ev live ns st in \<open>auto simp: evolves_def same_config_def\<close>)
qed

lemma New_service_fresh:
  assumes "New_service E (kube_options conf) = Inr sv"
  shows "svc_applied sv = NewStore" and "svc_dryRun sv = cc_DryRun conf" and "svc_namespace sv \<noteq> []"
  using assms
  by (auto simp: New_service_def kube_options_def WithNamespace_def WithForceConflicts_def WithDryRun_def
      namespaceDefault_def Let_def split: if_splits option.splits)

lemma Run_case_leaves:
  assumes run: "Run_case E io c conf tr = ((r, None), tr')" and live: "\<not> cc_DryRun conf" and st: "steady tr'"
  shows "\<exists>sfx. tr' = tr @ sfx \<and> snd (owed (False, {}) sfx) \<subseteq> namespace_keys (cc_Namespace conf)"
  using run
proof (cases rule: Run_case_cases)
  case failed
  then show ?thesis using case_finish_parts(1) by blast
next
  case skipped
  then show ?thesis by (auto simp: owed_inert)
next
  case (ran tc sv k r1 sv1 tr1 t)
  note new = New_service_fresh [OF ran(3)]
  note fin = case_finish_parts [OF ran(6)]
  obtain t1 t2 where ens: "ensure_namespace E c conf (sv, tr @ [EvNow t1, EvNow t2]) = (None, k)"
    using ran(4) by blast
  obtain svk trk where k: "k = (svk, trk)" by (cases k)
  note adds = ensure_namespace_adds [OF ens [unfolded k]]
  obtain x where x: "trk = (tr @ [EvNow t1, EvNow t2]) @ x"
    "list_all (adds_only (namespace_keys (cc_Namespace conf))) x" using adds(2) by blast
  have ev: "evolves (sv, trk) (sv1, tr1)"
    using guarantee.rel_case [of k c "case_service_of conf tc" "Some tc"] ran(5) k adds(1) by simp
  then obtain y where y: "tr1 = trk @ y" "\<And>b. keys (svc_applied sv1) = snd (owed (b, keys (svc_applied sv)) y)"
    by (auto simp: evolves_def)
  have "keys (svc_applied sv1) = {}"
  proof (rule run_case_clean)
    show "run_case E c (case_service_of conf tc) (Some tc) (sv, trk) = ((r1, None), (sv1, tr1))"
      using ran(5) k adds(1) by simp
    show "steady tr1" using st fin(2) by (auto intro: steady_append)
  qed (use new live in auto)
  then have none: "snd (owed (b, {}) y) = {}" for b
    using y(2) [of b] new(1) by (simp add: safe.keys_empty)
  obtain b K where bK: "owed (False, {}) ([EvNow t1, EvNow t2] @ x) = (b, K)"
    by (cases "owed (False, {}) ([EvNow t1, EvNow t2] @ x)")
  have "K \<subseteq> {} \<union> namespace_keys (cc_Namespace conf)"
    using owed_adds_only [of "namespace_keys (cc_Namespace conf)" "[EvNow t1, EvNow t2] @ x" False "{}"] x(2) bK
    by simp
  from owed_mono [OF this, of b y] none
  have "snd (owed (b, K) y) \<subseteq> namespace_keys (cc_Namespace conf)" by simp
  moreover have "snd (owed (b, K) (y @ [EvNow (env_now E tr1)])) = snd (owed (b, K) y)"
    by (cases "owed (b, K) y") simp
  ultimately show ?thesis
    using bK x(1) y(1) fin(2)
    by (intro exI [of _ "[EvNow t1, EvNow t2] @ x @ y @ [EvNow (env_now E tr1)]"]) simp
qed

end

end
