(* ===== verification/Paths.thy ===== *)
theory Paths
  imports Prelude
begin

text \<open>
  The part of Go's \<^verbatim>\<open>path/filepath\<close> (Unix) the program uses: \<^verbatim>\<open>Clean\<close>, \<^verbatim>\<open>Join\<close>, \<^verbatim>\<open>Base\<close>,
  \<^verbatim>\<open>Dir\<close>, \<^verbatim>\<open>Ext\<close>, \<^verbatim>\<open>IsAbs\<close>. \<^verbatim>\<open>Clean\<close> is described by its rules on path elements: empty and
  dot elements go, a dot-dot element removes the element before it, and what is left of dot-dot
  elements stands at the front of a relative path only.
\<close>

section \<open>Splitting and cleaning\<close>

abbreviation slash :: char where
  "slash \<equiv> CHR 0x2F"

fun split_on :: "char \<Rightarrow> string \<Rightarrow> string list" where
  "split_on sep [] = [[]]"
| "split_on sep (c # cs) =
     (if c = sep then [] # split_on sep cs
      else (case split_on sep cs of [] \<Rightarrow> [[c]] | x # xs \<Rightarrow> (c # x) # xs))"

definition clean_step :: "bool \<Rightarrow> string list \<Rightarrow> string \<Rightarrow> string list" where
  "clean_step rooted stack x =
     (if x = [] \<or> x = ''.'' then stack
      else if x = ''..'' then
        (if stack \<noteq> [] \<and> last stack \<noteq> ''..'' then butlast stack
         else if rooted then stack else stack @ [''..''])
      else stack @ [x])"

definition clean_elems :: "bool \<Rightarrow> string list \<Rightarrow> string list" where
  "clean_elems rooted xs = foldl (clean_step rooted) [] xs"

definition rooted :: "string \<Rightarrow> bool" where
  "rooted p = (p \<noteq> [] \<and> hd p = slash)"

definition Clean :: "string \<Rightarrow> string" where
  "Clean p =
     (let body = join [slash] (clean_elems (rooted p) (split_on slash p)) in
      if rooted p then slash # body else if body = [] then ''.'' else body)"

definition Join :: "string list \<Rightarrow> string" where
  "Join elems =
     (case dropWhile (\<lambda>e. e = []) elems of [] \<Rightarrow> [] | es \<Rightarrow> Clean (join [slash] es))"

definition strip_slashes :: "string \<Rightarrow> string" where
  "strip_slashes p = rev (dropWhile (\<lambda>c. c = slash) (rev p))"

definition after_slash :: "string \<Rightarrow> string" where
  "after_slash p = rev (takeWhile (\<lambda>c. c \<noteq> slash) (rev p))"

definition Base :: "string \<Rightarrow> string" where
  "Base p =
     (if p = [] then ''.''
      else let b = after_slash (strip_slashes p) in if b = [] then [slash] else b)"

definition Dir :: "string \<Rightarrow> string" where
  "Dir p = Clean (take (length p - length (after_slash p)) p)"

definition Ext :: "string \<Rightarrow> string" where
  "Ext p =
     (let name = after_slash p in
      if CHR ''.'' \<in> set name then CHR ''.'' # rev (takeWhile (\<lambda>c. c \<noteq> CHR ''.'') (rev name)) else [])"

section \<open>Elements of cleaned paths\<close>

definition plain :: "string \<Rightarrow> bool" where
  "plain x = (x \<noteq> [] \<and> x \<noteq> ''.'' \<and> slash \<notin> set x)"

text \<open>Dot-dot elements stand at the front, and only in a relative path.\<close>

definition cleaned :: "bool \<Rightarrow> string list \<Rightarrow> bool" where
  "cleaned r xs = (list_all plain xs \<and>
     (\<exists>n ys. xs = replicate n ''..'' @ ys \<and> ''..'' \<notin> set ys \<and> (r \<longrightarrow> n = 0)))"

lemma cleaned_Nil [simp]: "cleaned r []"
  by (auto simp: cleaned_def intro: exI [of _ 0])

lemma plain_dots [simp]: "plain ''..''"
  by (simp add: plain_def)

lemma cleaned_step:
  assumes "cleaned r xs" and "slash \<notin> set x"
  shows "cleaned r (clean_step r xs x)"
proof -
  obtain n ys where xs: "xs = replicate n ''..'' @ ys" "''..'' \<notin> set ys" "r \<longrightarrow> n = 0" and pl: "list_all plain xs"
    using assms(1) unfolding cleaned_def by blast
  show ?thesis
  proof (cases "x = ''..''")
    case dots: True
    show ?thesis
    proof (cases "ys = []")
      case True
      then have "xs = [] \<or> last xs = ''..''" using xs(1) by (cases n) auto
      then have eq: "clean_step r xs x = (if r then xs else replicate (Suc n) ''..'')"
        using dots True xs(1) by (auto simp: clean_step_def replicate_append_same)
      have "cleaned False (replicate (Suc n) ''..'')"
        unfolding cleaned_def by (intro conjI exI [of _ "Suc n"] exI [of _ "[]"]) (auto simp: list_all_iff)
      then show ?thesis using eq assms(1) by (cases r) simp_all
    next
      case False
      then have "clean_step r xs x = replicate n ''..'' @ butlast ys"
        using dots xs by (auto simp: clean_step_def butlast_append dest: last_in_set)
      moreover have "list_all plain (replicate n ''..'' @ butlast ys)"
        using pl xs(1) by (auto simp: list_all_iff dest: in_set_butlastD)
      ultimately show ?thesis using xs(2,3) by (auto simp: cleaned_def dest: in_set_butlastD)
    qed
  next
    case False
    show ?thesis
    proof (cases "x = [] \<or> x = ''.''")
      case True
      then show ?thesis using assms(1) by (auto simp: clean_step_def)
    next
      case ord: False
      then have "clean_step r xs x = replicate n ''..'' @ (ys @ [x])"
        using False xs(1) by (simp add: clean_step_def)
      moreover have "list_all plain (replicate n ''..'' @ (ys @ [x]))"
        using pl xs(1) ord assms(2) by (simp add: plain_def)
      moreover have "''..'' \<notin> set (ys @ [x])" using xs(2) False by simp
      ultimately show ?thesis using xs(3) unfolding cleaned_def by metis
    qed
  qed
qed

lemma split_on_no_sep: "x \<in> set (split_on sep s) \<Longrightarrow> sep \<notin> set x"
proof (induction s arbitrary: x)
  case Nil
  then show ?case by simp
next
  case (Cons c cs)
  show ?case
  proof (cases "split_on sep cs")
    case Nil
    then show ?thesis using Cons by (auto split: if_splits)
  next
    case (Cons y ys)
    then show ?thesis using Cons.IH Cons.prems by (auto split: if_splits)
  qed
qed

lemma cleaned_elems: "(\<forall>x \<in> set xs. slash \<notin> set x) \<Longrightarrow> cleaned r (clean_elems r xs)"
  unfolding clean_elems_def by (induction xs rule: rev_induct) (auto intro: cleaned_step)

lemma clean_elems_fixed:
  assumes "cleaned r xs"
  shows "clean_elems r xs = xs"
proof -
  obtain n ys where xs: "xs = replicate n ''..'' @ ys" "''..'' \<notin> set ys" "r \<longrightarrow> n = 0" and pl: "list_all plain xs"
    using assms unfolding cleaned_def by blast
  have dots: "foldl (clean_step r) [] (replicate n ''..'') = replicate n ''..''"
  proof (cases r)
    case True
    then show ?thesis using xs(3) by simp
  next
    case False
    have "foldl (clean_step False) [] (replicate m ''..'') = replicate m ''..''" for m
    proof (induction m)
      case 0
      show ?case by simp
    next
      case (Suc m)
      have "last (replicate m ''..'') = ''..''" if "m \<noteq> 0" using that by simp
      then show ?case
        using Suc by (cases "m = 0") (simp_all add: clean_step_def flip: replicate_append_same)
    qed
    with False show ?thesis by simp
  qed
  have "foldl (clean_step r) zs ys = zs @ ys" if "''..'' \<notin> set ys" "list_all plain ys" for zs
    using that by (induction ys arbitrary: zs) (auto simp: clean_step_def plain_def)
  then show ?thesis using dots xs pl by (simp add: clean_elems_def)
qed

lemma split_join:
  assumes "xs \<noteq> []" and "\<forall>x \<in> set xs. sep \<notin> set x"
  shows "split_on sep (join [sep] xs) = xs"
proof -
  have one: "split_on sep x = [x]" if "sep \<notin> set x" for x
    using that by (induction x) auto
  have step: "split_on sep (x @ sep # s) = x # split_on sep s" if "sep \<notin> set x" for x s
    using that by (induction x) auto
  from assms show ?thesis
  proof (induction xs)
    case Nil
    then show ?case by simp
  next
    case (Cons x xs)
    then show ?case by (cases xs) (simp_all add: one step)
  qed
qed

section \<open>Clean is idempotent\<close>

lemma join_no_lead:
  assumes "xs \<noteq> []" and "list_all plain xs"
  shows "join [slash] xs \<noteq> [] \<and> hd (join [slash] xs) \<noteq> slash"
proof -
  obtain x ys where xs: "xs = x # ys" using assms(1) by (cases xs) auto
  obtain c cs where "x = c # cs" "c \<noteq> slash" using assms(2) xs by (cases x) (auto simp: plain_def)
  with xs show ?thesis by (cases ys) simp_all
qed

lemma Clean_elems:
  "\<exists>xs. cleaned (rooted p) xs \<and>
     Clean p = (if rooted p then slash # join [slash] xs else if xs = [] then ''.'' else join [slash] xs)"
proof -
  let ?xs = "clean_elems (rooted p) (split_on slash p)"
  have c: "cleaned (rooted p) ?xs" by (rule cleaned_elems) (auto dest: split_on_no_sep)
  have "join [slash] ?xs = [] \<longleftrightarrow> ?xs = []"
    using join_no_lead [of ?xs] c by (auto simp: cleaned_def)
  with c show ?thesis
    by (intro exI [of _ ?xs] conjI) (cases "rooted p"; simp add: Clean_def Let_def)+
qed

lemma Clean_of_elems:
  assumes "cleaned False xs" and "xs \<noteq> []"
  shows "Clean (join [slash] xs) = join [slash] xs" and "\<not> rooted (join [slash] xs)"
proof -
  have pl: "list_all plain xs" using assms(1) by (simp add: cleaned_def)
  note lead = join_no_lead [OF assms(2) pl]
  then show nr: "\<not> rooted (join [slash] xs)" by (simp add: rooted_def)
  have "split_on slash (join [slash] xs) = xs"
    using assms(2) pl by (intro split_join) (auto simp: list_all_iff plain_def)
  then show "Clean (join [slash] xs) = join [slash] xs"
    using clean_elems_fixed [OF assms(1)] nr lead by (simp add: Clean_def)
qed

lemma Clean_of_rooted_elems:
  assumes "cleaned True xs"
  shows "Clean (slash # join [slash] xs) = slash # join [slash] xs"
proof (cases "xs = []")
  case True
  then show ?thesis by (simp add: Clean_def rooted_def clean_elems_def clean_step_def)
next
  case False
  have "split_on slash (join [slash] xs) = xs"
    using False assms by (intro split_join) (auto simp: cleaned_def list_all_iff plain_def)
  then show ?thesis
    using clean_elems_fixed [OF assms]
    by (simp add: Clean_def rooted_def clean_elems_def clean_step_def [of _ _ "[]"])
qed

lemma Clean_idem: "Clean (Clean p) = Clean p"
proof -
  obtain xs where xs: "cleaned (rooted p) xs"
    "Clean p = (if rooted p then slash # join [slash] xs else if xs = [] then ''.'' else join [slash] xs)"
    using Clean_elems by blast
  show ?thesis
  proof (cases "rooted p")
    case True
    then show ?thesis using xs Clean_of_rooted_elems by simp
  next
    case False
    have dot: "Clean ''.'' = ''.''" by (simp add: Clean_def rooted_def clean_elems_def clean_step_def)
    from False xs show ?thesis using Clean_of_elems(1) dot by (cases "xs = []") simp_all
  qed
qed

section \<open>Absolute paths of names\<close>

text \<open>An element that is a name in a directory, and the absolute path of a list of them.\<close>

definition name_ok :: "string \<Rightarrow> bool" where
  "name_ok c = (plain c \<and> c \<noteq> ''..'')"

definition abs_path :: "string list \<Rightarrow> string" where
  "abs_path xs = slash # join [slash] xs"

lemma not_name_ok [simp]: "\<not> name_ok []" "\<not> name_ok ''.''" "\<not> name_ok ''..''"
  by (simp_all add: name_ok_def plain_def)

lemma name_ok_simps [simp]:
  "name_ok c \<Longrightarrow> c \<noteq> []" "name_ok c \<Longrightarrow> c \<noteq> ''.''" "name_ok c \<Longrightarrow> c \<noteq> ''..''" "name_ok c \<Longrightarrow> slash \<notin> set c"
  by (auto simp: name_ok_def plain_def)

lemma name_okI: "c \<noteq> [] \<Longrightarrow> c \<noteq> ''.'' \<Longrightarrow> c \<noteq> ''..'' \<Longrightarrow> slash \<notin> set c \<Longrightarrow> name_ok c"
  unfolding name_ok_def plain_def by blast

lemma cleaned_rooted [simp]: "cleaned True xs \<longleftrightarrow> list_all name_ok xs"
  by (auto simp: cleaned_def name_ok_def list_all_iff)

lemma rooted_abs [simp]: "rooted (abs_path xs)"
  by (simp add: abs_path_def rooted_def)

lemma abs_path_nonempty [simp]: "abs_path xs \<noteq> []"
  by (simp add: abs_path_def)

lemma Clean_abs [simp]: "list_all name_ok xs \<Longrightarrow> Clean (abs_path xs) = abs_path xs"
  by (simp add: abs_path_def Clean_of_rooted_elems)

lemma split_abs: "list_all name_ok xs \<Longrightarrow> split_on slash (abs_path xs) = [] # (if xs = [] then [[]] else xs)"
  by (simp add: abs_path_def split_join list_all_iff)

lemma split_on_append: "split_on sep (a @ sep # b) = split_on sep a @ split_on sep b"
proof (induction a)
  case Nil
  show ?case by simp
next
  case (Cons c a)
  have "split_on sep a \<noteq> []" by (cases a) (auto split: list.splits)
  with Cons show ?case by (auto split: list.splits)
qed

lemma clean_elems_append: "clean_elems r (xs @ ys) = foldl (clean_step r) (clean_elems r xs) ys"
  by (simp add: clean_elems_def)

lemma clean_step_names: "list_all name_ok ys \<Longrightarrow> foldl (clean_step r) zs ys = zs @ ys"
  by (induction ys arbitrary: zs) (auto simp: clean_step_def)

lemma clean_step_skip [simp]: "clean_step r zs [] = zs"
  by (simp add: clean_step_def)

lemma clean_elems_abs: "list_all name_ok xs \<Longrightarrow> clean_elems True (split_on slash (abs_path xs)) = xs"
  by (simp add: split_abs clean_elems_def clean_step_names)

lemma Clean_rooted: "rooted p \<Longrightarrow> Clean p = abs_path (clean_elems True (split_on slash p))"
  by (simp add: Clean_def abs_path_def)

lemma clean_elems_names: "list_all name_ok (clean_elems True (split_on slash p))"
  using cleaned_elems [of "split_on slash p" True] by (auto dest: split_on_no_sep)

text \<open>Joining a relative part to a directory, and a cleaned absolute part.\<close>

lemma Join_two: "a \<noteq> [] \<Longrightarrow> Join [a, b] = Clean (a @ slash # b)"
  by (simp add: Join_def)

lemma Join_abs_general:
  assumes "list_all name_ok ds"
  shows "Join [abs_path ds, b] = abs_path (foldl (clean_step True) ds (split_on slash b))"
proof -
  have "rooted (abs_path ds @ slash # b)" by (simp add: abs_path_def rooted_def)
  then show ?thesis
    using assms by (simp add: Join_two Clean_rooted split_on_append clean_elems_append clean_elems_abs)
qed

lemma Join_abs:
  assumes "list_all name_ok ds" and "list_all name_ok es"
  shows "Join [abs_path ds, abs_path es] = abs_path (ds @ es)"
  using assms by (simp add: Join_abs_general split_abs clean_step_names)

lemma Join_name:
  assumes "list_all name_ok ds" and "name_ok c"
  shows "Join [abs_path ds, c] = abs_path (ds @ [c])"
proof -
  have "split_on slash c = [c]" using split_join [of "[c]" slash] assms(2) by simp
  then show ?thesis using assms by (simp add: Join_abs_general clean_step_def)
qed

lemma Join_names2:
  assumes "list_all name_ok ds" and "name_ok b" and "name_ok c"
  shows "Join [abs_path ds, b, c] = abs_path (ds @ [b, c])"
proof -
  have "split_on slash (b @ slash # c) = [b, c]" using split_join [of "[b, c]" slash] assms by simp
  moreover have "Join [abs_path ds, b, c] = Join [abs_path ds, b @ slash # c]" by (simp add: Join_def)
  ultimately show ?thesis using assms by (simp add: Join_abs_general clean_step_def)
qed

lemma abs_path_snoc: "xs \<noteq> [] \<Longrightarrow> abs_path (xs @ [x]) = abs_path xs @ slash # x"
proof -
  have "join [slash] (xs @ [x]) = join [slash] xs @ slash # x" if "xs \<noteq> []" for xs
    using that
  proof (induction xs)
    case (Cons y ys)
    then show ?case by (cases ys) simp_all
  qed simp
  then show "xs \<noteq> [] \<Longrightarrow> ?thesis" by (simp add: abs_path_def)
qed

lemma abs_path_one: "abs_path [x] = slash # x"
  by (simp add: abs_path_def)

lemma after_slash_append: "slash \<notin> set x \<Longrightarrow> after_slash (p @ slash # x) = x"
  using takeWhile_append2 [of "rev x" "\<lambda>c. c \<noteq> slash" "slash # rev p"] by (force simp: after_slash_def)

lemma after_slash_abs: "name_ok x \<Longrightarrow> after_slash (abs_path (xs @ [x])) = x"
  using after_slash_append [of x "[]"]
  by (cases "xs = []") (simp_all add: abs_path_one abs_path_snoc after_slash_append)

lemma Clean_root: "Clean [slash] = [slash]"
  by (simp add: Clean_def rooted_def clean_elems_def)

lemma Dir_abs:
  assumes "list_all name_ok xs" and "name_ok x"
  shows "Dir (abs_path (xs @ [x])) = abs_path xs"
proof (cases "xs = []")
  case True
  then show ?thesis
    using after_slash_append [of x "[]"] assms(2)
    by (simp add: Dir_def abs_path_one Clean_root) (simp add: abs_path_def)
next
  case False
  then have "take (length (abs_path (xs @ [x])) - length x) (abs_path (xs @ [x])) = abs_path xs @ [slash]"
    by (simp add: abs_path_snoc)
  moreover have "Clean (abs_path xs @ [slash]) = abs_path xs"
  proof -
    have "rooted (abs_path xs @ [slash])" by (simp add: abs_path_def rooted_def)
    then show ?thesis
      using assms(1) split_on_append [of slash "abs_path xs" "[]"]
      by (simp add: Clean_rooted clean_elems_append clean_elems_abs)
  qed
  ultimately show ?thesis using assms(2) by (simp add: Dir_def after_slash_abs)
qed

lemma abs_path_slash_concat: "xs \<noteq> [] \<Longrightarrow> abs_path xs @ [slash] = slash # concat (map (\<lambda>x. x @ [slash]) xs)"
proof -
  have "join [slash] xs @ [slash] = concat (map (\<lambda>x. x @ [slash]) xs)" if "xs \<noteq> []" for xs
    using that
  proof (induction xs)
    case (Cons y ys)
    then show ?case by (cases ys) simp_all
  qed simp
  then show "xs \<noteq> [] \<Longrightarrow> ?thesis" by (simp add: abs_path_def)
qed

lemma prefix_slash_terminated:
  assumes "slash \<notin> set x" and "slash \<notin> set y"
  shows "prefix (x @ slash # a) (y @ slash # b) \<longleftrightarrow> x = y \<and> prefix a b"
  using assms
proof (induction x arbitrary: y)
  case Nil
  then show ?case by (cases y) auto
next
  case (Cons c x)
  then show ?case by (cases y) auto
qed

lemma prefix_concat_slash:
  assumes "list_all name_ok xs" and "list_all name_ok ys"
  shows "prefix (concat (map (\<lambda>x. x @ [slash]) xs)) (concat (map (\<lambda>x. x @ [slash]) ys)) \<longleftrightarrow> prefix xs ys"
  using assms
proof (induction xs arbitrary: ys)
  case Nil
  show ?case by simp
next
  case (Cons x xs)
  then show ?case by (cases ys) (simp_all add: prefix_slash_terminated)
qed

lemma prefix_abs_path:
  assumes "list_all name_ok xs" and "list_all name_ok ys" and "xs \<noteq> []"
  shows "prefix (abs_path xs @ [slash]) (abs_path ys @ [slash]) \<longleftrightarrow> prefix xs ys"
proof (cases "ys = []")
  case True
  obtain x xs' where "xs = x # xs'" "x \<noteq> []" using assms by (cases xs) auto
  then have "\<not> prefix (abs_path xs @ [slash]) (abs_path ys @ [slash])"
    using True assms(1) by (cases x) (auto simp: abs_path_slash_concat abs_path_def [of "[]"])
  then show ?thesis using True assms(3) by simp
next
  case False
  then show ?thesis using assms prefix_concat_slash by (simp add: abs_path_slash_concat)
qed

end
