(* ===== verification/Test_Run.thy ===== *)
theory Test_Run
  imports Case_Leaks Paths
begin

text \<open>
  Suites (\<^verbatim>\<open>src/internal/engine/test\<close>): a directory with cases and templates, run case by case.
  The file system and the parser of templates are the record \<open>suite_io\<close>.
\<close>

section \<open>Files\<close>

record dir_entry =
  d_name :: string
  d_isdir :: bool

text \<open>
  \<^verbatim>\<open>os.ReadDir\<close> fails with an error that is or is not \<^verbatim>\<open>os.IsNotExist\<close> (the flag), or lists the
  entries.
\<close>

record suite_io =
  si_cases :: case_io
  si_readdir :: "ev list \<Rightarrow> string \<Rightarrow> (bool \<times> go_error) + dir_entry list"
  si_glob :: "ev list \<Rightarrow> string \<Rightarrow> go_error + string list"
  si_parse :: "string \<Rightarrow> string \<Rightarrow> go_error + string"

definition trim_suffix :: "string \<Rightarrow> string \<Rightarrow> string" where
  "trim_suffix s suf =
     (if length suf \<le> length s \<and> drop (length s - length suf) s = suf then take (length s - length suf) s else s)"

section \<open>Loading templates\<close>

fun parse_templates :: "suite_io \<Rightarrow> ev list \<Rightarrow> string list \<Rightarrow> manager \<Rightarrow> go_error + manager" where
  "parse_templates io tr [] m = Inr m"
| "parse_templates io tr (templateFile # files) m =
     (let templateName = trim_suffix (Base templateFile) ''.yaml'' in
      case io_read (si_cases io) tr templateFile of
        Inl e \<Rightarrow> Inl (wrap (msg [''read the file '', sq templateFile]) e)
      | Inr content \<Rightarrow>
          (case si_parse io templateName content of
             Inl e \<Rightarrow> Inl (wrap (msg [''parse the template '', sq templateFile]) e)
           | Inr tmpl \<Rightarrow>
               parse_templates io tr files (m\<lparr>templates := AList.update templateName tmpl (templates m)\<rparr>)))"

definition parse :: "suite_io \<Rightarrow> ev list \<Rightarrow> string \<Rightarrow> manager \<Rightarrow> go_error + manager" where
  "parse io tr dir m =
     (case si_glob io tr (Join [dir, ''*.yaml'']) of
        Inl e \<Rightarrow> Inl (wrap (msg [''get blob from the dir '', sq dir]) e)
      | Inr files \<Rightarrow> parse_templates io tr files m)"

definition NewManager :: "suite_io \<Rightarrow> ev list \<Rightarrow> string \<Rightarrow> go_error + manager" where
  "NewManager io tr dir = parse io tr dir \<lparr>templates = []\<rparr>"

section \<open>A suite and its report\<close>

definition testAnnotation :: string where
  "testAnnotation = ''testing.kube2e.io/test''"

record test =
  t_Path :: string
  t_Name :: string

definition newTest :: "string \<Rightarrow> test" where
  "newTest dir = \<lparr>t_Path = dir, t_Name = Base dir\<rparr>"

definition CasesDir :: "test \<Rightarrow> string" where
  "CasesDir t = Join [t_Path t, ''cases'']"

definition TemplatesDir :: "test \<Rightarrow> string" where
  "TemplatesDir t = Join [t_Path t, ''templates'']"

record test_report =
  tr_Path :: string
  tr_Name :: string
  tr_Passed :: nat
  tr_Failed :: nat
  tr_Total :: nat
  tr_State :: run_state
  tr_Reason :: string
  tr_StartedAt :: time
  tr_FinishedAt :: time
  tr_Duration :: duration
  tr_Stats :: stats
  tr_Cases :: "case_report list"

definition countCases :: "case_report list \<Rightarrow> nat \<times> nat" where
  "countCases reports = foldl (\<lambda>(passed, failed) report.
     case cr_State report of
       StatePassed \<Rightarrow> (passed + 1, failed)
     | StateSkipped \<Rightarrow> (passed + 1, failed)
     | StateFailed \<Rightarrow> (passed, failed + 1)
     | StateUnset \<Rightarrow> (passed, failed)) (0, 0) reports"

definition sumStats :: "case_report list \<Rightarrow> stats" where
  "sumStats reports = foldl (\<lambda>stats report. Add stats (cr_Stats report)) no_stats reports"

definition test_newReport :: "env \<Rightarrow> test \<Rightarrow> ev list \<Rightarrow> test_report \<times> ev list" where
  "test_newReport E t tr =
     (let (s, tr) = now E tr in
      (\<lparr>tr_Path = t_Path t, tr_Name = t_Name t, tr_Passed = 0, tr_Failed = 0, tr_Total = 0,
        tr_State = StateUnset, tr_Reason = [], tr_StartedAt = s, tr_FinishedAt = 0, tr_Duration = 0,
        tr_Stats = no_stats, tr_Cases = []\<rparr>, tr))"

definition test_finishReport :: "env \<Rightarrow> test_report \<Rightarrow> go_error option \<Rightarrow> ev list \<Rightarrow>
    (test_report \<times> go_error option) \<times> ev list" where
  "test_finishReport E report err tr =
     (let (t, tr) = now E tr;
          report = report\<lparr>tr_FinishedAt := t, tr_Duration := t - tr_StartedAt report,
            tr_Total := length (tr_Cases report), tr_Stats := sumStats (tr_Cases report)\<rparr> in
      case err of
        Some e \<Rightarrow>
          let report = report\<lparr>tr_State := StateFailed\<rparr> in
          ((if tr_Reason report = [] then report\<lparr>tr_Reason := err_text e\<rparr> else report, Some e), tr)
      | None \<Rightarrow> ((report\<lparr>tr_State := StatePassed\<rparr>, None), tr))"

section \<open>Running a suite\<close>

record test_config =
  tf_TestDir :: string
  tf_Tags :: "string list"
  tf_Namespace :: string
  tf_ForceConflicts :: bool
  tf_DryRun :: bool

text \<open>The variables the closure \<^verbatim>\<open>execFunc\<close> captures: the report and the joined error.\<close>

type_synonym exec_state = "(test_report \<times> go_error option) \<times> ev list"

definition case_config_of :: "test_config \<Rightarrow> manager \<Rightarrow> string \<Rightarrow> string \<Rightarrow> case_config" where
  "case_config_of conf tmpl name casePath = \<lparr>cc_DryRun = tf_DryRun conf, cc_ForceConflicts = tf_ForceConflicts conf,
     cc_Template = tmpl, cc_Path = casePath, cc_Tags = tf_Tags conf, cc_Namespace = tf_Namespace conf,
     cc_Annotations = [(testAnnotation, name)]\<rparr>"

definition execFunc :: "env \<Rightarrow> case_io \<Rightarrow> ctx \<Rightarrow> test_config \<Rightarrow> manager \<Rightarrow> string \<Rightarrow> string \<Rightarrow> exec_state \<Rightarrow>
    go_error option \<times> exec_state" where
  "execFunc E io c conf tmpl name casePath = (\<lambda>((report, runErr), tr).
     case Run_case E io c (case_config_of conf tmpl name casePath) tr of
       ((caseReport, caseErr), tr) \<Rightarrow>
         let report = report\<lparr>tr_Cases := tr_Cases report @ [caseReport]\<rparr>;
             report = report\<lparr>tr_Passed := fst (countCases (tr_Cases report)),
                             tr_Failed := snd (countCases (tr_Cases report))\<rparr> in
         (case caseErr of
            None \<Rightarrow> (None, ((report, runErr), tr))
          | Some e \<Rightarrow>
              if errors_is e Canceled \<or> errors_is e DeadlineExceeded then (Some e, ((report, runErr), tr))
              else
                (None,
                 ((report\<lparr>tr_Reason := msg [''case '', go_quote (Base casePath), '' failed: '', err_text e]\<rparr>,
                   errors_join [runErr, Some (wrap (msg [''run case '', sq (Base casePath)]) e)]), tr))))"

fun forEach_loop :: "(string \<Rightarrow> 's \<Rightarrow> go_error option \<times> 's) \<Rightarrow> string \<Rightarrow> string list \<Rightarrow> 's \<Rightarrow> go_error option \<times> 's" where
  "forEach_loop f dir [] s = (None, s)"
| "forEach_loop f dir (name # names) s =
     (case f (Join [dir, name]) s of
        (Some e, s') \<Rightarrow> (Some e, s')
      | (None, s') \<Rightarrow> forEach_loop f dir names s')"

definition case_names :: "dir_entry list \<Rightarrow> string list" where
  "case_names entries = map d_name (filter (\<lambda>e. \<not> (d_isdir e \<or> Ext (d_name e) \<noteq> ''.yaml'')) entries)"

definition forEach :: "suite_io \<Rightarrow> ev list \<Rightarrow> test \<Rightarrow> (string \<Rightarrow> 's \<Rightarrow> go_error option \<times> 's) \<Rightarrow> 's \<Rightarrow> go_error option \<times> 's" where
  "forEach io tr t f s =
     (case si_readdir io tr (CasesDir t) of
        Inl (missing, e) \<Rightarrow>
          if missing then (None, s) else (Some (wrap (msg [''read the cases dir '', sq (CasesDir t)]) e), s)
      | Inr entries \<Rightarrow> forEach_loop f (CasesDir t) (case_names entries) s)"

definition Run_test :: "env \<Rightarrow> suite_io \<Rightarrow> ctx \<Rightarrow> test_config \<Rightarrow> ev list \<Rightarrow>
    (test_report \<times> go_error option) \<times> ev list" where
  "Run_test E io c conf tr =
     (let t = newTest (tf_TestDir conf);
          (report, tr) = test_newReport E t tr in
      case NewManager io tr (TemplatesDir t) of
        Inl e \<Rightarrow> test_finishReport E report (Some (wrap ''create template manager'' e)) tr
      | Inr tmpl \<Rightarrow>
          (case forEach io tr t (execFunc E (si_cases io) c conf tmpl (t_Name t)) ((report, None), tr) of
             (Some e, ((report, runErr), tr)) \<Rightarrow> test_finishReport E report (Some e) tr
           | (None, ((report, runErr), tr)) \<Rightarrow> test_finishReport E report runErr tr))"

end
