(* ===== verification/Test_Contracts.thy ===== *)
theory Test_Contracts
  imports Test_Run
begin

text \<open>
  What a suite run promises: it refines the plain sequence of its cases (\<open>case_seq\<close>), which goes
  on after a failed case and stops only when the context of the run has ended; the counts and
  statistics of its report are those of the cases; in dry-run mode nothing reaches the cluster.
\<close>

section \<open>Counting cases\<close>

interpretation cases: tally cr_State "{StatePassed, StateSkipped}" countCases
  by unfold_locales (auto simp: countCases_def case_prod_beta split: run_state.splits)

interpretation cstats: stats_total cr_Stats sumStats
  by unfold_locales (simp_all add: sumStats_def)

section \<open>The sequence of cases\<close>

type_synonym case_result = "case_report \<times> go_error option"

definition aborts :: "case_result \<Rightarrow> bool" where
  "aborts x = (case snd x of None \<Rightarrow> False | Some e \<Rightarrow> ctx_error e)"

fun case_seq :: "(string \<Rightarrow> ev list \<Rightarrow> case_result \<times> ev list) \<Rightarrow> string list \<Rightarrow> ev list \<Rightarrow> case_result list \<times> ev list" where
  "case_seq run [] tr = ([], tr)"
| "case_seq run (p # ps) tr =
     (case run p tr of
        (x, tr1) \<Rightarrow>
          if aborts x then ([x], tr1)
          else (case case_seq run ps tr1 of (xs, tr2) \<Rightarrow> (x # xs, tr2)))"

lemma case_seq_length:
  assumes "case_seq run ps tr = (xs, tr')" and "\<forall>x \<in> set xs. \<not> aborts x"
  shows "length xs = length ps"
  using assms by (induction ps arbitrary: tr xs) (auto split: prod.splits if_splits)

lemma case_seq_relates:
  assumes "reflp R" and "transp R" and "\<And>p tr. R tr (snd (run p tr))"
  shows "R tr (snd (case_seq run ps tr))"
proof (induction ps arbitrary: tr)
  case Nil
  show ?case using assms(1) by (simp add: reflpD)
next
  case (Cons p ps)
  obtain x tr1 where r: "run p tr = (x, tr1)" by (cases "run p tr")
  have "R tr tr1" using assms(3) [of tr p] r by simp
  moreover have "R tr (snd (case_seq run ps tr1))"
    using calculation Cons.IH assms(2) by (blast dest: transpD)
  ultimately show ?case using r by (simp add: case_prod_beta)
qed

text \<open>What every case result of the sequence satisfies, whatever each run guarantees.\<close>

lemma case_seq_all:
  assumes "\<And>p tr. P (fst (run p tr))"
  shows "\<forall>x \<in> set (fst (case_seq run ps tr)). P x"
proof (induction ps arbitrary: tr)
  case Nil
  show ?case by simp
next
  case (Cons p ps)
  then show ?case using assms [of p tr] by (auto simp: case_prod_beta)
qed

section \<open>The loop refines the sequence\<close>

definition test_counts_ok :: "test_report \<Rightarrow> bool" where
  "test_counts_ok r = ((tr_Passed r, tr_Failed r) = countCases (tr_Cases r))"

definition add_case :: "test_report \<Rightarrow> case_report \<Rightarrow> test_report" where
  "add_case report r = report\<lparr>tr_Cases := tr_Cases report @ [r],
     tr_Passed := fst (countCases (tr_Cases report @ [r])), tr_Failed := snd (countCases (tr_Cases report @ [r]))\<rparr>"

lemma add_case_parts [simp]:
  "tr_Cases (add_case report r) = tr_Cases report @ [r]" "test_counts_ok (add_case report r)"
  "tr_StartedAt (add_case report r) = tr_StartedAt report" "tr_Name (add_case report r) = tr_Name report"
  by (simp_all add: add_case_def test_counts_ok_def)

lemma reason_counts [simp]: "test_counts_ok (r\<lparr>tr_Reason := m\<rparr>) = test_counts_ok r"
  by (simp add: test_counts_ok_def)

lemma execFunc_eq:
  assumes "Run_case E io c (case_config_of conf tmpl name p) tr = ((r, err), tr1)"
  shows "execFunc E io c conf tmpl name p ((report, runErr), tr) =
    (case err of
       None \<Rightarrow> (None, ((add_case report r, runErr), tr1))
     | Some e \<Rightarrow>
         if ctx_error e then (Some e, ((add_case report r, runErr), tr1))
         else (None, (((add_case report r)\<lparr>tr_Reason := msg [''case '', go_quote (Base p), '' failed: '', err_text e]\<rparr>,
                       errors_join [runErr, Some (wrap (msg [''run case '', sq (Base p)]) e)]), tr1)))"
  by (cases err) (simp_all add: execFunc_def assms add_case_def ctx_error_def Let_def)

lemma execFunc_step:
  assumes "Run_case E io c (case_config_of conf tmpl name p) tr = (x, tr1)"
  shows "\<exists>report' runErr'.
    execFunc E io c conf tmpl name p ((report, runErr), tr) =
      (if aborts x then snd x else None, ((report', runErr'), tr1)) \<and>
    tr_Cases report' = tr_Cases report @ [fst x] \<and> test_counts_ok report' \<and>
    tr_StartedAt report' = tr_StartedAt report \<and> tr_Name report' = tr_Name report \<and>
    (\<not> aborts x \<longrightarrow> (runErr' = None \<longleftrightarrow> runErr = None \<and> snd x = None))"
proof -
  obtain r err where x: "x = (r, err)" by (cases x)
  note eq = execFunc_eq [OF assms [unfolded x], of report runErr]
  show ?thesis
  proof (cases err)
    case None
    then show ?thesis by (simp add: eq x aborts_def)
  next
    case (Some e)
    have "\<exists>y. errors_join [runErr, Some e'] = Some y" for e'
      using errors_join_second(1) [of runErr e'] by (cases "errors_join [runErr, Some e']") simp_all
    with Some show ?thesis by (cases "ctx_error e") (simp_all add: eq x aborts_def)
  qed
qed

lemma forEach_loop_seq:
  assumes "case_seq (\<lambda>p. Run_case E io c (case_config_of conf tmpl name p)) (map (\<lambda>n. Join [dir, n]) names) tr = (xs, tr1)"
    and "test_counts_ok report"
  shows "\<exists>a report' runErr'.
    forEach_loop (execFunc E io c conf tmpl name) dir names ((report, runErr), tr) = (a, ((report', runErr'), tr1)) \<and>
    tr_Cases report' = tr_Cases report @ map fst xs \<and> test_counts_ok report' \<and>
    tr_StartedAt report' = tr_StartedAt report \<and> tr_Name report' = tr_Name report \<and>
    (a = None \<longleftrightarrow> (\<forall>x \<in> set xs. \<not> aborts x)) \<and> (a \<noteq> None \<longrightarrow> a = snd (last xs)) \<and>
    (a = None \<longrightarrow> (runErr' = None \<longleftrightarrow> runErr = None \<and> (\<forall>x \<in> set xs. snd x = None)))"
  using assms
proof (induction names arbitrary: tr xs report runErr)
  case Nil
  then show ?case by simp
next
  case (Cons n names)
  let ?p = "Join [dir, n]"
  obtain x tr2 where r: "Run_case E io c (case_config_of conf tmpl name ?p) tr = (x, tr2)"
    by (cases "Run_case E io c (case_config_of conf tmpl name ?p) tr")
  obtain report1 runErr1 where ex:
    "execFunc E io c conf tmpl name ?p ((report, runErr), tr) = (if aborts x then snd x else None, ((report1, runErr1), tr2))"
    and st: "tr_Cases report1 = tr_Cases report @ [fst x]" "test_counts_ok report1"
    "tr_StartedAt report1 = tr_StartedAt report" "tr_Name report1 = tr_Name report"
    "\<not> aborts x \<longrightarrow> (runErr1 = None \<longleftrightarrow> runErr = None \<and> snd x = None)"
    using execFunc_step [OF r, of report runErr] by (elim exE conjE)
  show ?case
  proof (cases "aborts x")
    case True
    then obtain e where "snd x = Some e" by (auto simp: aborts_def split: option.splits)
    with True Cons.prems(1) r ex st show ?thesis by auto
  next
    case False
    obtain ys where ys: "case_seq (\<lambda>p. Run_case E io c (case_config_of conf tmpl name p))
        (map (\<lambda>n. Join [dir, n]) names) tr2 = (ys, tr1)" "xs = x # ys"
      using Cons.prems(1) r False by (auto split: prod.splits)
    from Cons.IH [OF ys(1) st(2), of runErr1] obtain a report' runErr' where ih:
      "forEach_loop (execFunc E io c conf tmpl name) dir names ((report1, runErr1), tr2) = (a, ((report', runErr'), tr1))"
      "tr_Cases report' = tr_Cases report1 @ map fst ys" "test_counts_ok report'"
      "tr_StartedAt report' = tr_StartedAt report1" "tr_Name report' = tr_Name report1"
      "a = None \<longleftrightarrow> (\<forall>x \<in> set ys. \<not> aborts x)" "a \<noteq> None \<longrightarrow> a = snd (last ys)"
      "a = None \<longrightarrow> (runErr' = None \<longleftrightarrow> runErr1 = None \<and> (\<forall>x \<in> set ys. snd x = None))"
      by (elim exE conjE)
    have "a \<noteq> None \<longrightarrow> ys \<noteq> []" using ih(6) by auto
    then have lst: "a \<noteq> None \<longrightarrow> a = snd (last xs)" using ih(7) ys(2) by simp
    have cs: "tr_Cases report' = tr_Cases report @ map fst xs" using ih(2) st(1) ys(2) by simp
    have ab: "a = None \<longleftrightarrow> (\<forall>x \<in> set xs. \<not> aborts x)" using ih(6) False ys(2) by simp
    have er: "a = None \<longrightarrow> (runErr' = None \<longleftrightarrow> runErr = None \<and> (\<forall>x \<in> set xs. snd x = None))"
      using ih(8) st(5) False ys(2) by simp
    have run: "forEach_loop (execFunc E io c conf tmpl name) dir (n # names) ((report, runErr), tr) =
        (a, ((report', runErr'), tr1))"
      using ih(1) ex False by simp
    from run cs ih(3) ih(4) [unfolded st(3)] ih(5) [unfolded st(4)] ab lst er show ?thesis by blast
  qed
qed

section \<open>The verdict of a suite\<close>

lemma test_finish_parts:
  assumes "test_finishReport E r err tr = ((r', err'), tr')"
  shows "err' = err" and "tr' = tr @ [EvNow (env_now E tr)]" and "tr_Cases r' = tr_Cases r"
    and "tr_Passed r' = tr_Passed r" and "tr_Failed r' = tr_Failed r" and "tr_Total r' = length (tr_Cases r)"
    and "tr_Stats r' = sumStats (tr_Cases r)" and "tr_Duration r' = tr_FinishedAt r' - tr_StartedAt r'"
    and "tr_State r' = (if err = None then StatePassed else StateFailed)"
  using assms
  by (auto simp: test_finishReport_def Let_def case_prod_beta split: option.splits)

text \<open>How a suite run ends, over the sequence of its cases.\<close>

inductive suite_ended :: "env \<Rightarrow> suite_io \<Rightarrow> ctx \<Rightarrow> test_config \<Rightarrow> ev list \<Rightarrow> case_result list \<Rightarrow> go_error option \<Rightarrow>
    ev list \<Rightarrow> bool"
  for E io c conf tr where
  broken: "suite_ended E io c conf tr [] (Some e) tr"
| no_cases: "suite_ended E io c conf tr [] None tr"
| ran: "\<lbrakk>NewManager io tr (TemplatesDir (newTest (tf_TestDir conf))) = Inr tmpl;
         si_readdir io tr (CasesDir (newTest (tf_TestDir conf))) = Inr entries;
         case_seq (\<lambda>p. Run_case E (si_cases io) c (case_config_of conf tmpl (Base (tf_TestDir conf)) p))
           (map (\<lambda>n. Join [CasesDir (newTest (tf_TestDir conf)), n]) (case_names entries)) tr = (xs, tr1);
         err = None \<longleftrightarrow> (\<forall>x \<in> set xs. snd x = None)\<rbrakk>
        \<Longrightarrow> suite_ended E io c conf tr xs err tr1"

lemma not_aborts: "\<forall>x \<in> set xs. snd x = None \<Longrightarrow> \<forall>x \<in> set xs. \<not> aborts x"
  by (auto simp: aborts_def)

lemma Run_test_ended:
  assumes "Run_test E io c conf tr = ((r, err), tr')"
  obtains xs r1 tr1 where "suite_ended E io c conf (tr @ [EvNow (env_now E tr)]) xs err tr1"
    "tr_Cases r1 = map fst xs" "test_counts_ok r1" "test_finishReport E r1 err tr1 = ((r, err), tr')"
proof -
  let ?t = "newTest (tf_TestDir conf)" and ?tr = "tr @ [EvNow (env_now E tr)]"
  obtain r0 tr0 where n: "test_newReport E ?t tr = (r0, tr0)" by (metis surj_pair)
  have n0: "tr0 = ?tr" "tr_Cases r0 = []" "test_counts_ok r0"
    using n by (auto simp: test_newReport_def Let_def case_prod_beta test_counts_ok_def countCases_def)
  show ?thesis
  proof (cases "NewManager io ?tr (TemplatesDir ?t)")
    case (Inl e)
    then have fin: "test_finishReport E r0 (Some (wrap ''create template manager'' e)) ?tr = ((r, err), tr')"
      using assms n n0 by (simp add: Run_test_def Let_def)
    then show ?thesis
      using that [of "[]" ?tr r0] n0 test_finish_parts(1) [OF fin] suite_ended.broken by simp
  next
    case mgr: (Inr tmpl)
    show ?thesis
    proof (cases "si_readdir io ?tr (CasesDir ?t)")
      case (Inl m)
      then have fin: "test_finishReport E r0 (if fst m then None
          else Some (wrap (msg [''read the cases dir '', sq (CasesDir ?t)]) (snd m))) ?tr = ((r, err), tr')"
        using assms n n0 mgr by (cases m; cases "fst m") (simp_all add: Run_test_def Let_def forEach_def)
      then show ?thesis
        using that [of "[]" ?tr r0] n0 test_finish_parts(1) [OF fin] suite_ended.broken suite_ended.no_cases
        by (cases "fst m") simp_all
    next
      case dir: (Inr entries)
      let ?run = "\<lambda>p. Run_case E (si_cases io) c (case_config_of conf tmpl (Base (tf_TestDir conf)) p)"
      obtain xs tr1 where seq: "case_seq ?run (map (\<lambda>n. Join [CasesDir ?t, n]) (case_names entries)) ?tr = (xs, tr1)"
        by (metis surj_pair)
      obtain a r1 runErr where loop: "forEach_loop (execFunc E (si_cases io) c conf tmpl (Base (tf_TestDir conf)))
          (CasesDir ?t) (case_names entries) ((r0, None), ?tr) = (a, ((r1, runErr), tr1))"
        and parts: "tr_Cases r1 = tr_Cases r0 @ map fst xs" "test_counts_ok r1"
          "a = None \<longleftrightarrow> (\<forall>x \<in> set xs. \<not> aborts x)"
          "a = None \<longrightarrow> (runErr = None \<longleftrightarrow> None = (None :: go_error option) \<and> (\<forall>x \<in> set xs. snd x = None))"
        using forEach_loop_seq [OF seq n0(3), of None] by (elim exE conjE) (rule that)
      have fin: "test_finishReport E r1 (if a = None then runErr else a) tr1 = ((r, err), tr')"
        using assms n n0 mgr dir loop
        by (cases a) (simp_all add: Run_test_def Let_def forEach_def newTest_def)
      have err: "err = (if a = None then runErr else a)" using test_finish_parts(1) [OF fin] by simp
      have "err = None \<longleftrightarrow> (\<forall>x \<in> set xs. snd x = None)"
      proof (cases "a = None")
        case True
        then have "err = runErr" using err by simp
        with True parts(4) show ?thesis by blast
      next
        case False
        then have "err \<noteq> None" using err by auto
        with False parts(3) not_aborts [of xs] show ?thesis by blast
      qed
      with mgr dir seq have "suite_ended E io c conf ?tr xs err tr1" by (rule suite_ended.ran)
      then show ?thesis using that parts n0 fin err by simp
    qed
  qed
qed

text \<open>The verdict of a suite report.\<close>

definition test_verdict :: "test_report \<times> go_error option \<Rightarrow> bool" where
  "test_verdict res =
     (let r = fst res in
      tr_Total r = length (tr_Cases r) \<and> tr_Passed r + tr_Failed r = tr_Total r \<and>
      tr_Failed r = length (filter (\<lambda>x. cr_State x = StateFailed) (tr_Cases r)) \<and>
      tr_Stats r = sumStats (tr_Cases r) \<and> tr_Duration r = tr_FinishedAt r - tr_StartedAt r \<and>
      (if snd res = None then tr_State r = StatePassed \<and> tr_Failed r = 0 else tr_State r = StateFailed))"

lemma case_verdict_state:
  "case_verdict conf (r, None) \<Longrightarrow> cr_State r \<in> {StatePassed, StateSkipped}"
  "case_verdict conf (r, Some e) \<Longrightarrow> cr_State r = StateFailed"
  by (auto simp: case_verdict_def Let_def)

lemma suite_ended_states:
  assumes "suite_ended E io c conf tr xs err tr1" and "x \<in> set xs"
  shows "cr_State (fst x) \<in> insert StateFailed {StatePassed, StateSkipped}"
    and "snd x = None \<Longrightarrow> cr_State (fst x) \<in> {StatePassed, StateSkipped}"
proof -
  have "\<exists>cf. case_verdict cf x"
    using assms
  proof (cases rule: suite_ended.cases)
    case (ran tmpl entries)
    have "\<forall>x \<in> set (fst (case_seq (\<lambda>p. Run_case E (si_cases io) c (case_config_of conf tmpl (Base (tf_TestDir conf)) p))
        (map (\<lambda>n. Join [CasesDir (newTest (tf_TestDir conf)), n]) (case_names entries)) tr)). \<exists>cf. case_verdict cf x"
      by (rule case_seq_all) (blast intro: Run_case_verdict)
    with ran(3) assms(2) show ?thesis by simp
  qed simp_all
  then show "cr_State (fst x) \<in> insert StateFailed {StatePassed, StateSkipped}"
    and "snd x = None \<Longrightarrow> cr_State (fst x) \<in> {StatePassed, StateSkipped}"
    using case_verdict_state by (cases x; cases "snd x"; fastforce)+
qed

lemma Run_test_verdict: "test_verdict (fst (Run_test E io c conf tr))"
proof -
  obtain r err tr' where run: "Run_test E io c conf tr = ((r, err), tr')" by (metis surj_pair)
  then obtain xs r1 tr1 where ended: "suite_ended E io c conf (tr @ [EvNow (env_now E tr)]) xs err tr1"
    and cs: "tr_Cases r1 = map fst xs" "test_counts_ok r1" "test_finishReport E r1 err tr1 = ((r, err), tr')"
    by (rule Run_test_ended)
  note fin = test_finish_parts [OF cs(3)]
  note st = suite_ended_states [OF ended]
  have counts: "(tr_Passed r, tr_Failed r) = countCases (tr_Cases r)"
    using cs(2) fin by (simp add: test_counts_ok_def)
  have all: "cr_State y \<in> insert StateFailed {StatePassed, StateSkipped}" if "y \<in> set (tr_Cases r)" for y
    using that st(1) cs(1) fin(3) by auto
  have sum: "tr_Passed r + tr_Failed r = length (tr_Cases r)"
    using cases.tally_total [of "tr_Cases r"] all by (simp add: counts [symmetric])
  have failed: "tr_Failed r = length (filter (\<lambda>x. cr_State x = StateFailed) (tr_Cases r))"
    using counts by (simp add: cases.tally_filter)
  have "tr_Failed r = 0" if "err = None"
  proof -
    have "\<forall>x \<in> set xs. snd x = None" using ended that by (cases rule: suite_ended.cases) auto
    then have "\<forall>y \<in> set (tr_Cases r). cr_State y \<noteq> StateFailed" using st(2) cs(1) fin(3) by force
    then show ?thesis using failed by (simp add: filter_empty_conv)
  qed
  with run fin sum failed show ?thesis by (auto simp: test_verdict_def)
qed

section \<open>Dry run\<close>

text \<open>The history grew by clock readings and delays only.\<close>

definition calm :: "ev list \<Rightarrow> ev list \<Rightarrow> bool" where
  "calm tr tr' = (\<exists>sfx. tr' = tr @ sfx \<and> list_all local_event sfx)"

lemma calm_refl [simp]: "calm tr tr"
  by (auto simp: calm_def)

lemma calm_trans [trans]: "calm a b \<Longrightarrow> calm b c \<Longrightarrow> calm a c"
  by (auto simp: calm_def)

lemma calm_preorder: "reflp calm" "transp calm"
  by (auto intro: reflpI transpI calm_trans)

lemma calm_event: "local_event x \<Longrightarrow> calm tr (tr @ [x])"
  by (auto simp: calm_def)

lemma quiet_calm: "quiet (sv, tr) (sv', tr') \<Longrightarrow> calm tr tr'"
  by (auto simp: quiet_def calm_def)

lemma case_finish_calm: "case_finishReport E r err tr = (res, tr') \<Longrightarrow> calm tr tr'"
  by (auto simp: case_finishReport_def Let_def case_prod_beta calm_event split: option.splits)

lemma New_service_dry:
  "New_service E (kube_options conf) = Inr sv \<Longrightarrow> svc_dryRun sv = cc_DryRun conf"
  by (auto simp: New_service_def kube_options_def WithNamespace_def WithForceConflicts_def WithDryRun_def Let_def
      split: if_splits option.splits)

lemma Run_case_calm:
  assumes dry: "cc_DryRun conf"
  shows "calm tr (snd (Run_case E io c conf tr))"
proof -
  let ?tr1 = "tr @ [EvNow (env_now E tr)]"
  have c1: "calm tr ?tr1" by (rule calm_event) simp
  have fin: "calm tr (snd (case_finishReport E r err t))" if "calm tr t" for r err t
    using that case_finish_calm [of E r err t] calm_trans by (metis prod.collapse)
  show ?thesis
  proof (cases "parseCaseFile io ?tr1 (cc_Path conf)")
    case (Inl e)
    then show ?thesis using fin [OF c1] by (simp add: Run_case_def Let_def case_prod_beta)
  next
    case (Inr tc)
    obtain r0 tr2 where n: "case_newReport E (Some tc) ?tr1 = (r0, tr2)" by (metis surj_pair)
    have c2: "calm tr tr2"
      using c1 calm_event [of "EvNow (env_now E ?tr1)" ?tr1] case_newReport_parts(1) [OF n] calm_trans by auto
    have c3: "calm tr (tr2 @ [EvNow t])" for t using c2 calm_event calm_trans by (metis local_event.simps(1))
    show ?thesis
    proof (cases "New_service E (kube_options conf)")
      case (Inl e)
      with Inr n c3 fin [OF c2] show ?thesis by (auto simp: Run_case_def Let_def case_prod_beta)
    next
      case svc: (Inr sv)
      have d: "svc_dryRun sv" using New_service_dry [OF svc] dry by simp
      obtain ne svk trk where ns: "ensure_namespace E c conf (sv, tr2) = (ne, (svk, trk))" by (metis surj_pair)
      have nsq: "ne = None" "svk = sv" "trk = tr2"
        using ns d by (auto simp: ensure_namespace_def Ensure_def split: if_splits)
      obtain res sv1 tr3 where rc: "run_case E c (case_service_of conf tc) (Some tc) (sv, tr2) = (res, (sv1, tr3))"
        by (metis surj_pair)
      have "quiet (sv, tr2) (sv1, tr3)"
        using dry.rel_case [of "(sv, tr2)" E c "case_service_of conf tc" "Some tc"] rc d by simp
      then have "calm tr tr3" using c2 quiet_calm calm_trans by blast
      with Inr n svc ns nsq rc c3 fin show ?thesis
        by (auto simp: Run_case_def Let_def case_prod_beta)
    qed
  qed
qed

lemma Run_test_calm:
  assumes "tf_DryRun conf"
  shows "calm tr (snd (Run_test E io c conf tr))"
proof -
  obtain r err tr' where run: "Run_test E io c conf tr = ((r, err), tr')" by (metis surj_pair)
  let ?tr1 = "tr @ [EvNow (env_now E tr)]"
  from run obtain xs r1 tr1 where ended: "suite_ended E io c conf ?tr1 xs err tr1"
    and fin: "test_finishReport E r1 err tr1 = ((r, err), tr')"
    by (rule Run_test_ended)
  have "calm tr ?tr1" by (rule calm_event) simp
  also have "calm ?tr1 tr1"
    using ended
  proof (cases rule: suite_ended.cases)
    case (ran tmpl entries)
    have "calm t (snd (Run_case E (si_cases io) c (case_config_of conf tmpl (Base (tf_TestDir conf)) p) t))" for p t
      by (rule Run_case_calm) (simp add: case_config_of_def assms)
    from case_seq_relates [of calm "\<lambda>p. Run_case E (si_cases io) c (case_config_of conf tmpl (Base (tf_TestDir conf)) p)",
        OF calm_preorder this] ran(3)
    show ?thesis by (metis snd_conv)
  qed simp_all
  also have "calm tr1 tr'" using test_finish_parts(2) [OF fin] calm_event by simp
  finally show ?thesis using run by simp
qed

end
