(* ===== verification/Engine_Run.thy ===== *)
theory Engine_Run
  imports Test_Contracts
begin

text \<open>
  The engine (\<^verbatim>\<open>src/pkg/engine\<close> and \<^verbatim>\<open>src/internal/tools/workerpool\<close>): discovery of the suite
  directories, the bounded worker pool, and the aggregate report.

  The pool hands one closure per suite to an \<^verbatim>\<open>errgroup\<close>, which is not part of the repository: it
  is the parameter \<open>grp\<close>. A closure runs its suite on its own and then, in one critical
  section, writes two shared maps; as a function on the maps it is that critical section. The
  contract \<open>worker_group\<close> says that the group executes the critical sections of all its closures,
  each once, in some order. A suite sees its own history, and its own world (the effects of the
  suites running beside it are part of that world): one environment per directory.
\<close>

section \<open>The worker pool\<close>

text \<open>
  \<open>grp n f xs s\<close>: go for each of \<open>xs\<close> with limit \<open>n\<close> and wait. With a limit of zero a group
  starts nothing, so the contract asks for a positive limit.
\<close>

type_synonym ('o, 's) group_fun = "int \<Rightarrow> ('o \<Rightarrow> 's \<Rightarrow> go_error option \<times> 's) \<Rightarrow> 'o list \<Rightarrow> 's \<Rightarrow> go_error option \<times> 's"

definition pool_Do :: "('o, 's) group_fun \<Rightarrow> ctx \<Rightarrow> int \<Rightarrow> (ctx \<Rightarrow> 'o \<Rightarrow> 's \<Rightarrow> go_error option \<times> 's) \<Rightarrow>
    'o list \<Rightarrow> 's \<Rightarrow> go_error option \<times> 's" where
  "pool_Do grp c n fn objects s =
     (if length objects = 0 then (None, s) else grp n (\<lambda>obj. fn (GroupCtx c) obj) objects s)"

locale worker_group =
  fixes grp :: "('o, 's) group_fun"
  assumes group_runs: "0 < n \<Longrightarrow>
      \<exists>order. mset order = mset xs \<and> snd (grp n f xs s) = foldl (\<lambda>s x. snd (f x s)) s order"
    and group_error: "0 < n \<Longrightarrow> fst (grp n f xs s) = Some e \<Longrightarrow> \<exists>x \<in> set xs. \<exists>s'. fst (f x s') = Some e"
begin

lemma pool_no_error:
  assumes "0 < n" and "\<And>x s. fst (fn (GroupCtx c) x s) = None"
  shows "fst (pool_Do grp c n fn xs s) = None"
proof (cases "fst (grp n (\<lambda>obj. fn (GroupCtx c) obj) xs s)")
  case None
  then show ?thesis by (simp add: pool_Do_def)
next
  case (Some e)
  from group_error [OF assms(1) this] show ?thesis using assms(2) by auto
qed

lemma pool_order:
  assumes "0 < n"
  shows "\<exists>order. mset order = mset xs \<and> snd (pool_Do grp c n fn xs s) = foldl (\<lambda>s x. snd (fn (GroupCtx c) x s)) s order"
  using group_runs [OF assms, of xs "\<lambda>obj. fn (GroupCtx c) obj" s] by (auto simp: pool_Do_def)

end

text \<open>A group that runs the closures one after another keeps the contract.\<close>

fun group_seq :: "('o, 's) group_fun" where
  "group_seq n f [] s = (None, s)"
| "group_seq n f (x # xs) s =
     (case f x s of
        (e, s') \<Rightarrow> (case group_seq n f xs s' of (e', s'') \<Rightarrow> (if e = None then e' else e, s'')))"

lemma group_seq_state: "snd (group_seq n f xs s) = foldl (\<lambda>s x. snd (f x s)) s xs"
  by (induction xs arbitrary: s) (simp_all add: case_prod_beta)

lemma group_seq_error: "fst (group_seq n f xs s) = Some e \<Longrightarrow> \<exists>x \<in> set xs. \<exists>s'. fst (f x s') = Some e"
proof (induction xs arbitrary: s)
  case Nil
  then show ?case by simp
next
  case (Cons x xs)
  then show ?case by (cases "fst (f x s)") (auto simp: case_prod_beta)
qed

interpretation one_by_one: worker_group group_seq
  by unfold_locales (auto intro: group_seq_state dest: group_seq_error)

section \<open>Configuration and report\<close>

record remote =
  rm_Ref :: string
  rm_Username :: string
  rm_Password :: string

record engine_config =
  ec_WorkDir :: string
  ec_Tags :: "string list"
  ec_Namespace :: string
  ec_ForceConflicts :: bool
  ec_Parallel :: int
  ec_Remote :: remote
  ec_DryRun :: bool

record remote_report =
  rr_Ref :: string
  rr_Digest :: string
  rr_Username :: string

record engine_report =
  er_DryRun :: bool
  er_Namespace :: string
  er_ForceConflicts :: bool
  er_Remote :: "remote_report option"
  er_StartedAt :: time
  er_FinishedAt :: time
  er_Duration :: duration
  er_Passed :: nat
  er_Failed :: nat
  er_Total :: nat
  er_Tests :: "test_report list"

definition countTests :: "test_report list \<Rightarrow> nat \<times> nat" where
  "countTests reports = foldl (\<lambda>(passed, failed) report.
     case tr_State report of
       StatePassed \<Rightarrow> (passed + 1, failed)
     | StateSkipped \<Rightarrow> (passed + 1, failed)
     | StateFailed \<Rightarrow> (passed, failed + 1)
     | StateUnset \<Rightarrow> (passed, failed)) (0, 0) reports"

definition engine_newReport :: "env \<Rightarrow> engine_config \<Rightarrow> ev list \<Rightarrow> engine_report \<times> ev list" where
  "engine_newReport E cfg tr =
     (let (t, tr) = now E tr in
      (\<lparr>er_DryRun = ec_DryRun cfg, er_Namespace = ec_Namespace cfg, er_ForceConflicts = ec_ForceConflicts cfg,
        er_Remote = (if rm_Ref (ec_Remote cfg) \<noteq> []
          then Some \<lparr>rr_Ref = rm_Ref (ec_Remote cfg), rr_Digest = [], rr_Username = rm_Username (ec_Remote cfg)\<rparr>
          else None),
        er_StartedAt = t, er_FinishedAt = 0, er_Duration = 0, er_Passed = 0, er_Failed = 0, er_Total = 0,
        er_Tests = []\<rparr>, tr))"

definition engine_finishReport :: "env \<Rightarrow> engine_report \<Rightarrow> go_error option \<Rightarrow> ev list \<Rightarrow>
    (engine_report \<times> go_error option) \<times> ev list" where
  "engine_finishReport E report err tr =
     (let (t, tr) = now E tr in
      ((report\<lparr>er_FinishedAt := t, er_Duration := t - er_StartedAt report\<rparr>, err), tr))"

section \<open>Running local suites\<close>

definition suite_dirs :: "string \<Rightarrow> dir_entry list \<Rightarrow> string list" where
  "suite_dirs workDir entries =
     map (\<lambda>e. Join [workDir, d_name e])
       (filter (\<lambda>e. d_isdir e \<and> \<not> prefix ''.'' (d_name e)) entries)"

definition test_config_of :: "engine_config \<Rightarrow> string \<Rightarrow> test_config" where
  "test_config_of cfg dir = \<lparr>tf_TestDir = dir, tf_Tags = ec_Tags cfg, tf_Namespace = ec_Namespace cfg,
     tf_ForceConflicts = ec_ForceConflicts cfg, tf_DryRun = ec_DryRun cfg\<rparr>"

text \<open>The shared maps \<^verbatim>\<open>reports\<close> and \<^verbatim>\<open>testErrs\<close>.\<close>

type_synonym suite_maps = "(string \<times> test_report) list \<times> (string \<times> go_error) list"

definition suite_worker :: "(string \<Rightarrow> env) \<Rightarrow> suite_io \<Rightarrow> engine_config \<Rightarrow> ev list \<Rightarrow> ctx \<Rightarrow> string \<Rightarrow>
    suite_maps \<Rightarrow> go_error option \<times> suite_maps" where
  "suite_worker W io cfg tr c dir = (\<lambda>(reports, testErrs).
     case Run_test (W dir) io c (test_config_of cfg dir) tr of
       ((testReport, testErr), tr') \<Rightarrow>
         (None, (AList.update dir testReport reports,
                 case testErr of None \<Rightarrow> testErrs | Some e \<Rightarrow> AList.update dir e testErrs)))"

fun collect :: "suite_maps \<Rightarrow> string list \<Rightarrow> test_report list \<times> go_error option list" where
  "collect m [] = ([], [])"
| "collect m (dir # dirs) =
     (case collect m dirs of
        (tests, errs) \<Rightarrow>
          (case map_of (fst m) dir of Some r \<Rightarrow> r # tests | None \<Rightarrow> tests,
           case map_of (snd m) dir of
             Some e \<Rightarrow> Some (wrap (msg [''test '', go_quote (Base dir)]) e) # errs
           | None \<Rightarrow> errs))"

definition runLocal :: "env \<Rightarrow> (string \<Rightarrow> env) \<Rightarrow> suite_io \<Rightarrow> (string, suite_maps) group_fun \<Rightarrow> ctx \<Rightarrow> engine_config \<Rightarrow>
    ev list \<Rightarrow> (engine_report \<times> go_error option) \<times> ev list" where
  "runLocal E W io grp c cfg tr =
     (let (report, tr) = engine_newReport E cfg tr in
      case si_readdir io tr (ec_WorkDir cfg) of
        Inl (missing, e) \<Rightarrow>
          engine_finishReport E report (Some (wrap (msg [''read work dir '', sq (ec_WorkDir cfg)]) e)) tr
      | Inr entries \<Rightarrow>
          let dirs = suite_dirs (ec_WorkDir cfg) entries;
              report = report\<lparr>er_Total := length dirs\<rparr> in
          (case pool_Do grp c (max (ec_Parallel cfg) 1) (suite_worker W io cfg tr) dirs ([], []) of
             (runErr, maps) \<Rightarrow>
               (case collect maps dirs of
                  (tests, errs) \<Rightarrow>
                    let report = report\<lparr>er_Tests := er_Tests report @ tests\<rparr>;
                        report = report\<lparr>er_Passed := fst (countTests (er_Tests report)),
                                        er_Failed := snd (countTests (er_Tests report))\<rparr> in
                    engine_finishReport E report (errors_join (runErr # errs)) tr)))"

section \<open>The report does not depend on the schedule\<close>

interpretation tests: tally tr_State "{StatePassed, StateSkipped}" countTests
  by unfold_locales (auto simp: countTests_def case_prod_beta split: run_state.splits)

abbreviation suite_result :: "(string \<Rightarrow> env) \<Rightarrow> suite_io \<Rightarrow> engine_config \<Rightarrow> ev list \<Rightarrow> ctx \<Rightarrow> string \<Rightarrow>
    test_report \<times> go_error option" where
  "suite_result W io cfg tr c dir \<equiv> fst (Run_test (W dir) io c (test_config_of cfg dir) tr)"

lemma workers_write:
  assumes "m = foldl (\<lambda>s x. snd (suite_worker W io cfg tr c x s)) m0 order"
  shows "map_of (fst m) dir =
      (if dir \<in> set order then Some (fst (suite_result W io cfg tr c dir)) else map_of (fst m0) dir)"
    and "map_of (snd m) dir =
      (if dir \<in> set order \<and> snd (suite_result W io cfg tr c dir) \<noteq> None
       then snd (suite_result W io cfg tr c dir) else map_of (snd m0) dir)"
  unfolding assms
  by (induction order rule: rev_induct)
    (auto simp: suite_worker_def case_prod_beta update_conv' split: option.splits)

lemma collect_all:
  assumes "\<And>d. d \<in> set dirs \<Longrightarrow> map_of (fst m) d = Some (fst (res d))"
    and "\<And>d. d \<in> set dirs \<Longrightarrow> map_of (snd m) d = snd (res d)"
  shows "fst (collect m dirs) = map (\<lambda>d. fst (res d)) dirs"
    and "(\<forall>x \<in> set (snd (collect m dirs)). x = None) \<longleftrightarrow> (\<forall>d \<in> set dirs. snd (res d) = None)"
  using assms by (induction dirs) (auto simp: case_prod_beta split: option.splits)

lemma engine_finish_parts:
  "engine_finishReport E r err tr =
     ((r\<lparr>er_FinishedAt := env_now E tr, er_Duration := env_now E tr - er_StartedAt r\<rparr>, err), tr @ [EvNow (env_now E tr)])"
  by (simp add: engine_finishReport_def Let_def case_prod_beta)

context worker_group
begin

lemma pool_keeps_schedule_out:
  assumes "0 < n"
  shows "\<exists>order. set order = set xs \<and> snd (pool_Do grp c n fn xs s) = foldl (\<lambda>s x. snd (fn (GroupCtx c) x s)) s order"
  using pool_order [OF assms, of xs c fn s] by (metis set_mset_mset)

end

lemma runLocal_contract:
  assumes "worker_group grp" and dir: "si_readdir io (tr @ [EvNow (env_now E tr)]) (ec_WorkDir cfg) = Inr entries"
    and run: "runLocal E W io grp c cfg tr = ((r, err), tr')"
  shows "er_Tests r = map (\<lambda>d. fst (suite_result W io cfg (tr @ [EvNow (env_now E tr)]) (GroupCtx c) d))
          (suite_dirs (ec_WorkDir cfg) entries)"
    and "err = None \<longleftrightarrow> (\<forall>d \<in> set (suite_dirs (ec_WorkDir cfg) entries).
          snd (suite_result W io cfg (tr @ [EvNow (env_now E tr)]) (GroupCtx c) d) = None)"
    and "er_Total r = length (er_Tests r)"
    and "(er_Passed r, er_Failed r) = countTests (er_Tests r)"
proof -
  let ?tr = "tr @ [EvNow (env_now E tr)]" and ?dirs = "suite_dirs (ec_WorkDir cfg) entries"
  let ?res = "suite_result W io cfg ?tr (GroupCtx c)" and ?n = "max (ec_Parallel cfg) 1"
  obtain e m where pool: "pool_Do grp c ?n (suite_worker W io cfg ?tr) ?dirs ([], []) = (e, m)" by (metis surj_pair)
  have n: "0 < ?n" by simp
  have noerr: "fst (suite_worker W io cfg ?tr (GroupCtx c) x s) = None" for x s
    by (cases s) (simp add: suite_worker_def case_prod_beta)
  have e: "e = None"
    using worker_group.pool_no_error [OF assms(1) n, of "suite_worker W io cfg ?tr" c ?dirs] noerr pool by (metis fst_conv)
  obtain order where order: "set order = set ?dirs"
    "m = foldl (\<lambda>s x. snd (suite_worker W io cfg ?tr (GroupCtx c) x s)) ([], []) order"
    using worker_group.pool_keeps_schedule_out [OF assms(1) n, of ?dirs c "suite_worker W io cfg ?tr" "([], [])"] pool
    by auto
  have m: "map_of (fst m) d = Some (fst (?res d))" "map_of (snd m) d = snd (?res d)" if "d \<in> set ?dirs" for d
    using workers_write [OF order(2), of d] that order(1) by (auto split: if_splits)
  note col = collect_all [of ?dirs m ?res, OF m]
  have r: "r = (fst (engine_newReport E cfg tr))\<lparr>er_Total := length ?dirs, er_Tests := fst (collect m ?dirs),
      er_Passed := fst (countTests (fst (collect m ?dirs))), er_Failed := snd (countTests (fst (collect m ?dirs))),
      er_FinishedAt := env_now E ?tr, er_Duration := env_now E ?tr - env_now E tr\<rparr>"
    and err: "err = errors_join (None # snd (collect m ?dirs))"
    using run dir pool e
    by (auto simp: runLocal_def engine_newReport_def engine_finish_parts Let_def case_prod_beta)
  show "er_Tests r = map (\<lambda>d. fst (?res d)) ?dirs" using r col(1) by simp
  show "err = None \<longleftrightarrow> (\<forall>d \<in> set ?dirs. snd (?res d) = None)"
    using err col(2) by (simp add: errors_join_None_iff)
  show "er_Total r = length (er_Tests r)" using r col(1) by simp
  show "(er_Passed r, er_Failed r) = countTests (er_Tests r)" using r by simp
qed

text \<open>What the maps hold at the end does not depend on the group.\<close>

lemma pool_maps:
  assumes "worker_group grp" and "pool_Do grp c (max p 1) (suite_worker W io cfg tr) dirs ([], []) = (e, m)"
  shows "e = None" and "d \<in> set dirs \<Longrightarrow> map_of (fst m) d = Some (fst (suite_result W io cfg tr (GroupCtx c) d))"
    and "d \<in> set dirs \<Longrightarrow> map_of (snd m) d = snd (suite_result W io cfg tr (GroupCtx c) d)"
proof -
  have n: "0 < max p 1" by simp
  have noerr: "fst (suite_worker W io cfg tr (GroupCtx c) x s) = None" for x s
    by (cases s) (simp add: suite_worker_def case_prod_beta)
  show "e = None"
    using worker_group.pool_no_error [OF assms(1) n, of "suite_worker W io cfg tr" c dirs] noerr assms(2) by (metis fst_conv)
  obtain order where order: "set order = set dirs"
    "m = foldl (\<lambda>s x. snd (suite_worker W io cfg tr (GroupCtx c) x s)) ([], []) order"
    using worker_group.pool_keeps_schedule_out [OF assms(1) n, of dirs c "suite_worker W io cfg tr" "([], [])"] assms(2)
    by auto
  show "d \<in> set dirs \<Longrightarrow> map_of (fst m) d = Some (fst (suite_result W io cfg tr (GroupCtx c) d))"
    using workers_write(1) [OF order(2), of d] order(1) by simp
  show "d \<in> set dirs \<Longrightarrow> map_of (snd m) d = snd (suite_result W io cfg tr (GroupCtx c) d)"
    using workers_write(2) [OF order(2), of d] order(1) by (auto split: if_splits)
qed

lemma collect_cong:
  assumes "\<And>d. d \<in> set dirs \<Longrightarrow> map_of (fst m) d = map_of (fst m') d \<and> map_of (snd m) d = map_of (snd m') d"
  shows "collect m dirs = collect m' dirs"
  using assms by (induction dirs) simp_all

lemma runLocal_same:
  assumes "worker_group g1" and "worker_group g2"
  shows "runLocal E W io g1 c cfg tr = runLocal E W io g2 c cfg tr"
proof -
  let ?tr = "tr @ [EvNow (env_now E tr)]"
  have tr1: "snd (engine_newReport E cfg tr) = ?tr" by (simp add: engine_newReport_def Let_def case_prod_beta)
  have same: "(case pool_Do g1 c (max (ec_Parallel cfg) 1) (suite_worker W io cfg ?tr) dirs ([], []) of (e, m) \<Rightarrow> (e, collect m dirs)) =
      (case pool_Do g2 c (max (ec_Parallel cfg) 1) (suite_worker W io cfg ?tr) dirs ([], []) of (e, m) \<Rightarrow> (e, collect m dirs))" for dirs
  proof -
    obtain e1 m1 where p1: "pool_Do g1 c (max (ec_Parallel cfg) 1) (suite_worker W io cfg ?tr) dirs ([], []) = (e1, m1)"
      by (metis surj_pair)
    obtain e2 m2 where p2: "pool_Do g2 c (max (ec_Parallel cfg) 1) (suite_worker W io cfg ?tr) dirs ([], []) = (e2, m2)"
      by (metis surj_pair)
    have "collect m1 dirs = collect m2 dirs"
      using pool_maps(2,3) [OF assms(1) p1] pool_maps(2,3) [OF assms(2) p2] by (intro collect_cong) simp
    then show ?thesis using pool_maps(1) [OF assms(1) p1] pool_maps(1) [OF assms(2) p2] p1 p2 by simp
  qed
  show ?thesis
  proof (cases "si_readdir io ?tr (ec_WorkDir cfg)")
    case (Inl m)
    with tr1 show ?thesis by (simp add: runLocal_def Let_def case_prod_beta)
  next
    case (Inr entries)
    with tr1 same [of "suite_dirs (ec_WorkDir cfg) entries"] show ?thesis
      by (simp add: runLocal_def Let_def case_prod_beta)
  qed
qed

lemma worker_group_rev: "worker_group (\<lambda>n f xs. group_seq n f (rev xs))"
proof (unfold_locales, goal_cases)
  case (1 n xs f s)
  show ?case by (rule exI [of _ "rev xs"]) (simp add: group_seq_state)
next
  case (2 n f xs s e)
  then show ?case using group_seq_error [of n f "rev xs" s e] by simp
qed

lemma test_verdict_state:
  "test_verdict res \<Longrightarrow> tr_State (fst res) = (if snd res = None then StatePassed else StateFailed)"
  by (auto simp: test_verdict_def Let_def split: if_splits)

lemma runLocal_summary:
  assumes "worker_group grp" and "si_readdir io (tr @ [EvNow (env_now E tr)]) (ec_WorkDir cfg) = Inr entries"
    and "runLocal E W io grp c cfg tr = ((r, err), tr')"
  shows "er_Tests r = map (\<lambda>d. fst (suite_result W io cfg (tr @ [EvNow (env_now E tr)]) (GroupCtx c) d))
      (suite_dirs (ec_WorkDir cfg) entries) \<and>
    (err = None \<longleftrightarrow> (\<forall>d \<in> set (suite_dirs (ec_WorkDir cfg) entries).
      snd (suite_result W io cfg (tr @ [EvNow (env_now E tr)]) (GroupCtx c) d) = None)) \<and>
    er_Total r = length (suite_dirs (ec_WorkDir cfg) entries) \<and>
    er_Passed r + er_Failed r = er_Total r \<and> (err = None \<longleftrightarrow> er_Failed r = 0)"
proof -
  let ?dirs = "suite_dirs (ec_WorkDir cfg) entries"
  let ?res = "suite_result W io cfg (tr @ [EvNow (env_now E tr)]) (GroupCtx c)"
  note con = runLocal_contract [OF assms]
  have st: "tr_State (fst (?res d)) = (if snd (?res d) = None then StatePassed else StateFailed)" for d
    by (rule test_verdict_state) (rule Run_test_verdict)
  have pf: "er_Passed r = fst (countTests (er_Tests r))" "er_Failed r = snd (countTests (er_Tests r))"
    using con(4) by (metis fst_conv, metis snd_conv)
  have "er_Passed r + er_Failed r = length (er_Tests r)"
    unfolding pf
  proof (rule tests.tally_total)
    fix x assume "x \<in> set (er_Tests r)"
    then obtain d where "x = fst (?res d)" unfolding con(1) by auto
    then show "tr_State x \<in> insert StateFailed {StatePassed, StateSkipped}" by (simp add: st)
  qed
  moreover have "er_Failed r = 0 \<longleftrightarrow> (\<forall>d \<in> set ?dirs. snd (?res d) = None)"
    unfolding pf tests.no_failed_iff con(1) by (simp add: st)
  ultimately show ?thesis using con by simp
qed

end
