(* ===== verification/Example_Cluster.thy ===== *)
theory Example_Cluster
  imports Kube_Pods
begin

text \<open>
  A small executable cluster: the witnesses of the properties evaluate the model on it. Its state
  is read from the history: an object exists when it was applied and not deleted since. Kinds
  other than Namespace are namespaced; every pod runs; JSON and YAML are taken apart by constant functions.
\<close>

fun live_after :: "kobj list \<Rightarrow> ev \<Rightarrow> kobj list" where
  "live_after os (EvApply c obj opts None) = obj # filter (\<lambda>o'. appliedKey o' \<noteq> appliedKey obj) os"
| "live_after os (EvDelete c obj None) = filter (\<lambda>o'. appliedKey o' \<noteq> appliedKey obj) os"
| "live_after os x = os"

definition live :: "ev list \<Rightarrow> kobj list" where
  "live tr = foldl live_after [] tr"

definition not_found :: go_error where
  "not_found = ApiStatus NotFound ''not found''"

definition lookup_live :: "ev list \<Rightarrow> gvk \<Rightarrow> objkey \<Rightarrow> go_error + kobj" where
  "lookup_live tr g k =
     (case filter (\<lambda>o'. gvk_kind (o_gvk o') = gvk_kind g \<and> o_name o' = key_name k \<and> o_namespace o' = key_namespace k) (live tr) of
        [] \<Rightarrow> Inl not_found
      | o' # os \<Rightarrow> Inr o')"

definition example_object :: "string \<Rightarrow> string \<Rightarrow> kobj" where
  "example_object kind name = \<lparr>o_gvk = \<lparr>gvk_group = [], gvk_version = ''v1'', gvk_kind = kind\<rparr>, o_name = name,
     o_namespace = [], o_annotations = [], o_typed = False, o_body = JNull\<rparr>"

definition cluster_base :: env where
  "cluster_base = \<lparr>
     env_now = (\<lambda>tr. int (length tr)),
     env_delay = (\<lambda>tr c d. None),
     env_ctx_err = (\<lambda>tr c. None),
     env_mapping = (\<lambda>tr g. Inr (gvk_kind g \<noteq> ''Namespace'')),
     env_get = (\<lambda>tr c g k. lookup_live tr g k),
     env_apply = (\<lambda>tr c obj os. None),
     env_update = (\<lambda>tr c obj. None),
     env_delete = (\<lambda>tr c obj. case lookup_live tr (o_gvk obj) (ObjectKeyFromObject obj) of Inl e \<Rightarrow> Some e | Inr o' \<Rightarrow> None),
     env_list = (\<lambda>tr c g k ns. Inr []),
     env_pods = (\<lambda>tr c ns sel. Inr [\<lparr>pod_name = ''web-0'', phase_of = PodRunning\<rparr>]),
     env_logs = (\<lambda>tr c ns p ct t. Inr (Inr ''ready'')),
     env_exec = (\<lambda>tr c ns p ct cmd. None),
     env_executor = (\<lambda>ns p. None),
     env_poll = (\<lambda>tr c m d. []),
     env_version = (\<lambda>tr. Inr ''v1.30''),
     env_on_error = (\<lambda>b p f s. f s),
     env_on_error_w = (\<lambda>b p f s. f s),
     env_poll_until = (\<lambda>c i t im f s. (None, s)),
     env_DefaultBackoff = \<lparr>bo_steps = 4, bo_duration = 10000000, bo_factor = 5\<rparr>,
     env_order = (\<lambda>tr m. m),
     env_client = None,
     env_to_unstructured = (\<lambda>obj. Inr obj),
     env_content = o_body,
     env_marshal = (\<lambda>obj. Inr (o_body obj)),
     env_gvk_string = gvk_kind,
     env_nested_string_map = (\<lambda>j p. Inr (Some [(''app'', ''web'')])),
     env_labels_string = (\<lambda>m. join '','' (map (\<lambda>(k, v). k @ ''='' @ v) m)),
     env_labels_parse = Inr,
     env_jq_parse = Inr,
     env_jq_run = (\<lambda>tr c q j. Some (JqValue (JBool True))),
     env_reparse = Inr,
     env_format_num = (\<lambda>s. s),
     env_decode_patch = Inr,
     env_apply_patch = (\<lambda>p b j. Inr j),
     env_decode_object = (\<lambda>j. Inr (example_object ''ConfigMap'' ''cm'')),
     env_tmpl_exec = (\<lambda>t v. Inr t),
     env_decode_yaml = (\<lambda>s. Inr (example_object ''ConfigMap'' s))\<rparr>"

text \<open>The example cluster with the reference retry and poll loops.\<close>

definition cluster :: env where
  "cluster = reference_env cluster_base"

lemma cluster_kube: "kube_env cluster"
  unfolding cluster_def by (rule reference.kube_env_axioms)

section \<open>A service on it\<close>

definition example_service :: service where
  "example_service = \<lparr>svc_namespace = ''e2e'', svc_applied = NewStore, svc_dryRun = False, svc_forceConflicts = False\<rparr>"

lemma example_service_simps [simp]:
  "\<not> svc_dryRun example_service" "\<not> svc_forceConflicts example_service" "svc_namespace example_service \<noteq> []"
  by (simp_all add: example_service_def)

definition example_cm :: kobj where
  "example_cm = example_object ''ConfigMap'' ''cm''"

definition applied_history :: "ev list" where
  "applied_history = [EvApply RunCtx (example_cm\<lparr>o_namespace := ''e2e''\<rparr>) [] None]"

lemma result_split: "fst res = x \<Longrightarrow> res = (x, (fst (snd res), snd (snd res)))"
  by (simp add: prod_eq_iff)

end
