(* ===== verification/Example_Suite.thy ===== *)
theory Example_Suite
  imports Engine_Run Example_Cluster
begin

text \<open>An example case with one ensure step, and a suite with two case files, on the example cluster.\<close>

section \<open>An example case\<close>

definition ensure_cm :: ensure_action where
  "ensure_cm = \<lparr>en_Object = ''cm'', en_Retry = None, en_Values = [], en_Delay = None, en_Timeout = None\<rparr>"

definition empty_step :: "string \<Rightarrow> step" where
  "empty_step name = \<lparr>st_Name = name, st_Description = [], st_Optional = False, st_Ensure = None, st_Patch = None,
     st_Wait = None, st_Assert = None, st_Logs = None, st_Exec = None, st_Delete = None\<rparr>"

definition ensure_step :: step where
  "ensure_step = (empty_step ''create'')\<lparr>st_Ensure := Some ensure_cm\<rparr>"

definition example_case :: case_file where
  "example_case = \<lparr>cf_Path = [], cf_Version = ''v1'', cf_Name = ''demo'', cf_Description = [], cf_Tags = [''smoke''],
     cf_Objects = [(''cm'', ''configmap'')], cf_Hooks = \<lparr>hk_BeforeEach = [], hk_AfterEach = []\<rparr>,
     cf_Steps = [Some ensure_step]\<rparr>"

definition example_io :: case_io where
  "example_io = \<lparr>io_read = (\<lambda>tr p. Inr p), io_unmarshal = (\<lambda>s. Inr example_case), io_validate = (\<lambda>tc. None)\<rparr>"

definition example_conf :: case_config where
  "example_conf = \<lparr>cc_DryRun = False, cc_ForceConflicts = False, cc_Template = \<lparr>templates = [(''configmap'', ''cm'')]\<rparr>,
     cc_Path = ''cases/demo.yaml'', cc_Tags = [], cc_Namespace = ''e2e'', cc_Annotations = []\<rparr>"

section \<open>An example suite\<close>

definition example_suite_io :: suite_io where
  "example_suite_io = \<lparr>si_cases = example_io,
     si_readdir = (\<lambda>tr d. Inr [\<lparr>d_name = ''a.yaml'', d_isdir = False\<rparr>, \<lparr>d_name = ''b.txt'', d_isdir = False\<rparr>,
                               \<lparr>d_name = ''c.yaml'', d_isdir = False\<rparr>, \<lparr>d_name = ''sub'', d_isdir = True\<rparr>]),
     si_glob = (\<lambda>tr p. Inr [''suite/templates/configmap.yaml'']),
     si_parse = (\<lambda>n s. Inr ''cm'')\<rparr>"

definition example_test_conf :: test_config where
  "example_test_conf = \<lparr>tf_TestDir = ''suite'', tf_Tags = [], tf_Namespace = ''e2e'', tf_ForceConflicts = False, tf_DryRun = False\<rparr>"

definition example_engine_conf :: engine_config where
  "example_engine_conf = \<lparr>ec_WorkDir = ''tests'', ec_Tags = [], ec_Namespace = ''e2e'', ec_ForceConflicts = False,
     ec_Parallel = 2, ec_Remote = \<lparr>rm_Ref = [], rm_Username = [], rm_Password = []\<rparr>, ec_DryRun = False\<rparr>"

end
