(* ===== verification/Kube_Contracts.thy ===== *)
theory Kube_Contracts
  imports Kube_Pods Kube_Cleanup
begin

text \<open>
  What the success of each operation of the Kubernetes service means, for every environment that
  keeps the contract \<open>kube_env\<close>: which request was sent last, with which answer. A retry loop of
  the client library may swallow a context error, so the operations built on more than one loop
  have a second way to succeed: their last request was cut off by the end of the context.
\<close>

section \<open>Requests that were cut off\<close>

fun cut_off :: "ev \<Rightarrow> bool" where
  "cut_off (EvMapping g (Inl e)) = ctx_error e"
| "cut_off (EvGet c g k (Inl e)) = ctx_error e"
| "cut_off (EvApply c obj os (Some e)) = ctx_error e"
| "cut_off (EvUpdate c obj (Some e)) = ctx_error e"
| "cut_off (EvDelete c obj (Some e)) = ctx_error e"
| "cut_off x = False"

section \<open>Ensure\<close>

text \<open>The request an ensure ends with: an accepted apply of an object of that kind and name.\<close>

fun applied_ok :: "ctx \<Rightarrow> bool \<Rightarrow> kobj \<Rightarrow> ev \<Rightarrow> bool" where
  "applied_ok c force obj (EvApply c' a os r) =
     (c' = c \<and> r = None \<and> os = applyOptions force \<and>
      (\<exists>ns. appliedKey a = join ''/'' [ns, gvk_kind (o_gvk obj), o_name obj]))"
| "applied_ok c force obj x = False"

definition ensure_inv :: "kobj \<Rightarrow> service \<Rightarrow> ostate \<Rightarrow> bool" where
  "ensure_inv obj0 sv0 = (\<lambda>(obj, sv, tr).
     o_gvk obj = o_gvk obj0 \<and> o_name obj = o_name obj0 \<and> same_config sv0 sv)"

lemma merge_annotations_fields [simp]:
  "o_gvk (merge_annotations a obj) = o_gvk obj" "o_name (merge_annotations a obj) = o_name obj"
  by (simp_all add: merge_annotations_def)

lemma ensure_inv_attempt:
  assumes "ensure_inv obj0 sv0 s"
  shows "ensure_inv obj0 sv0 (snd (ensure_attempt E c opts s))"
proof -
  obtain obj sv tr where s: "s = (obj, sv, tr)" by (cases s)
  obtain r obj1 sv1 tr1 where ns: "setNamespace E (obj, sv, tr) = (r, (obj1, sv1, tr1))" by (metis surj_pair)
  have I1: "ensure_inv obj0 sv0 (obj1, sv1, tr1)"
    using ns assms s by (cases rule: setNamespace_cases) (auto simp: ensure_inv_def)
  show ?thesis
    using ns I1 s by (auto simp: ensure_attempt_def ensure_inv_def same_config_def Let_def split: option.splits sum.splits)
qed

lemma ensure_inv_idle: "ensure_inv obj0 sv0 s \<Longrightarrow> idle_obj s s' \<Longrightarrow> ensure_inv obj0 sv0 s'"
  by (cases s; cases s') (auto simp: ensure_inv_def idle_obj_def)

lemma ensure_attempt_end:
  assumes conv: "\<And>obj raw. env_to_unstructured E obj = Inr raw \<Longrightarrow> appliedKey raw = appliedKey obj"
    and inv: "ensure_inv obj0 sv0 (obj, sv, tr)"
    and att: "ensure_attempt E c opts (obj, sv, tr) = (r, (obj', sv', tr'))"
    and res: "r = None \<or> (\<exists>e. r = Some e \<and> ctx_error e)"
  shows "tr' \<noteq> [] \<and> (applied_ok c (svc_forceConflicts sv0) obj0 (last tr') \<or> cut_off (last tr'))"
proof -
  obtain r1 obj1 sv1 tr1 where ns: "setNamespace E (obj, sv, tr) = (r1, (obj1, sv1, tr1))" by (metis surj_pair)
  define obj2 where "obj2 = merge_annotations (eo_Annotations opts) obj1"
  from ns show ?thesis
  proof (cases rule: setNamespace_cases)
    case no_gvk
    with ns att res show ?thesis by (auto simp: ensure_attempt_def)
  next
    case (unmapped e p)
    with ns att res show ?thesis by (auto simp: ensure_attempt_def)
  next
    case (mapped nsd)
    then have o2: "o_gvk obj2 = o_gvk obj0" "o_name obj2 = o_name obj0"
      using inv by (auto simp: obj2_def ensure_inv_def)
    have key: "\<exists>ns. appliedKey a = join ''/'' [ns, gvk_kind (o_gvk obj0), o_name obj0]"
      if "toApplyConfiguration E obj2 = Inr a" for a
      using toApply_key [OF conv that] o2 by (auto simp: appliedKey_def)
    have cfg: "svc_forceConflicts sv1 = svc_forceConflicts sv0"
      using mapped inv by (simp add: ensure_inv_def same_config_def)
    show ?thesis
    proof (cases "toApplyConfiguration E obj2")
      case (Inl e)
      then have "\<not> ctx_error e" by (auto simp: toApplyConfiguration_def split: if_splits sum.splits)
      with Inl mapped(1) ns att res show ?thesis
        by (auto simp: ensure_attempt_def obj2_def [symmetric])
    next
      case (Inr a)
      define g where "g = env_get E tr1 c (o_gvk obj2) (ObjectKeyFromObject obj2)"
      show ?thesis
      proof (cases "get_failure g")
        case (Some e)
        then have "g = Inl e" by (auto simp: get_failure_def split: sum.splits if_splits)
        with Some Inr mapped(1) ns att res show ?thesis
          by (auto simp: ensure_attempt_def obj2_def [symmetric] g_def [symmetric])
      next
        case None
        with Inr mapped(1) ns att res key [OF Inr] cfg show ?thesis
          by (auto simp: ensure_attempt_def Let_def obj2_def [symmetric] g_def [symmetric] split: option.splits)
      qed
    qed
  qed
qed

section \<open>Patch, Check and Exec\<close>

text \<open>
  A patch ends with an accepted update of what the patches make of the object as it was just read.
\<close>

definition patched_ok :: "env \<Rightarrow> ctx \<Rightarrow> kobj \<Rightarrow> patch_op list \<Rightarrow> ev list \<Rightarrow> bool" where
  "patched_ok E c obj ps tr' =
     (\<exists>tr1 live p. tr' = tr1 @ [EvGet c (o_gvk obj) (ObjectKeyFromObject obj) (Inr live), EvUpdate c p None] \<and>
        Patches_Apply E ps (Some live) True = Inr p)"

lemma Patches_Apply_no_ctx: "Patches_Apply E ps objp b = Inl e \<Longrightarrow> \<not> ctx_error e"
  by (auto simp: Patches_Apply_def split: option.splits sum.splits)

lemma patch_attempt_end:
  assumes "patch_attempt E c obj ps tr = (r, tr')" and "r = None \<or> (\<exists>e. r = Some e \<and> ctx_error e)"
  shows "patched_ok E c obj ps tr' \<or> cut_off (last tr')"
proof (cases "env_get E tr c (o_gvk obj) (ObjectKeyFromObject obj)")
  case (Inl e)
  with assms show ?thesis by (auto simp: patch_attempt_def)
next
  case (Inr live)
  show ?thesis
  proof (cases "Patches_Apply E ps (Some live) True")
    case (Inl e)
    with Inr assms Patches_Apply_no_ctx [OF Inl] show ?thesis by (auto simp: patch_attempt_def)
  next
    case (Inr p)
    with \<open>env_get E tr c _ _ = Inr live\<close> assms show ?thesis
      by (cases "env_update E (tr @ [EvGet c (o_gvk obj) (ObjectKeyFromObject obj) (Inr live)]) c p")
        (auto simp: patch_attempt_def patched_ok_def Let_def)
  qed
qed

text \<open>A check ends with a read whose object satisfies every condition.\<close>

definition checked_ok :: "env \<Rightarrow> ctx \<Rightarrow> string list \<Rightarrow> ev list \<Rightarrow> bool" where
  "checked_ok E c conds tr' =
     (\<exists>tr1 g k live parsed. tr' = tr1 @ [EvGet c g k (Inr live)] \<and> toUnstructured E live = Inr parsed \<and>
        (\<forall>cond \<in> set conds. Pass E tr' c parsed cond = Inr True))"

lemma check_conditions_None:
  "check_conditions E tr c obj conds = None \<longleftrightarrow> (\<forall>cond \<in> set conds. Pass E tr c obj cond = Inr True)"
  by (induction conds) (auto split: sum.splits bool.splits)

lemma check_attempt_end:
  assumes "check_attempt E c conds s = (None, (obj', sv', tr'))"
  shows "checked_ok E c conds tr'"
proof -
  obtain obj sv tr where s: "s = (obj, sv, tr)" by (cases s)
  obtain r obj1 sv1 tr1 where ns: "setNamespace E (obj, sv, tr) = (r, (obj1, sv1, tr1))" by (metis surj_pair)
  have r: "r = None" using assms ns s by (cases r) (auto simp: check_attempt_def)
  obtain live where live: "env_get E tr1 c (o_gvk obj1) (ObjectKeyFromObject obj1) = Inr live"
    using assms ns s r by (auto simp: check_attempt_def Let_def split: sum.splits)
  obtain parsed where "toUnstructured E live = Inr parsed"
    using assms ns s r live by (auto simp: check_attempt_def Let_def split: sum.splits)
  with assms ns s r live show ?thesis
    by (auto simp: check_attempt_def Let_def checked_ok_def check_conditions_None)
qed

text \<open>An exec ends with the command run without error in the pod the target resolves to.\<close>

definition executed_ok :: "env \<Rightarrow> service \<Rightarrow> ctx \<Rightarrow> pod_target \<Rightarrow> string \<Rightarrow> string list \<Rightarrow> ev list \<Rightarrow> bool" where
  "executed_ok E sv c target container cmd tr' =
     (\<exists>tr0 tr1 ns p. resolvePodForExec E sv c target tr0 = (Inr (ns, p), tr1) \<and>
        tr' = tr1 @ [EvExec c ns p container cmd None])"

lemma exec_attempt_end:
  assumes "exec_attempt E sv c target cmd container tr = (None, tr')"
  shows "executed_ok E sv c target container cmd tr'"
proof -
  obtain r tr1 where p: "resolvePodForExec E sv c target tr = (r, tr1)" by (metis surj_pair)
  show ?thesis
  proof (cases r)
    case (Inl e)
    with p assms show ?thesis by (simp add: exec_attempt_def)
  next
    case (Inr x)
    obtain ns pod where x: "x = (ns, pod)" by (cases x)
    have "env_exec E tr1 c ns pod container cmd = None"
      using p Inr x assms by (auto simp: exec_attempt_def Let_def split: option.splits if_splits)
    with p Inr x assms show ?thesis
      by (auto simp: exec_attempt_def executed_ok_def Let_def split: option.splits)
  qed
qed

section \<open>The operations\<close>

context kube_env
begin

lemma Ensure_success:
  assumes run: "Ensure E c (Some obj) opts (sv, tr) = (None, (sv', tr'))" and live: "\<not> svc_dryRun sv"
    and steps: "0 < bo_steps (eo_Retry (foldl (\<lambda>o' opt. opt o') newEnsureOptions opts))"
  shows "tr' \<noteq> [] \<and> (applied_ok c (svc_forceConflicts sv) obj (last tr') \<or> cut_off (last tr'))"
proof -
  let ?o = "foldl (\<lambda>o' opt. opt o') newEnsureOptions opts"
  let ?f = "ensure_attempt E c ?o"
  let ?loop = "env_on_error E (eo_Retry ?o) (\<lambda>_. True)
    (env_on_error E (env_DefaultBackoff E) (is_reason ServerTimeout)
      (env_on_error E (env_DefaultBackoff E) (is_reason ServiceUnavailable) ?f)) (obj, sv, tr)"
  have loop: "\<exists>obj'. ?loop = (None, (obj', sv', tr'))"
    using run live by (auto simp: Ensure_def Let_def retryAlways_fun split: prod.splits)
  have start: "ensure_inv obj sv (obj, sv, tr)" by (simp add: ensure_inv_def)
  have "\<exists>s1. ensure_inv obj sv s1 \<and> snd (?f s1) = snd ?loop \<and>
      (fst (?f s1) = fst ?loop \<or> (\<exists>e. fst (?f s1) = Some e \<and> ctx_error e))"
    using steps start ensure_inv_attempt ensure_inv_idle by (rule on_error3_last)
  then obtain s1 where s1: "ensure_inv obj sv s1" "snd (?f s1) = snd ?loop"
      "fst (?f s1) = fst ?loop \<or> (\<exists>e. fst (?f s1) = Some e \<and> ctx_error e)" by auto
  obtain obj1 sv1 tr1 where s1': "s1 = (obj1, sv1, tr1)" by (cases s1)
  obtain r obj' where att: "?f (obj1, sv1, tr1) = (r, (obj', sv', tr'))"
    "r = None \<or> (\<exists>e. r = Some e \<and> ctx_error e)"
    using loop s1(2,3) s1' by (cases "?f (obj1, sv1, tr1)") auto
  show ?thesis using convert_key s1(1) [unfolded s1'] att by (rule ensure_attempt_end)
qed

lemma Patch_success:
  assumes run: "Patch E c (Some obj) ps opts (sv, tr) = (None, (sv', tr'))" and live: "\<not> svc_dryRun sv"
    and steps: "0 < bo_steps (foldl (\<lambda>o' opt. opt o') (retryBackoff 1 0) opts)"
  shows "(\<exists>obj'. o_gvk obj' = o_gvk obj \<and> o_name obj' = o_name obj \<and> patched_ok E c obj' ps tr') \<or> cut_off (last tr')"
proof -
  let ?b = "foldl (\<lambda>o' opt. opt o') (retryBackoff 1 0) opts"
  obtain r1 obj1 sv1 tr1 where ns: "setNamespace E (obj, sv, tr) = (r1, (obj1, sv1, tr1))" by (metis surj_pair)
  have r1: "r1 = None" using run live ns by (cases r1) (auto simp: Patch_def)
  let ?f = "patch_attempt E c obj1 ps"
  let ?in = "env_on_error_w E (env_DefaultBackoff E) (is_reason Conflict) ?f"
  have loop: "env_on_error_w E ?b (\<lambda>_. True) ?in tr1 = (None, tr')"
    using run live ns r1 by (auto simp: Patch_def Let_def retryAlways_fun split: prod.splits)
  have "\<exists>s1. True \<and> ?in s1 = env_on_error_w E ?b (\<lambda>_. True) ?in tr1"
    using steps TrueI TrueI TrueI by (rule raws.on_error_always)
  then obtain s2 where s2: "?in s2 = (None, tr')" using loop by auto
  have "\<exists>s1. True \<and> snd (?f s1) = snd (?in s2) \<and>
      (fst (?f s1) = fst (?in s2) \<or> (\<exists>e. fst (?f s1) = Some e \<and> \<not> is_reason Conflict e \<and> ctx_error e))"
    using default_steps TrueI TrueI TrueI by (rule raws.on_error_last)
  then obtain s1 where s1: "snd (?f s1) = tr'" "fst (?f s1) = None \<or> (\<exists>e. fst (?f s1) = Some e \<and> ctx_error e)"
    using s2 by auto
  have att: "?f s1 = (fst (?f s1), tr')" using s1(1) by (simp add: prod_eq_iff)
  have o1: "o_gvk obj1 = o_gvk obj" "o_name obj1 = o_name obj"
    using setNamespace_idem_key [OF ns [unfolded r1]] by simp_all
  from patch_attempt_end [OF att s1(2)] o1 show ?thesis by auto
qed

lemma Check_success:
  assumes run: "Check E c (Some obj) conds opts (sv, tr) = (None, (sv', tr'))" and live: "\<not> svc_dryRun sv"
    and steps: "0 < bo_steps (foldl (\<lambda>o' opt. opt o') (retryBackoff 1 0) opts)"
  shows "checked_ok E c conds tr'"
proof -
  let ?b = "foldl (\<lambda>o' opt. opt o') (retryBackoff 1 0) opts" and ?f = "check_attempt E c conds"
  have "\<exists>s1. True \<and> ?f s1 = env_on_error E ?b (\<lambda>_. True) ?f (obj, sv, tr)"
    using steps TrueI TrueI TrueI by (rule objs.on_error_always)
  then obtain s1 where "?f s1 = env_on_error E ?b (\<lambda>_. True) ?f (obj, sv, tr)" by auto
  then obtain obj' where "?f s1 = (None, (obj', sv', tr'))"
    using run live by (auto simp: Check_def Let_def retryAlways_fun split: prod.splits)
  then show ?thesis by (rule check_attempt_end)
qed

lemma Exec_success:
  assumes run: "Exec E c target cmd opts (sv, tr) = (None, (sv', tr'))" and live: "\<not> svc_dryRun sv"
    and ok: "validate_target target = None"
    and steps: "0 < bo_steps (xo_retry (foldl (\<lambda>o' opt. opt o') new_exec_options opts))"
    and o': "o' = foldl (\<lambda>o' opt. opt o') new_exec_options opts"
  shows "executed_ok E sv (if 0 < xo_timeout o' then WithTimeout c (xo_timeout o') else c) target (xo_container o') cmd tr'"
  unfolding o'
proof -
  let ?o = "foldl (\<lambda>o' opt. opt o') new_exec_options opts"
  let ?c = "if 0 < xo_timeout ?o then WithTimeout c (xo_timeout ?o) else c"
  let ?f = "exec_attempt E sv ?c target cmd (xo_container ?o)"
  have "\<exists>s1. True \<and> ?f s1 = env_on_error_w E (xo_retry ?o) (\<lambda>_. True) ?f tr"
    using steps TrueI TrueI TrueI by (rule raws.on_error_always)
  then obtain s1 where "?f s1 = env_on_error_w E (xo_retry ?o) (\<lambda>_. True) ?f tr" by auto
  then have "?f s1 = (None, tr')"
    using run live ok by (auto simp: Exec_def Let_def retryAlways_fun split: prod.splits)
  then show "executed_ok E sv ?c target (xo_container ?o) cmd tr'" by (rule exec_attempt_end)
qed

end

end
