(* ===== verification/Pod_Contracts.thy ===== *)
theory Pod_Contracts
  imports Kube_Contracts Actions
begin

text \<open>
  What success means for the operations that watch: waiting on the status poller, the three match
  policies of the log check, and how often a command can be executed.
\<close>

section \<open>Wait\<close>

text \<open>The event that lets a wait succeed.\<close>

definition satisfies :: "env \<Rightarrow> ev list \<Rightarrow> ctx \<Rightarrow> wait_options \<Rightarrow> obj_meta \<Rightarrow> poll_event \<Rightarrow> bool" where
  "satisfies E tr c opts oid ev =
     (pe_type ev \<in> {SyncEvent, ResourceUpdateEvent} \<and>
      (\<exists>rs. pe_resource ev = Some rs \<and> rs_identifier rs = oid \<and>
         ((wo_onDeletion opts \<and> rs_status rs = NotFoundStatus) \<or>
          (\<exists>res. rs_resource rs = Some res \<and> (\<forall>cond \<in> set (wo_conditions opts). Pass E tr c res cond = Inr True)))))"

lemma all_passed_True: "all_passed E tr c res conds = Inr True \<longleftrightarrow> (\<forall>cond \<in> set conds. Pass E tr c res cond = Inr True)"
  by (induction conds) (auto split: sum.splits bool.splits)

lemma wait_loop_None:
  assumes "wait_loop E tr c opts oid evs = None"
    and "env_ctx_err E tr c \<noteq> None" and "\<forall>ev \<in> set evs. pe_type ev = ErrorEvent \<longrightarrow> pe_error ev \<noteq> None"
  shows "\<exists>ev \<in> set evs. satisfies E tr c opts oid ev"
  using assms
proof (induction evs)
  case Nil
  then show ?case by simp
next
  case (Cons ev evs)
  show ?case
  proof (cases "satisfies E tr c opts oid ev")
    case True
    then show ?thesis by simp
  next
    case False
    have "wait_loop E tr c opts oid evs = None"
      using Cons.prems(1,3) False
      by (auto simp: satisfies_def all_passed_True [symmetric]
          split: poll_event_type.splits option.splits if_splits sum.splits bool.splits)
    then show ?thesis using Cons by auto
  qed
qed

text \<open>
  Waiting for a deletion without conditions: the first update that carries the object is taken
  for success, whatever its status.
\<close>

lemma wait_loop_takes_any_update:
  assumes "wo_conditions opts = []" and "pe_type ev = ResourceUpdateEvent" and "pe_resource ev = Some rs"
    and "rs_identifier rs = oid" and "rs_resource rs = Some res"
  shows "wait_loop E tr c opts oid (ev # evs) = None"
  using assms by simp

section \<open>Log checks\<close>

fun hit :: "string \<Rightarrow> ev \<Rightarrow> bool" where
  "hit expected (EvLogs c ns p ct (Inr (Inr data))) = contains data expected"
| "hit expected x = False"

fun is_logs :: "ev \<Rightarrow> bool" where
  "is_logs (EvLogs c ns p ct r) = True"
| "is_logs x = False"

lemma logsContain_event:
  "\<exists>x. logsContain E c req expected tr = (hit expected x, tr @ [x]) \<and> is_logs x"
proof -
  let ?r = "env_logs E tr c (lr_namespace req) (lr_pod req) (lr_container req) defaultLogsTailLines"
  let ?x = "EvLogs c (lr_namespace req) (lr_pod req) (lr_container req) ?r"
  show ?thesis
  proof (cases ?r)
    case (Inl e)
    then show ?thesis by (intro exI [of _ ?x]) (simp add: logsContain_def)
  next
    case (Inr y)
    then show ?thesis by (cases y) (intro exI [of _ ?x], simp add: logsContain_def)+
  qed
qed

text \<open>One round of requests: one event per request, and the number of hits among them.\<close>

lemma count_matches_events:
  "\<exists>es. count_matches E c expected reqs m tr = (m + length (filter (hit expected) es), tr @ es) \<and>
     length es = length reqs \<and> list_all is_logs es"
proof (induction reqs arbitrary: m tr)
  case Nil
  show ?case by simp
next
  case (Cons req reqs)
  obtain x where x: "logsContain E c req expected tr = (hit expected x, tr @ [x])" "is_logs x"
    using logsContain_event by blast
  obtain es where es: "count_matches E c expected reqs (if hit expected x then m + 1 else m) (tr @ [x]) =
      ((if hit expected x then m + 1 else m) + length (filter (hit expected) es), (tr @ [x]) @ es)"
      "length es = length reqs" "list_all is_logs es"
    using Cons.IH by blast
  then show ?case using x by (intro exI [of _ "x # es"]) auto
qed

text \<open>
  A round: the target resolves to log requests and the requests are answered by \<open>es\<close>.
\<close>

definition log_round :: "env \<Rightarrow> service \<Rightarrow> ctx \<Rightarrow> pod_target \<Rightarrow> string \<Rightarrow> ev list \<Rightarrow> ev list \<Rightarrow> bool" where
  "log_round E sv c target container es tr' =
     (\<exists>tr0 tr1 reqs. resolvePodsForLogs E sv c target container tr0 = (Inr reqs, tr1) \<and> reqs \<noteq> [] \<and>
        tr' = tr1 @ es \<and> length es = length reqs \<and> list_all is_logs es)"

lemma filter_all: "length (filter P xs) = length xs \<longleftrightarrow> (\<forall>x \<in> set xs. P x)"
proof
  assume "length (filter P xs) = length xs"
  then show "\<forall>x \<in> set xs. P x" using length_filter_less [of _ xs P] by fastforce
qed simp

lemma present_cond_true:
  assumes "present_cond E sv c target expected opts tr = ((True, None), tr')"
  shows "\<exists>es. log_round E sv c target (lo_container opts) es tr' \<and>
    (if lo_match opts = LogsMatchAll then \<forall>x \<in> set es. hit expected x else \<exists>x \<in> set es. hit expected x)"
proof -
  obtain r tr1 where p: "resolvePodsForLogs E sv c target (lo_container opts) tr = (r, tr1)" by (metis surj_pair)
  show ?thesis
  proof (cases r)
    case (Inl e)
    with p assms show ?thesis by (simp add: present_cond_def countLogMatches_def)
  next
    case (Inr reqs)
    obtain es where es: "count_matches E c expected reqs 0 tr1 = (length (filter (hit expected) es), tr1 @ es)"
      "length es = length reqs" "list_all is_logs es"
      using count_matches_events [of E c expected reqs 0 tr1] by auto
    have ne: "reqs \<noteq> []" and tr': "tr' = tr1 @ es"
      and res: "if lo_match opts = LogsMatchAll then length (filter (hit expected) es) = length reqs
                else 0 < length (filter (hit expected) es)"
      using assms p Inr es by (auto simp: present_cond_def countLogMatches_def split: if_splits)
    have "log_round E sv c target (lo_container opts) es tr'"
      unfolding log_round_def using p Inr ne tr' es by blast
    moreover have "if lo_match opts = LogsMatchAll then \<forall>x \<in> set es. hit expected x else \<exists>x \<in> set es. hit expected x"
      using res filter_all [of "hit expected" es] es(2) by (auto simp: filter_empty_conv split: if_splits)
    ultimately show ?thesis by blast
  qed
qed

lemma absent_cond_false:
  assumes "absent_cond E sv c target forbidden opts tr = ((False, None), tr')"
  shows "\<exists>tr1 es. resolvePodsForLogs E sv c target (lo_container opts) tr = (fst (resolvePodsForLogs E sv c target (lo_container opts) tr), tr1)
    \<and> tr' = tr1 @ es \<and> (\<forall>x \<in> set es. \<not> hit forbidden x)"
proof -
  obtain r tr1 where p: "resolvePodsForLogs E sv c target (lo_container opts) tr = (r, tr1)" by (metis surj_pair)
  show ?thesis
  proof (cases r)
    case (Inl e)
    with p assms show ?thesis by (auto simp: absent_cond_def countLogMatches_def intro: exI [of _ "[]"])
  next
    case (Inr reqs)
    obtain es where es: "count_matches E c forbidden reqs 0 tr1 = (length (filter (hit forbidden) es), tr1 @ es)"
      using count_matches_events [of E c forbidden reqs 0 tr1] by auto
    with p Inr assms show ?thesis
      by (intro exI [of _ tr1] exI [of _ es]) (auto simp: absent_cond_def countLogMatches_def filter_empty_conv)
  qed
qed

text \<open>Resolving a target reads no logs.\<close>

lemma podSelector_no_hit:
  "\<exists>es. snd (podSelector E sv c target tr) = tr @ es \<and> \<not> list_ex (hit f) es"
  by (auto simp: podSelector_def workloadPodSelector_def Let_def split: option.split sum.split list.split)

lemma resolve_no_hit:
  "\<exists>es. snd (resolvePodsForLogs E sv c target ct tr) = tr @ es \<and> \<not> list_ex (hit f) es"
proof -
  obtain r tr1 where p: "podSelector E sv c target tr = (r, tr1)" by (metis surj_pair)
  obtain es where es: "tr1 = tr @ es" "\<not> list_ex (hit f) es"
    using podSelector_no_hit [of E sv c target tr f] p by auto
  then show ?thesis
    using p by (auto simp: resolvePodsForLogs_def Let_def split: sum.split)
qed

context kube_env
begin

lemma LogsContains_present:
  assumes run: "LogsContains E c target expected opts (sv, tr) = (None, (sv', tr'))"
    and live: "\<not> svc_dryRun sv" and ok: "validate_target target = None"
    and pol: "o' = foldl (\<lambda>o' opt. opt o') newLogsOptions opts" "lo_match o' \<noteq> LogsMatchNone"
  shows "\<exists>es. log_round E sv (WithTimeout c (lo_timeout o')) target (lo_container o') es tr' \<and>
    (if lo_match o' = LogsMatchAll then \<forall>x \<in> set es. hit expected x else \<exists>x \<in> set es. hit expected x)"
proof -
  let ?cond = "present_cond E sv (WithTimeout c (lo_timeout o')) target expected o'"
  let ?poll = "env_poll_until E c (lo_interval o') (lo_timeout o') True"
  have poll: "?poll ?cond tr = (None, tr')"
    using run live ok pol by (auto simp: LogsContains_def logsPresent_def Let_def split: prod.splits option.splits)
  then have "\<exists>s1. True \<and> ?cond s1 = ((True, None), snd (?poll ?cond tr))"
    by (intro poller.poll_hit [OF polls]) simp_all
  then obtain s1 where "?cond s1 = ((True, None), tr')" using poll by auto
  from present_cond_true [OF this] show ?thesis .
qed

lemma LogsContains_absent:
  assumes run: "LogsContains E c target forbidden opts (sv, tr) = (None, (sv', tr'))"
    and live: "\<not> svc_dryRun sv" and ok: "validate_target target = None"
    and pol: "o' = foldl (\<lambda>o' opt. opt o') newLogsOptions opts" "lo_match o' = LogsMatchNone"
  shows "\<exists>es. tr' = tr @ es \<and> \<not> list_ex (hit forbidden) es"
proof -
  let ?cond = "absent_cond E sv (WithTimeout c (lo_timeout o')) target forbidden o'"
  let ?poll = "env_poll_until E c (lo_interval o') (lo_timeout o') True"
  let ?I = "\<lambda>t. \<exists>es. t = tr @ es \<and> \<not> list_ex (hit forbidden) es"
  obtain e where poll: "?poll ?cond tr = (Some e, tr')"
    using run live ok pol
    by (auto simp: LogsContains_def logsAbsent_def Let_def split: prod.splits option.splits if_splits)
  have "?I (snd (?poll ?cond tr))"
  proof (rule poller.poll_miss [OF polls])
    show "fst (?poll ?cond tr) = Some e" using poll by simp
    show "snd (fst (?cond t)) = None" for t by (simp add: absent_cond_def case_prod_beta)
    show "?I tr" by simp
  next
    fix t t' assume "?I t" and c: "?cond t = ((False, None), t')"
    obtain tr1 es where r: "snd (resolvePodsForLogs E sv (WithTimeout c (lo_timeout o')) target (lo_container o') t) = tr1"
        "t' = tr1 @ es" "\<forall>x \<in> set es. \<not> hit forbidden x"
      using absent_cond_false [OF c] by (metis snd_conv)
    with \<open>?I t\<close> resolve_no_hit [of E sv "WithTimeout c (lo_timeout o')" target "lo_container o'" t forbidden]
    show "?I t'" by (auto simp: list_ex_iff)
  next
    fix t t' assume "?I t" and "idle_tr t t'"
    then show "?I t'" by (auto simp: idle_tr_def list_ex_iff)
  qed
  with poll show ?thesis by simp
qed

end

section \<open>How often a command runs\<close>

fun is_exec :: "ev \<Rightarrow> bool" where
  "is_exec (EvExec c ns p ct cmd r) = True"
| "is_exec x = False"

definition execs :: "ev list \<Rightarrow> nat" where
  "execs tr = length (filter is_exec tr)"

lemma execs_snoc [simp]: "execs (tr @ [x]) = execs tr + (if is_exec x then 1 else 0)"
  by (simp add: execs_def)

lemma workload_no_exec: "execs (snd (workloadPodSelector E c kind sel ns tr)) = execs tr"
  by (simp add: workloadPodSelector_def Let_def split: sum.split list.split)

lemma podSelector_no_exec: "execs (snd (podSelector E sv c target tr)) = execs tr"
proof -
  obtain r tr1 where w: "workloadPodSelector E c (pt_Kind target) (pt_LabelSelector target) (svc_namespace sv) tr = (r, tr1)"
    by (metis surj_pair)
  then have "execs tr1 = execs tr" using workload_no_exec by (metis snd_conv)
  then show ?thesis
    by (simp add: podSelector_def Let_def w split: option.split sum.split)
qed

lemma resolve_no_exec: "execs (snd (resolvePodForExec E sv c target tr)) = execs tr"
proof -
  obtain r tr1 where p: "podSelector E sv c target tr = (r, tr1)" by (metis surj_pair)
  then have "execs tr1 = execs tr" using podSelector_no_exec by (metis snd_conv)
  then show ?thesis
    using p by (simp add: resolvePodForExec_def Let_def split: sum.split option.split)
qed

lemma execs_idle: "idle_tr t t' \<Longrightarrow> execs t' = execs t"
proof -
  assume "idle_tr t t'"
  moreover have "filter is_exec (map EvSleep ds) = []" for ds by (induction ds) auto
  ultimately show ?thesis by (auto simp: idle_tr_def execs_def)
qed

lemma exec_attempt_execs: "execs (snd (exec_attempt E sv c target cmd ct tr)) \<le> Suc (execs tr)"
proof -
  obtain r tr1 where p: "resolvePodForExec E sv c target tr = (r, tr1)" by (metis surj_pair)
  then have "execs tr1 = execs tr" using resolve_no_exec [of E sv c target tr] by simp
  then show ?thesis
    using p by (simp add: exec_attempt_def Let_def split: sum.split option.split)
qed

context kube_env
begin

lemma Exec_execs:
  "execs (snd (snd (Exec E c target cmd opts (sv, tr)))) \<le>
     execs tr + nat (bo_steps (xo_retry (foldl (\<lambda>o' opt. opt o') new_exec_options opts)))"
proof -
  have "execs (snd (env_on_error_w E b p (exec_attempt E sv c' target cmd ct) tr)) \<le> execs tr + nat (bo_steps b)" for b p c' ct
    by (rule raws.on_error_bound) (simp_all add: exec_attempt_execs execs_idle)
  then show ?thesis
    by (auto simp: Exec_def Let_def case_prod_beta split: option.split)
qed

text \<open>An exec in a named pod whose command succeeds from its run \<open>k\<close> on.\<close>

lemma Exec_recovers:
  assumes live: "\<not> svc_dryRun sv" and obj: "pt_Object target = Some pod" "gvk_kind (o_gvk pod) = ''Pod''" "o_name pod \<noteq> []"
    and o': "o' = foldl (\<lambda>o' opt. opt o') new_exec_options opts"
    and c': "c' = (if 0 < xo_timeout o' then WithTimeout c (xo_timeout o') else c)"
    and ns: "ns = (if o_namespace pod = [] then svc_namespace sv else o_namespace pod)"
    and ex: "env_executor E ns (o_name pod) = None"
    and ok: "\<And>tr'. execs tr + k \<le> execs tr' \<Longrightarrow> env_exec E tr' c' ns (o_name pod) (xo_container o') cmd = None"
    and steps: "int k < bo_steps (xo_retry o')"
  shows "fst (Exec E c target cmd opts (sv, tr)) = None"
proof -
  let ?f = "exec_attempt E sv c' target cmd (xo_container o')"
  have "resolvePodForExec E sv c' target t = (Inr (ns, o_name pod), t)" for t
    using obj ns by (simp add: resolvePodForExec_def podSelector_def Let_def)
  then have f: "snd (?f t) = t @ [EvExec c' ns (o_name pod) (xo_container o') cmd (env_exec E t c' ns (o_name pod) (xo_container o') cmd)]"
    "fst (?f t) = None \<longleftrightarrow> env_exec E t c' ns (o_name pod) (xo_container o') cmd = None" for t
    using ex by (auto simp: exec_attempt_def Let_def split: option.splits)
  have "fst (env_on_error_w E (xo_retry o') (\<lambda>_. True) ?f tr) = None"
  proof (rule raws.on_error_recovers [where m = execs and k = "execs tr + k"])
    show "Suc (execs s) \<le> execs s'" if "?f s = (Some e, s')" for s e s'
      using f(1) [of s] that by simp
    show "execs s \<le> execs s'" if "idle_tr s s'" for s s' using execs_idle [OF that] by simp
    show "fst (?f s) = None" if "execs tr + k \<le> execs s" for s using f(2) ok [OF that] by blast
    show "execs tr + k < nat (bo_steps (xo_retry o')) + execs tr" using steps by simp
  qed
  then show ?thesis
    using live obj(1) by (simp add: Exec_def Let_def o' [symmetric] c' [symmetric] retryAlways_fun validate_target_def case_prod_beta)
qed

end

end
