(* ===== verification/Kube_Properties.thy ===== *)
theory Kube_Properties
  imports Pod_Contracts Paths Example_Cluster
begin

text \<open>
  The properties of the Kubernetes service: what the success of an operation means, how often it
  is tried, and that a cleanup leaves nothing of what the case created. Each holds for every
  environment that keeps the contract \<open>kube_env\<close>; its witness evaluates the model on the example
  cluster.
\<close>

text \<open>
  C3: A cleanup that returns no error has emptied the applied cache, and for every object that
  was in it a delete request was sent on the cleanup's own context and answered with deleted, not
  found, or the end of that context. Premises: not a dry run, the service has a namespace, the
  cache is sound, and the API server gives each kind one scope.
\<close>

theorem cleanup_deletes_everything:
  assumes "kube_env E" and "\<not> svc_dryRun sv" and "svc_namespace sv \<noteq> []" and "cache_ok (sv, tr)"
    and "Cleanup E c (sv, tr) = (None, (sv', tr'))" and "steady tr'"
  shows "keys (svc_applied sv') = {} \<and>
    (\<forall>k \<in> keys (svc_applied sv). requested c k (drop (length tr) tr'))"
  using kube_env.Cleanup_clean [OF assms(1) assms(5) assms(2,3,6,4)] by blast

definition cached_service :: service where
  "cached_service = example_service\<lparr>svc_applied :=
     [(''e2e/ConfigMap/cm'', (example_object ''ConfigMap'' ''cm'')\<lparr>o_namespace := ''e2e''\<rparr>)]\<rparr>"

lemma cached_service_ok: "cache_ok (cached_service, [])"
  by (simp add: cache_ok_def cached_service_def store_ok_def entry_ok_def appliedKey_def example_object_def)

theorem cleanup_deletes_everything_witness:
  "fst (Cleanup cluster RunCtx (cached_service, [])) = None \<and>
   keys (svc_applied (fst (snd (Cleanup cluster RunCtx (cached_service, []))))) = {} \<and>
   requested RunCtx ''e2e/ConfigMap/cm'' (snd (snd (Cleanup cluster RunCtx (cached_service, []))))"
proof -
  have none: "fst (Cleanup cluster RunCtx (cached_service, [])) = None" by code_simp
  have st: "steady (snd (snd (Cleanup cluster RunCtx (cached_service, []))))" by (rule steady_code) code_simp
  have cfg: "\<not> svc_dryRun cached_service" "svc_namespace cached_service \<noteq> []"
    by (simp_all add: cached_service_def example_service_def)
  have run: "Cleanup cluster RunCtx (cached_service, []) =
      (None, (fst (snd (Cleanup cluster RunCtx (cached_service, []))), snd (snd (Cleanup cluster RunCtx (cached_service, [])))))"
    using none by (simp add: prod_eq_iff)
  have key: "''e2e/ConfigMap/cm'' \<in> keys (svc_applied cached_service)" by code_simp
  from cleanup_deletes_everything [OF cluster_kube cfg cached_service_ok run st] none key show ?thesis by simp
qed

text \<open>
  C4: An ensure that returns no error outside dry-run mode ended with a Server-Side Apply of an
  object of the given kind and name, on the caller's context and with the field owner (and the
  force flag exactly when configured), which the server accepted; the only other way is that its
  last request was cut off by the end of the context, which the retry loop does not report.
\<close>

theorem ensure_applies:
  assumes "kube_env E" and "\<not> svc_dryRun sv"
    and "Ensure E c (Some obj) [WithEnsureAnnotations ann, WithEnsureRetry n d] (sv, tr) = (None, (sv', tr'))"
  shows "applied_ok c (svc_forceConflicts sv) obj (last tr') \<or> cut_off (last tr')"
  using kube_env.Ensure_success [OF assms(1,3,2)] by (simp add: WithEnsureRetry_def)

definition example_ensure :: "go_error option \<times> kstate" where
  "example_ensure = Ensure cluster RunCtx (Some example_cm) [WithEnsureAnnotations [], WithEnsureRetry 2 0] (example_service, [])"

theorem ensure_applies_witness:
  "fst example_ensure = None \<and>
   (applied_ok RunCtx False example_cm (last (snd (snd example_ensure))) \<or> cut_off (last (snd (snd example_ensure))))"
proof -
  have none: "fst example_ensure = None" by code_simp
  from ensure_applies [OF cluster_kube example_service_simps(1) result_split [OF none, unfolded example_ensure_def]] none
  show ?thesis by (simp add: example_ensure_def)
qed

text \<open>
  C5: A patch that returns no error outside dry-run mode ended with reading the object and an
  accepted update with exactly what the patches make of it (read-modify-write, retried from the
  read on a conflict), or with a request cut off by the end of the context.
\<close>

theorem patch_updates_fresh_copy:
  assumes "kube_env E" and "\<not> svc_dryRun sv"
    and "Patch E c (Some obj) ps [WithPatchRetry n d] (sv, tr) = (None, (sv', tr'))"
  shows "(\<exists>obj'. o_gvk obj' = o_gvk obj \<and> o_name obj' = o_name obj \<and> patched_ok E c obj' ps tr') \<or> cut_off (last tr')"
  using kube_env.Patch_success [OF assms(1,3,2)] by (simp add: WithPatchRetry_def)

definition example_patches :: "patch_op list" where
  "example_patches = [\<lparr>p_Op = ''add'', p_Path = ''/data'', p_From = [], p_Value = JNull\<rparr>]"

definition example_patch :: "go_error option \<times> kstate" where
  "example_patch = Patch cluster RunCtx (Some example_cm) example_patches [WithPatchRetry 1 0] (example_service, applied_history)"

theorem patch_updates_fresh_copy_witness:
  "fst example_patch = None \<and>
   ((\<exists>obj'. o_gvk obj' = o_gvk example_cm \<and> o_name obj' = o_name example_cm \<and>
       patched_ok cluster RunCtx obj' example_patches (snd (snd example_patch))) \<or> cut_off (last (snd (snd example_patch))))"
proof -
  have none: "fst example_patch = None" by code_simp
  from patch_updates_fresh_copy [OF cluster_kube example_service_simps(1)
      result_split [OF none, unfolded example_patch_def]] none
  show ?thesis unfolding example_patch_def by blast
qed




text \<open>
  C7: An exec that returns no error outside dry-run mode ended with running exactly the given
  command, in the given container of the pod its target resolves to, without error, under the
  configured timeout.
\<close>

theorem exec_ran_in_target_pod:
  assumes "kube_env E" and "\<not> svc_dryRun sv" and "validate_target target = None"
    and "Exec E c target cmd [WithExecContainer container, WithExecRetry n d, WithExecTimeout t] (sv, tr) = (None, (sv', tr'))"
  shows "executed_ok E sv (if 0 < t then WithTimeout c t else c) target container cmd tr'"
  using kube_env.Exec_success [OF assms(1,4,2,3) _ refl]
  by (cases "0 < t")
    (simp_all add: WithExecRetry_def WithExecContainer_def WithExecTimeout_def new_exec_options_def)

definition example_target :: pod_target where
  "example_target = \<lparr>pt_Object = None, pt_Kind = ''Pod'', pt_LabelSelector = ''app=web''\<rparr>"

lemma example_target_valid: "validate_target example_target = None"
  by (simp add: validate_target_def example_target_def)

definition example_exec :: "go_error option \<times> kstate" where
  "example_exec = Exec cluster RunCtx example_target [''true''] [WithExecContainer [], WithExecRetry 2 0, WithExecTimeout 5]
     (example_service, [])"

theorem exec_ran_in_target_pod_witness:
  "fst example_exec = None \<and>
   executed_ok cluster example_service (WithTimeout RunCtx 5) example_target [] [''true''] (snd (snd example_exec))"
proof -
  have none: "fst example_exec = None" by code_simp
  from exec_ran_in_target_pod [OF cluster_kube example_service_simps(1) example_target_valid
      result_split [OF none, unfolded example_exec_def]] none
  show ?thesis by (simp add: example_exec_def)
qed

text \<open>
  C8: Whatever the pods answer, an exec configured with \<open>n\<close> attempts runs the command at most
  \<open>max n 1\<close> times.
\<close>

theorem exec_attempts_bounded:
  assumes "kube_env E"
  shows "execs (snd (snd (Exec E c target cmd [WithExecContainer container, WithExecRetry n d, WithExecTimeout t] (sv, tr)))) \<le>
    execs tr + nat (max n 1)"
  using kube_env.Exec_execs [OF assms, of c target cmd "[WithExecContainer container, WithExecRetry n d, WithExecTimeout t]" sv tr]
  by (simp add: WithExecRetry_def WithExecContainer_def WithExecTimeout_def split: if_splits)

theorem exec_attempts_bounded_witness:
  "execs (snd (snd (Exec cluster RunCtx example_target [''false'']
     [WithExecContainer [], WithExecRetry 3 0, WithExecTimeout 5] (example_service, [])))) \<le> 3"
  using exec_attempts_bounded [OF cluster_kube, of RunCtx example_target "[''false'']" "[]" 3 0 5 example_service "[]"]
  by (simp add: execs_def)




text \<open>
  C10: A log check with policy none that returns no error never got a log that contains the
  forbidden text, in any round up to its end.
\<close>

theorem logs_absent_means_never_seen:
  assumes "kube_env E" and "\<not> svc_dryRun sv" and "validate_target target = None"
    and "lo_match (foldl (\<lambda>o' opt. opt o') newLogsOptions opts) = LogsMatchNone"
    and "LogsContains E c target forbidden opts (sv, tr) = (None, (sv', tr'))"
  shows "\<exists>es. tr' = tr @ es \<and> \<not> list_ex (hit forbidden) es"
  using kube_env.LogsContains_absent [OF assms(1,5,2,3) refl assms(4)] .

definition example_absent :: "go_error option \<times> kstate" where
  "example_absent = LogsContains cluster RunCtx example_target ''panic''
     [WithLogsMatch ''none'', WithLogsInterval 2, WithLogsTimeout 4] (example_service, [])"

theorem logs_absent_means_never_seen_witness:
  "fst example_absent = None \<and> (\<exists>es. snd (snd example_absent) = [] @ es \<and> \<not> list_ex (hit ''panic'') es)"
proof -
  have none: "fst example_absent = None" by code_simp
  have pol: "lo_match (foldl (\<lambda>o' opt. opt o') newLogsOptions [WithLogsMatch ''none'', WithLogsInterval 2, WithLogsTimeout 4]) = LogsMatchNone"
    by code_simp
  from logs_absent_means_never_seen [OF cluster_kube example_service_simps(1) example_target_valid pol
      result_split [OF none, unfolded example_absent_def]] none
  show ?thesis unfolding example_absent_def by blast
qed

text \<open>
  C11: A wait that returns no error outside dry-run mode saw an event of the status poller for
  exactly its object in which all its conditions hold on the reported object, or, when waiting
  for a deletion, in which the object is reported as not found. Premises on the poller: an error
  event carries an error, and the channel is closed only after the context has ended.
\<close>

theorem wait_saw_satisfying_event:
  assumes "\<not> svc_dryRun sv" and "setNamespace E (obj, sv, tr) = (None, (obj', sv, tr1))"
    and "wo = foldl (\<lambda>o' opt. opt o') new_wait_options opts"
    and "c' = (if 0 < wo_timeout wo then WithTimeout c (wo_timeout wo) else c)"
    and "evs = env_poll E tr1 c' (obj_metadata obj') (wo_interval wo)"
    and "\<forall>ev \<in> set evs. pe_type ev = ErrorEvent \<longrightarrow> pe_error ev \<noteq> None"
    and "env_ctx_err E tr' c' \<noteq> None"
    and "Wait E c (Some obj) opts (sv, tr) = (None, (sv', tr'))"
  shows "\<exists>ev \<in> set evs. satisfies E tr' c' wo (obj_metadata obj') ev"
proof -
  have "tr' = tr1 @ [EvPoll c' (obj_metadata obj') (wo_interval wo)]"
    and "wait_loop E tr' c' wo (obj_metadata obj') evs = None"
    using assms(1-5,8) by (auto simp: Wait_def Let_def)
  then show ?thesis using wait_loop_None assms(6,7) by blast
qed

definition watched_cluster :: env where
  "watched_cluster = cluster\<lparr>
     env_ctx_err := (\<lambda>tr c. Some (Sentinel DeadlineExceeded)),
     env_poll := (\<lambda>tr c oid i. [\<lparr>pe_type = ResourceUpdateEvent, pe_error = None,
       pe_resource = Some \<lparr>rs_identifier = oid, rs_status = CurrentStatus, rs_resource = Some example_cm\<rparr>\<rparr>])\<rparr>"

definition example_wait :: "go_error option \<times> kstate" where
  "example_wait = Wait watched_cluster RunCtx (Some example_cm)
     [WithWaitConditions [''.status''], WithWaitInterval 1, WithWaitTimeout 9] (example_service, [])"

theorem wait_saw_satisfying_event_witness:
  "fst example_wait = None \<and>
   (\<exists>ev \<in> set (env_poll watched_cluster [] RunCtx (obj_metadata (example_cm\<lparr>o_namespace := ''e2e''\<rparr>)) 1).
      satisfies watched_cluster (snd (snd example_wait)) (WithTimeout RunCtx 9)
        \<lparr>wo_interval = 1, wo_timeout = 9, wo_conditions = [''.status''], wo_onDeletion = False\<rparr>
        (obj_metadata (example_cm\<lparr>o_namespace := ''e2e''\<rparr>)) ev)"
proof -
  have none: "fst example_wait = None" by code_simp
  have ns: "setNamespace watched_cluster (example_cm, example_service, []) =
      (None, (example_cm\<lparr>o_namespace := ''e2e''\<rparr>, example_service, [EvMapping (o_gvk example_cm) (Inr True)]))"
    by (simp add: setNamespace_def watched_cluster_def cluster_def reference_env_def cluster_base_def example_cm_def
        example_object_def gvk_empty_def example_service_def Let_def)
  have wo: "\<lparr>wo_interval = 1, wo_timeout = 9, wo_conditions = [''.status''], wo_onDeletion = False\<rparr> =
      foldl (\<lambda>o' opt. opt o') new_wait_options [WithWaitConditions [''.status''], WithWaitInterval 1, WithWaitTimeout 9]"
    by (simp add: new_wait_options_def WithWaitConditions_def WithWaitInterval_def WithWaitTimeout_def)
  from wait_saw_satisfying_event [OF example_service_simps(1) ns wo refl refl _ _
      result_split [OF none, unfolded example_wait_def]] none
  show ?thesis by (simp add: watched_cluster_def example_wait_def)
qed

text \<open>
  C12: For objects whose namespace, kind and name contain no slash (Kubernetes admits none), the
  cache key identifies the namespace, the kind and the name.
\<close>

theorem appliedKey_identifies:
  assumes "\<forall>x \<in> {o_namespace a, gvk_kind (o_gvk a), o_name a, o_namespace b, gvk_kind (o_gvk b), o_name b}. slash \<notin> set x"
  shows "appliedKey a = appliedKey b \<longleftrightarrow>
    o_namespace a = o_namespace b \<and> gvk_kind (o_gvk a) = gvk_kind (o_gvk b) \<and> o_name a = o_name b"
proof
  assume "appliedKey a = appliedKey b"
  then have "split_on slash (join [slash] [o_namespace a, gvk_kind (o_gvk a), o_name a]) =
      split_on slash (join [slash] [o_namespace b, gvk_kind (o_gvk b), o_name b])"
    by (simp add: appliedKey_def)
  then have "[o_namespace a, gvk_kind (o_gvk a), o_name a] = [o_namespace b, gvk_kind (o_gvk b), o_name b]"
    using assms split_join [of "[o_namespace a, gvk_kind (o_gvk a), o_name a]" slash]
      split_join [of "[o_namespace b, gvk_kind (o_gvk b), o_name b]" slash] by auto
  then show "o_namespace a = o_namespace b \<and> gvk_kind (o_gvk a) = gvk_kind (o_gvk b) \<and> o_name a = o_name b" by simp
qed (simp add: appliedKey_def)

theorem appliedKey_identifies_witness:
  "appliedKey example_cm \<noteq> appliedKey (example_object ''Secret'' ''cm'')"
  using appliedKey_identifies [of example_cm "example_object ''Secret'' ''cm''"]
  by (simp add: example_cm_def example_object_def)

section \<open>Where the code and its intention differ\<close>

text \<open>
  Waiting for a deletion takes any update that carries the object for success: a delete with wait
  returns while the object is still terminating.
\<close>

definition terminating_cluster :: env where
  "terminating_cluster = cluster\<lparr>
     env_poll := (\<lambda>tr c oid i. [\<lparr>pe_type = ResourceUpdateEvent, pe_error = None,
       pe_resource = Some \<lparr>rs_identifier = oid, rs_status = TerminatingStatus, rs_resource = Some example_cm\<rparr>\<rparr>])\<rparr>"

lemma delete_wait_returns_before_gone:
  "fst (Delete terminating_cluster RunCtx (Some example_cm) [WithDeleteWait True 60] (example_service, applied_history)) = None"
  by code_simp

text \<open>The cache key leaves out the API group: two kinds of the same name share one entry.\<close>

lemma appliedKey_ignores_group:
  "appliedKey (obj\<lparr>o_gvk := (o_gvk obj)\<lparr>gvk_group := g\<rparr>\<rparr>) = appliedKey obj"
  by (simp add: appliedKey_def)

text \<open>
  A delete that fails has already dropped the object from the cache: the later cleanup succeeds
  without asking for it again.
\<close>

definition refusing_cluster :: env where
  "refusing_cluster = cluster\<lparr>env_delete := (\<lambda>tr c obj. Some (ApiStatus OtherReason ''admission denied''))\<rparr>"

lemma failed_delete_leaks:
  "let (err, k) = Delete refusing_cluster RunCtx (Some example_cm) [] (cached_service, applied_history);
       (err', k') = Cleanup refusing_cluster RunCtx k
   in err \<noteq> None \<and> err' = None \<and> snd k' = snd k"
  by code_simp

text \<open>
  A request cut off by the context is reported as success: ensuring an object on a context that
  has ended returns no error although the apply failed.
\<close>

definition canceled_cluster :: env where
  "canceled_cluster = cluster\<lparr>env_apply := (\<lambda>tr c obj os. Some (Sentinel Canceled))\<rparr>"

lemma canceled_ensure_succeeds:
  "fst (Ensure canceled_cluster RunCtx (Some example_cm) [WithEnsureRetry 1 0] (example_service, [])) = None"
  by code_simp

text \<open>
  C38: Exec gets there when the command does: if a command in a named pod fails at first but
  succeeds from its run number \<open>k\<close> on (counted from zero), an exec with more than \<open>k\<close> attempts
  returns no error. The premises are that an executor can be made for the pod, and what the pod
  answers from run \<open>k\<close> on.
\<close>

theorem exec_outlasts_failures:
  assumes "kube_env E" and "\<not> svc_dryRun sv" and "pt_Object target = Some pod" and "gvk_kind (o_gvk pod) = ''Pod''" and "o_name pod \<noteq> []"
    and "o_namespace pod \<noteq> []" and "env_executor E (o_namespace pod) (o_name pod) = None"
    and "\<forall>tr'. execs tr + k \<le> execs tr' \<longrightarrow>
      env_exec E tr' (if 0 < t then WithTimeout c t else c) (o_namespace pod) (o_name pod) container cmd = None"
    and "int k < n"
  shows "fst (Exec E c target cmd [WithExecContainer container, WithExecRetry n d, WithExecTimeout t] (sv, tr)) = None"
  by (rule kube_env.Exec_recovers [OF assms(1-5) refl refl refl])
    (use assms(6-9) in \<open>auto simp: WithExecRetry_def WithExecContainer_def WithExecTimeout_def new_exec_options_def\<close>)

definition flaky_cluster :: env where
  "flaky_cluster = reference_env (cluster_base\<lparr>env_exec := (\<lambda>tr c ns p ct cmd.
     if execs tr < 2 then Some (Opaque ''exit code 1'', ''not yet'') else None)\<rparr>)"

definition example_pod :: pod_target where
  "example_pod = \<lparr>pt_Object = Some ((example_object ''Pod'' ''web'')\<lparr>o_namespace := ''e2e''\<rparr>), pt_Kind = [], pt_LabelSelector = []\<rparr>"

theorem exec_outlasts_failures_witness:
  "fst (Exec flaky_cluster RunCtx example_pod [''true''] [WithExecContainer [], WithExecRetry 3 0, WithExecTimeout 5] (example_service, [])) = None \<and>
   fst (Exec flaky_cluster RunCtx example_pod [''true''] [WithExecContainer [], WithExecRetry 2 0, WithExecTimeout 5] (example_service, [])) \<noteq> None"
proof -
  let ?pod = "(example_object ''Pod'' ''web'')\<lparr>o_namespace := ''e2e''\<rparr>"
  have kube: "kube_env flaky_cluster" unfolding flaky_cluster_def by (rule reference.kube_env_axioms)
  have pod: "pt_Object example_pod = Some ?pod" by (simp add: example_pod_def)
  have fields: "gvk_kind (o_gvk ?pod) = ''Pod''" "o_name ?pod \<noteq> []" "o_namespace ?pod \<noteq> []" by code_simp+
  have ex: "env_executor flaky_cluster (o_namespace ?pod) (o_name ?pod) = None" by code_simp
  have later: "\<forall>tr'. execs [] + 2 \<le> execs tr' \<longrightarrow>
      env_exec flaky_cluster tr' (if 0 < (5 :: duration) then WithTimeout RunCtx 5 else RunCtx) (o_namespace ?pod) (o_name ?pod) [] [''true''] = None"
    by (simp add: flaky_cluster_def reference_env_def execs_def)
  have "fst (Exec flaky_cluster RunCtx example_pod [''true''] [WithExecContainer [], WithExecRetry 2 0, WithExecTimeout 5] (example_service, [])) \<noteq> None"
    by code_simp
  with exec_outlasts_failures [OF kube example_service_simps(1) pod fields ex later, of 3 0] show ?thesis by simp
qed

end
