(* ===== verification/Files.thy ===== *)
theory Files
  imports Paths "HOL-Library.List_Lexorder" "HOL-Library.Char_ord"
begin

text \<open>
  The part of the operating system's file tree the program works on (the \<^verbatim>\<open>os\<close> package on Unix):
  directories, regular files and symbolic links, the resolution of paths through links, and the
  operations \<^verbatim>\<open>Stat\<close>, \<^verbatim>\<open>Lstat\<close>, \<^verbatim>\<open>ReadDir\<close>, \<^verbatim>\<open>ReadFile\<close>, \<^verbatim>\<open>MkdirAll\<close>, \<^verbatim>\<open>OpenFile\<close> and \<^verbatim>\<open>WriteFile\<close>,
  \<^verbatim>\<open>Symlink\<close>, \<^verbatim>\<open>Remove\<close>, \<^verbatim>\<open>RemoveAll\<close>, \<^verbatim>\<open>MkdirTemp\<close> and \<^verbatim>\<open>filepath.EvalSymlinks\<close>.

  A file tree maps the real path of a node, its list of names from the root, to the node. What the
  tree does not decide is in the record \<open>os\<close>: the working directory, the directory and the names
  of temporary files, and the failures that have other causes (permissions, a full disk), as
  functions of the operation, the path and the tree. Modes and owners of files are left out.
\<close>

section \<open>The tree\<close>

datatype errno = ENOENT | EEXIST | ENOTDIR | EISDIR | ELOOP | EOther string

datatype node = DirNode | FileNode string | LinkNode string

type_synonym files = "(string list \<times> node) list"

record os =
  os_cwd :: "string list"
  os_tmpdir :: string
  os_random :: "string \<Rightarrow> files \<Rightarrow> string"
  os_fault :: "string \<Rightarrow> string \<Rightarrow> files \<Rightarrow> errno option"
  os_short :: "string \<Rightarrow> files \<Rightarrow> (nat \<times> errno) option"

abbreviation node_at :: "files \<Rightarrow> string list \<Rightarrow> node option" where
  "node_at fs at \<equiv> (if at = [] then Some DirNode else map_of fs at)"

fun errno_text :: "errno \<Rightarrow> string" where
  "errno_text ENOENT = ''no such file or directory''"
| "errno_text EEXIST = ''file exists''"
| "errno_text ENOTDIR = ''not a directory''"
| "errno_text EISDIR = ''is a directory''"
| "errno_text ELOOP = ''too many levels of symbolic links''"
| "errno_text (EOther m) = m"

definition path_error :: "string \<Rightarrow> string \<Rightarrow> errno \<Rightarrow> go_error" where
  "path_error oper p e = Opaque (msg [oper, '' '', p, '': '', errno_text e])"

text \<open>An operation that fails for a reason outside the tree, or gives its result.\<close>

definition faulty :: "os \<Rightarrow> string \<Rightarrow> string \<Rightarrow> files \<Rightarrow> (errno + 'a) \<Rightarrow> errno + 'a" where
  "faulty K oper p fs r = (case os_fault K oper p fs of Some e \<Rightarrow> Inl e | None \<Rightarrow> r)"

section \<open>Path resolution\<close>

text \<open>
  The kernel's walk: empty and dot elements stay, dot-dot goes to the parent, a link is replaced
  by its target, at most \<open>n\<close> times. The last element may be missing (the caller decides) and is
  not followed when it is a link and \<open>follow\<close> is off.
\<close>

function walk :: "files \<Rightarrow> bool \<Rightarrow> nat \<Rightarrow> string list \<Rightarrow> string list \<Rightarrow> errno + string list" where
  "walk fs follow n at [] = Inr at"
| "walk fs follow n at (c # cs) =
     (if c = [] \<or> c = ''.'' then walk fs follow n at cs
      else if c = ''..'' then walk fs follow n (butlast at) cs
      else case map_of fs (at @ [c]) of
        None \<Rightarrow> if cs = [] then Inr (at @ [c]) else Inl ENOENT
      | Some DirNode \<Rightarrow> walk fs follow n (at @ [c]) cs
      | Some (FileNode _) \<Rightarrow> if cs = [] then Inr (at @ [c]) else Inl ENOTDIR
      | Some (LinkNode t) \<Rightarrow>
          if cs = [] \<and> \<not> follow then Inr (at @ [c])
          else case n of
            0 \<Rightarrow> Inl ELOOP
          | Suc m \<Rightarrow> walk fs follow m (if rooted t then [] else at) (split_on slash t @ cs))"
  by pat_completeness auto
termination by (relation "measures [\<lambda>(fs, follow, n, at, cs). n, \<lambda>(fs, follow, n, at, cs). length cs]") auto

definition maxlinks :: nat where
  "maxlinks = 40"

definition start_of :: "os \<Rightarrow> string \<Rightarrow> string list" where
  "start_of K p = (if rooted p then [] else os_cwd K)"

definition locate :: "os \<Rightarrow> bool \<Rightarrow> string \<Rightarrow> files \<Rightarrow> errno + string list" where
  "locate K follow p fs =
     (if p = [] then Inl ENOENT else walk fs follow maxlinks (start_of K p) (split_on slash p))"

text \<open>
  \<^verbatim>\<open>filepath.EvalSymlinks\<close>: the same walk in the library, which also keeps the path it has
  resolved so far (\<open>dest\<close>, absolute or relative); every element must exist, and at most 255 links
  are followed. The resolved prefix is looked up where it really is.
\<close>

function eval_links :: "files \<Rightarrow> nat \<Rightarrow> bool \<Rightarrow> string list \<Rightarrow> string list \<Rightarrow> string list \<Rightarrow> errno + (bool \<times> string list)" where
  "eval_links fs n ab dest at [] = Inr (ab, dest)"
| "eval_links fs n ab dest at (c # cs) =
     (if c = [] \<or> c = ''.'' then eval_links fs n ab dest at cs
      else if c = ''..'' then
        eval_links fs n ab
          (if ab \<or> dest \<noteq> [] \<and> last dest \<noteq> ''..'' then butlast dest else dest @ [''..'']) (butlast at) cs
      else case map_of fs (at @ [c]) of
        None \<Rightarrow> Inl ENOENT
      | Some DirNode \<Rightarrow> eval_links fs n ab (dest @ [c]) (at @ [c]) cs
      | Some (FileNode _) \<Rightarrow> if cs = [] then Inr (ab, dest @ [c]) else Inl ENOTDIR
      | Some (LinkNode t) \<Rightarrow>
          (case n of
             0 \<Rightarrow> Inl (EOther ''EvalSymlinks: too many links'')
           | Suc m \<Rightarrow>
               if rooted t then eval_links fs m True [] [] (split_on slash t @ cs)
               else eval_links fs m ab dest at (split_on slash t @ cs)))"
  by pat_completeness auto
termination by (relation "measures [\<lambda>(fs, n, ab, dest, at, cs). n, \<lambda>(fs, n, ab, dest, at, cs). length cs]") auto

definition render :: "bool \<Rightarrow> string list \<Rightarrow> string" where
  "render ab xs = (if ab then slash # join [slash] xs else if xs = [] then ''.'' else join [slash] xs)"

definition EvalSymlinks :: "os \<Rightarrow> string \<Rightarrow> files \<Rightarrow> errno + string" where
  "EvalSymlinks K p fs = faulty K ''lstat'' p fs
     (case eval_links fs 255 (rooted p) [] (start_of K p) (split_on slash p) of
        Inl e \<Rightarrow> Inl e
      | Inr (ab, dest) \<Rightarrow> Inr (render ab dest))"

section \<open>Reading\<close>

definition stat_node :: "os \<Rightarrow> bool \<Rightarrow> string \<Rightarrow> files \<Rightarrow> errno + node" where
  "stat_node K follow p fs =
     (case locate K follow p fs of
        Inl e \<Rightarrow> Inl e
      | Inr at \<Rightarrow> (case node_at fs at of None \<Rightarrow> Inl ENOENT | Some nd \<Rightarrow> Inr nd))"

definition Stat :: "os \<Rightarrow> string \<Rightarrow> files \<Rightarrow> errno + node" where
  "Stat K p fs = faulty K ''stat'' p fs (stat_node K True p fs)"

definition Lstat :: "os \<Rightarrow> string \<Rightarrow> files \<Rightarrow> errno + node" where
  "Lstat K p fs = faulty K ''lstat'' p fs (stat_node K False p fs)"

definition children :: "files \<Rightarrow> string list \<Rightarrow> string list" where
  "children fs at = sort (remdups (map last (filter (\<lambda>p. p \<noteq> [] \<and> butlast p = at) (map fst fs))))"

text \<open>A directory entry: its name and the node it names, a link as such.\<close>

type_synonym dirent = "string \<times> node"

definition ReadDir :: "os \<Rightarrow> string \<Rightarrow> files \<Rightarrow> errno + dirent list" where
  "ReadDir K p fs = faulty K ''open'' p fs
     (case locate K True p fs of
        Inl e \<Rightarrow> Inl e
      | Inr at \<Rightarrow>
          (case node_at fs at of
             None \<Rightarrow> Inl ENOENT
           | Some DirNode \<Rightarrow> Inr (map (\<lambda>c. (c, the (map_of fs (at @ [c])))) (children fs at))
           | Some nd \<Rightarrow> Inl ENOTDIR))"

definition ReadFile :: "os \<Rightarrow> string \<Rightarrow> files \<Rightarrow> errno + string" where
  "ReadFile K p fs = faulty K ''open'' p fs
     (case stat_node K True p fs of
        Inl e \<Rightarrow> Inl e
      | Inr (FileNode content) \<Rightarrow> Inr content
      | Inr nd \<Rightarrow> Inl EISDIR)"

definition Readlink :: "os \<Rightarrow> string \<Rightarrow> files \<Rightarrow> errno + string" where
  "Readlink K p fs = faulty K ''readlink'' p fs
     (case stat_node K False p fs of
        Inl e \<Rightarrow> Inl e
      | Inr (LinkNode t) \<Rightarrow> Inr t
      | Inr nd \<Rightarrow> Inl (EOther ''invalid argument''))"

section \<open>Writing\<close>

definition put_node :: "string list \<Rightarrow> node \<Rightarrow> files \<Rightarrow> files" where
  "put_node at nd fs = AList.update at nd fs"

text \<open>Creation of a new node: the parent must exist, the name must be free.\<close>

definition create_node :: "os \<Rightarrow> string \<Rightarrow> string \<Rightarrow> node \<Rightarrow> files \<Rightarrow> errno option \<times> files" where
  "create_node K oper p nd fs =
     (case os_fault K oper p fs of
        Some e \<Rightarrow> (Some e, fs)
      | None \<Rightarrow>
          (case locate K False p fs of
             Inl e \<Rightarrow> (Some e, fs)
           | Inr at \<Rightarrow> if node_at fs at = None then (None, put_node at nd fs) else (Some EEXIST, fs)))"

definition Mkdir :: "os \<Rightarrow> string \<Rightarrow> files \<Rightarrow> errno option \<times> files" where
  "Mkdir K p fs = create_node K ''mkdir'' (if strip_slashes p = [] then p else strip_slashes p) DirNode fs"

definition Symlink :: "os \<Rightarrow> string \<Rightarrow> string \<Rightarrow> files \<Rightarrow> errno option \<times> files" where
  "Symlink K oldname newname fs =
     (if oldname = [] then (Some ENOENT, fs) else create_node K ''symlink'' newname (LinkNode oldname) fs)"

text \<open>
  \<^verbatim>\<open>os.MkdirAll\<close>: nothing when the directory exists, otherwise the parent (the path up to the last
  separator) first, then the directory itself; a failure to create it is forgiven when it is there. An error names the path it is about.
\<close>

definition parent_path :: "string \<Rightarrow> string" where
  "parent_path p = take (length (strip_slashes p) - length (after_slash (strip_slashes p))) p"

lemma parent_path_shorter: "parent_path p \<noteq> [] \<Longrightarrow> length (parent_path p) < length p"
proof -
  assume "parent_path p \<noteq> []"
  then have "p \<noteq> []" by (auto simp: parent_path_def)
  have le: "length (strip_slashes p) \<le> length p"
    by (simp add: strip_slashes_def length_dropWhile_le [of _ "rev p", simplified])
  show ?thesis
  proof (cases "strip_slashes p = []")
    case True
    then show ?thesis using \<open>p \<noteq> []\<close> by (simp add: parent_path_def)
  next
    case False
    then have "last (strip_slashes p) \<noteq> slash"
      using hd_dropWhile [of "\<lambda>c. c = slash" "rev p"] unfolding strip_slashes_def last_rev by simp
    then have "after_slash (strip_slashes p) \<noteq> []"
      using False by (cases "strip_slashes p" rule: rev_cases) (auto simp: after_slash_def)
    then have "0 < length (after_slash (strip_slashes p))" "0 < length (strip_slashes p)" using False by simp_all
    then show ?thesis using le unfolding parent_path_def length_take by linarith
  qed
qed

function MkdirAll :: "os \<Rightarrow> string \<Rightarrow> files \<Rightarrow> (string \<times> errno) option \<times> files" where
  "MkdirAll K p fs =
     (case Stat K p fs of
        Inr DirNode \<Rightarrow> (None, fs)
      | Inr nd \<Rightarrow> (Some (p, ENOTDIR), fs)
      | Inl _ \<Rightarrow>
          (case (if parent_path p \<noteq> [] then MkdirAll K (parent_path p) fs else (None, fs)) of
             (Some e, fs') \<Rightarrow> (Some e, fs')
           | (None, fs') \<Rightarrow>
               (case Mkdir K p fs' of
                  (None, fs'') \<Rightarrow> (None, fs'')
                | (Some e, fs'') \<Rightarrow>
                    if Lstat K p fs'' = Inr DirNode then (None, fs'') else (Some (p, e), fs''))))"
  by pat_completeness auto
termination
  by (relation "measure (\<lambda>(K, p, fs). length p)") (auto intro: parent_path_shorter)

declare MkdirAll.simps [simp del]

definition mkdir_error :: "string \<times> errno \<Rightarrow> go_error" where
  "mkdir_error e = path_error ''mkdir'' (fst e) (snd e)"

text \<open>
  \<^verbatim>\<open>os.OpenFile\<close> for writing, creating and truncating, followed by copying a reader into the file:
  links are followed, also a link in the last element. The reader yields bytes and then ends or
  fails; writing may stop early.
\<close>

definition open_trunc :: "os \<Rightarrow> string \<Rightarrow> files \<Rightarrow> errno + (string list \<times> files)" where
  "open_trunc K p fs =
     (case os_fault K ''open'' p fs of
        Some e \<Rightarrow> Inl e
      | None \<Rightarrow>
          (case locate K True p fs of
             Inl e \<Rightarrow> Inl e
           | Inr at \<Rightarrow> if node_at fs at = Some DirNode then Inl EISDIR else Inr (at, put_node at (FileNode []) fs)))"

definition copy_into :: "os \<Rightarrow> string \<Rightarrow> string list \<Rightarrow> string \<times> go_error option \<Rightarrow> files \<Rightarrow> go_error option \<times> files" where
  "copy_into K p at body fs =
     (case os_short K p fs of
        Some (n, e) \<Rightarrow> (Some (path_error ''write'' p e), put_node at (FileNode (take n (fst body))) fs)
      | None \<Rightarrow> (snd body, put_node at (FileNode (fst body)) fs))"

definition WriteFile :: "os \<Rightarrow> string \<Rightarrow> string \<Rightarrow> files \<Rightarrow> go_error option \<times> files" where
  "WriteFile K p content fs =
     (case open_trunc K p fs of
        Inl e \<Rightarrow> (Some (path_error ''open'' p e), fs)
      | Inr (at, fs') \<Rightarrow> copy_into K p at (content, None) fs')"

definition Remove :: "os \<Rightarrow> string \<Rightarrow> files \<Rightarrow> errno option \<times> files" where
  "Remove K p fs =
     (case os_fault K ''remove'' p fs of
        Some e \<Rightarrow> (Some e, fs)
      | None \<Rightarrow>
          (case locate K False p fs of
             Inl e \<Rightarrow> (Some e, fs)
           | Inr at \<Rightarrow>
               if node_at fs at = None then (Some ENOENT, fs)
               else if at = [] \<or> children fs at \<noteq> [] then (Some (EOther ''directory not empty''), fs)
               else (None, filter (\<lambda>(q, nd). q \<noteq> at) fs)))"

definition RemoveAll :: "os \<Rightarrow> string \<Rightarrow> files \<Rightarrow> errno option \<times> files" where
  "RemoveAll K p fs =
     (case os_fault K ''removeall'' p fs of
        Some e \<Rightarrow> (Some e, fs)
      | None \<Rightarrow>
          (case locate K False p fs of
             Inl e \<Rightarrow> (if e = ENOENT then None else Some e, fs)
           | Inr at \<Rightarrow> (None, filter (\<lambda>(q, nd). \<not> prefix at q) fs)))"

text \<open>
  \<^verbatim>\<open>os.MkdirTemp\<close> in the directory for temporary files: the name is the pattern with its last star
  replaced by random digits. The library tries again while the name is taken; the digits are those
  of the last attempt.
\<close>

definition MkdirTemp :: "os \<Rightarrow> string \<Rightarrow> files \<Rightarrow> (go_error + string) \<times> files" where
  "MkdirTemp K pre fs =
     (let p = msg [os_tmpdir K, [slash], pre, os_random K pre fs] in
      case Mkdir K p fs of
        (Some e, fs') \<Rightarrow> (Inl (path_error ''mkdir'' p e), fs')
      | (None, fs') \<Rightarrow> (Inr p, fs'))"

section \<open>Facts on trees\<close>

lemma node_at_put [simp]: "at \<noteq> [] \<Longrightarrow> node_at (put_node at nd fs) q = (if q = at then Some nd else node_at fs q)"
  by (simp add: put_node_def update_conv')

lemma map_of_put [simp]: "map_of (put_node at nd fs) = (map_of fs)(at \<mapsto> nd)"
  by (simp add: put_node_def update_conv')

text \<open>A path of directories without a link: every element of it leads to itself.\<close>

definition real_dir :: "files \<Rightarrow> string list \<Rightarrow> bool" where
  "real_dir fs at = (\<forall>q. prefix q at \<longrightarrow> q \<noteq> [] \<longrightarrow> map_of fs q = Some DirNode)"

lemma real_dir_Nil [simp]: "real_dir fs []"
  by (simp add: real_dir_def)

lemma real_dir_snoc: "real_dir fs (at @ [c]) \<longleftrightarrow> real_dir fs at \<and> map_of fs (at @ [c]) = Some DirNode"
  by (auto simp: real_dir_def prefix_snoc)

lemma real_dir_append: "real_dir fs (at @ cs) \<Longrightarrow> real_dir fs at"
  by (auto simp: real_dir_def)

declare walk.simps(2) [simp del] and eval_links.simps(2) [simp del]

lemma walk_skip: "c = [] \<or> c = ''.'' \<Longrightarrow> walk fs follow n at (c # cs) = walk fs follow n at cs"
  and walk_up: "walk fs follow n at (''..'' # cs) = walk fs follow n (butlast at) cs"
  by (simp_all add: walk.simps)

lemma walk_name:
  assumes "c \<noteq> []" and "c \<noteq> ''.''" and "c \<noteq> ''..''"
  shows "map_of fs (at @ [c]) = None \<Longrightarrow>
      walk fs follow n at (c # cs) = (if cs = [] then Inr (at @ [c]) else Inl ENOENT)"
    and "map_of fs (at @ [c]) = Some DirNode \<Longrightarrow> walk fs follow n at (c # cs) = walk fs follow n (at @ [c]) cs"
    and "map_of fs (at @ [c]) = Some (FileNode x) \<Longrightarrow>
      walk fs follow n at (c # cs) = (if cs = [] then Inr (at @ [c]) else Inl ENOTDIR)"
    and "map_of fs (at @ [c]) = Some (LinkNode t) \<Longrightarrow>
      walk fs follow n at (c # cs) =
        (if cs = [] \<and> \<not> follow then Inr (at @ [c])
         else case n of 0 \<Rightarrow> Inl ELOOP
           | Suc m \<Rightarrow> walk fs follow m (if rooted t then [] else at) (split_on slash t @ cs))"
  using assms by (simp_all add: walk.simps)

text \<open>The kinds of elements a walk meets.\<close>

lemma walk_cases:
  obtains (skip) "c = [] \<or> c = ''.''"
  | (up) "c = ''..''"
  | (missing) "c \<noteq> []" "c \<noteq> ''.''" "c \<noteq> ''..''" "map_of fs (at @ [c]) = None"
  | (directory) "c \<noteq> []" "c \<noteq> ''.''" "c \<noteq> ''..''" "map_of fs (at @ [c]) = Some DirNode"
  | (regular) x where "c \<noteq> []" "c \<noteq> ''.''" "c \<noteq> ''..''" "map_of fs (at @ [c]) = Some (FileNode x)"
  | (link) t where "c \<noteq> []" "c \<noteq> ''.''" "c \<noteq> ''..''" "map_of fs (at @ [c]) = Some (LinkNode t)"
  by (metis node.exhaust not_None_eq)

lemma walk_real:
  assumes "real_dir fs (at @ ds)" and "list_all name_ok ds"
  shows "walk fs follow n at (ds @ cs) = walk fs follow n (at @ ds) cs"
  using assms
proof (induction ds arbitrary: at)
  case Nil
  then show ?case by simp
next
  case (Cons d ds)
  have "real_dir fs ((at @ [d]) @ ds)" using Cons.prems(1) by simp
  moreover from real_dir_append [OF this] have "map_of fs (at @ [d]) = Some DirNode" by (simp add: real_dir_snoc)
  ultimately show ?case using Cons by (simp add: walk_name)
qed

lemma walk_last:
  assumes "name_ok c" and "\<And>t. map_of fs (at @ [c]) = Some (LinkNode t) \<Longrightarrow> \<not> follow"
  shows "walk fs follow n at [c] = Inr (at @ [c])"
proof -
  note ok = assms(1) [THEN name_ok_simps(1)] assms(1) [THEN name_ok_simps(2)] assms(1) [THEN name_ok_simps(3)]
  show ?thesis
  proof (cases "map_of fs (at @ [c])")
    case None
    then show ?thesis by (simp add: walk_name(1) [OF ok])
  next
    case (Some nd)
    then show ?thesis using assms(2) by (cases nd) (simp_all add: walk_name [OF ok])
  qed
qed

text \<open>More links allowed do not change where a walk ends.\<close>

lemma walk_mono: "walk fs follow n at cs = Inr r \<Longrightarrow> n \<le> m \<Longrightarrow> walk fs follow m at cs = Inr r"
proof (induction "(n, length cs)" arbitrary: n m at cs rule: wf_induct_rule [OF wf_lex_prod [OF wf_less_than wf_less_than]])
  case (1 n cs)
  show ?case
  proof (cases cs)
    case Nil
    with 1 show ?thesis by simp
  next
    case (Cons c cs')
    note IH = 1(1) and run = 1(2) [unfolded Cons] and le = 1(3)
    show ?thesis unfolding Cons
    proof (cases rule: walk_cases [where c = c and fs = fs and at = at])
      case (link t)
      show "walk fs follow m at (c # cs') = Inr r"
        using run le IH [of _ "split_on slash t @ cs'" "if rooted t then [] else at"] link Cons
        by (auto simp: walk_name split: if_splits nat.splits dest: Suc_le_D)
    qed (use run le IH [of n cs'] Cons in \<open>auto simp: walk_skip walk_up walk_name split: if_splits\<close>)
  qed
qed

end
