(* ===== verification/File_Facts.thy ===== *)
theory File_Facts
  imports Files
begin

text \<open>
  Contracts of the file operations: where a path leads when no link is on the way, where it leads
  through links (the library's \<^verbatim>\<open>EvalSymlinks\<close> agrees with the kernel's walk), and what
  \<^verbatim>\<open>MkdirAll\<close> changes.
\<close>

section \<open>Walks through links\<close>

lemma eval_skip: "c = [] \<or> c = ''.'' \<Longrightarrow> eval_links fs n ab dest at (c # cs) = eval_links fs n ab dest at cs"
  and eval_up: "eval_links fs n True dest at (''..'' # cs) = eval_links fs n True (butlast dest) (butlast at) cs"
  by (simp_all add: eval_links.simps)

lemma eval_name:
  assumes "c \<noteq> []" and "c \<noteq> ''.''" and "c \<noteq> ''..''"
  shows "map_of fs (at @ [c]) = None \<Longrightarrow> eval_links fs n ab dest at (c # cs) = Inl ENOENT"
    and "map_of fs (at @ [c]) = Some DirNode \<Longrightarrow>
      eval_links fs n ab dest at (c # cs) = eval_links fs n ab (dest @ [c]) (at @ [c]) cs"
    and "map_of fs (at @ [c]) = Some (FileNode x) \<Longrightarrow>
      eval_links fs n ab dest at (c # cs) = (if cs = [] then Inr (ab, dest @ [c]) else Inl ENOTDIR)"
    and "map_of fs (at @ [c]) = Some (LinkNode t) \<Longrightarrow>
      eval_links fs n ab dest at (c # cs) =
        (case n of
           0 \<Rightarrow> Inl (EOther ''EvalSymlinks: too many links'')
         | Suc m \<Rightarrow>
             if rooted t then eval_links fs m True [] [] (split_on slash t @ cs)
             else eval_links fs m ab dest at (split_on slash t @ cs))"
  using assms by (simp_all add: eval_links.simps)

lemmas links_induct = wf_induct_rule [OF wf_lex_prod [OF wf_less_than wf_less_than]]

lemma eval_mono:
  "eval_links fs n True at at cs = Inr r \<Longrightarrow> n \<le> m \<Longrightarrow> eval_links fs m True at at cs = Inr r"
proof (induction "(n, length cs)" arbitrary: n m at cs rule: links_induct)
  case (1 n cs)
  show ?case
  proof (cases cs)
    case Nil
    with 1 show ?thesis by simp
  next
    case (Cons c cs')
    note IH = 1(1) and run = 1(2) [unfolded Cons] and le = 1(3)
    show ?thesis unfolding Cons
    proof (cases rule: walk_cases [where c = c and fs = fs and at = at])
      case (link t)
      show "eval_links fs m True at at (c # cs') = Inr r"
        using run le IH [of _ "split_on slash t @ cs'" "if rooted t then [] else at"] link Cons
        by (auto simp: eval_name split: if_splits nat.splits dest: Suc_le_D)
    qed (use run le IH [of n cs'] Cons in \<open>auto simp: eval_skip eval_up eval_name split: if_splits\<close>)
  qed
qed

text \<open>A walk to a named entry passes through the directory the library resolves.\<close>

lemma walk_parent:
  "walk fs fl n at (ps @ [b]) = Inr q \<Longrightarrow> name_ok b \<Longrightarrow>
     \<exists>r m. eval_links fs n True at at ps = Inr (True, r) \<and> (\<forall>fl. walk fs fl n at (ps @ [b]) = walk fs fl m r [b])"
proof (induction "(n, length ps)" arbitrary: n at ps rule: links_induct)
  case (1 n ps)
  show ?case
  proof (cases ps)
    case Nil
    with 1 show ?thesis by auto
  next
    case (Cons c cs)
    note IH = 1(1) and run = 1(2) [unfolded Cons, simplified] and ok = 1(3)
    show ?thesis unfolding Cons
    proof (cases rule: walk_cases [where c = c and fs = fs and at = at])
      case (link t)
      obtain k where n: "n = Suc k" and run': "walk fs fl k (if rooted t then [] else at) ((split_on slash t @ cs) @ [b]) = Inr q"
        using run link by (auto simp: walk_name split: nat.splits)
      from IH [OF _ run' ok] n Cons obtain r m where
        "eval_links fs k True (if rooted t then [] else at) (if rooted t then [] else at) (split_on slash t @ cs) = Inr (True, r)"
        "\<forall>fl. walk fs fl k (if rooted t then [] else at) ((split_on slash t @ cs) @ [b]) = walk fs fl m r [b]" by fastforce
      then show "\<exists>r m. eval_links fs n True at at (c # cs) = Inr (True, r) \<and>
          (\<forall>fl. walk fs fl n at ((c # cs) @ [b]) = walk fs fl m r [b])"
        using link n by (intro exI [of _ r] exI [of _ m]) (auto simp: eval_name walk_name split: if_splits)
    qed (use run ok IH [of n cs] Cons in \<open>auto simp: walk_skip walk_up walk_name eval_skip eval_up eval_name\<close>)
  qed
qed

lemma eval_names:
  "eval_links fs n True at at cs = Inr (ab, r) \<Longrightarrow> list_all name_ok at \<Longrightarrow> list_all (\<lambda>c. slash \<notin> set c) cs \<Longrightarrow>
     ab \<and> list_all name_ok r"
proof (induction "(n, length cs)" arbitrary: n at cs rule: links_induct)
  case (1 n cs)
  show ?case
  proof (cases cs)
    case Nil
    with 1 show ?thesis by simp
  next
    case (Cons c cs')
    note IH = 1(1) and run = 1(2) [unfolded Cons] and ats = 1(3) and css = 1(4) [unfolded Cons]
    have up: "list_all name_ok (butlast at)" using ats by (auto simp: list_all_iff dest: in_set_butlastD)
    show ?thesis
    proof (cases rule: walk_cases [where c = c and fs = fs and at = at])
      case (link t)
      have "list_all (\<lambda>c. slash \<notin> set c) (split_on slash t @ cs')"
        using css by (auto simp: list_all_iff dest: split_on_no_sep)
      then show ?thesis
        using run IH [of _ "split_on slash t @ cs'" "if rooted t then [] else at"] link ats Cons
        by (auto simp: eval_name split: if_splits nat.splits)
    next
      case directory
      then have "name_ok c" using css by (intro name_okI) auto
      then show ?thesis using run IH [of n cs' "at @ [c]"] directory Cons ats css by (auto simp: eval_name)
    next
      case (regular x)
      then have "name_ok c" using css by (intro name_okI) auto
      then show ?thesis using run regular ats by (auto simp: eval_name split: if_splits)
    qed (use run IH [of n cs'] Cons up ats css in \<open>auto simp: eval_skip eval_up eval_name\<close>)
  qed
qed

section \<open>Walks without links\<close>

lemma locate_abs:
  assumes "list_all name_ok xs"
  shows "locate K fl (abs_path xs) fs = walk fs fl maxlinks [] xs"
    and "locate K fl (abs_path xs @ [slash]) fs = walk fs fl maxlinks [] (xs @ [[]])"
proof -
  have r: "rooted (abs_path xs @ [slash])" by (simp add: abs_path_def rooted_def)
  show "locate K fl (abs_path xs) fs = walk fs fl maxlinks [] xs"
    using assms by (simp add: locate_def start_of_def split_abs walk_skip)
  show "locate K fl (abs_path xs @ [slash]) fs = walk fs fl maxlinks [] (xs @ [[]])"
    using assms r split_on_append [of slash "abs_path xs" "[]"]
    by (simp add: locate_def start_of_def split_abs walk_skip)
qed

definition link_free :: "files \<Rightarrow> string list \<Rightarrow> bool" where
  "link_free fs ds = (\<forall>q t. prefix ds q \<longrightarrow> map_of fs q \<noteq> Some (LinkNode t))"

lemma walk_free:
  assumes "link_free fs ds" and "prefix ds at" and "list_all name_ok es" and "walk fs fl n at (es @ ending) = Inr q"
    and "ending = [] \<or> ending = [[]]" and "real_dir fs at"
  shows "q = at @ es \<and> (es \<noteq> [] \<longrightarrow> real_dir fs (at @ butlast es)) \<and> (ending = [[]] \<longrightarrow> real_dir fs (at @ es))"
  using assms
proof (induction es arbitrary: at)
  case Nil
  then show ?case by (auto simp: walk_skip)
next
  case (Cons c es)
  from Cons.prems(3) have ok: "c \<noteq> []" "c \<noteq> ''.''" "c \<noteq> ''..''" and es: "list_all name_ok es" by simp_all
  have free: "map_of fs (at @ [c]) \<noteq> Some (LinkNode t)" for t
    using Cons.prems(1,2) by (auto simp: link_free_def)
  show ?case
  proof (cases "map_of fs (at @ [c])")
    case None
    then show ?thesis using Cons.prems(4-6) by (auto simp: walk_name(1) [OF ok] split: if_splits)
  next
    case (Some nd)
    show ?thesis
    proof (cases nd)
      case DirNode
      then have "real_dir fs (at @ [c])" using Some Cons.prems(6) by (simp add: real_dir_snoc)
      moreover have "walk fs fl n (at @ [c]) (es @ ending) = Inr q"
        using Cons.prems(4) Some DirNode by (simp add: walk_name(2) [OF ok])
      ultimately show ?thesis using Cons.IH [of "at @ [c]"] Cons.prems(1,2,5,6) es by auto
    next
      case (FileNode x)
      then show ?thesis using Cons.prems(4-6) Some by (auto simp: walk_name(3) [OF ok] split: if_splits)
    next
      case (LinkNode t)
      then show ?thesis using free [of t] Some by simp
    qed
  qed
qed

lemma walk_to_real: "real_dir fs xs \<Longrightarrow> list_all name_ok xs \<Longrightarrow> walk fs fl n [] xs = Inr xs"
  using walk_real [of fs "[]" xs fl n "[]"] by simp

lemma walk_confined:
  assumes "real_dir fs ds" and "link_free fs ds" and "list_all name_ok (ds @ es)"
    and "walk fs fl n [] ((ds @ es) @ ending) = Inr q" and "ending = [] \<or> ending = [[]]"
  shows "q = ds @ es \<and> (es \<noteq> [] \<longrightarrow> real_dir fs (ds @ butlast es)) \<and> (ending = [[]] \<longrightarrow> real_dir fs (ds @ es))"
  using walk_free [of fs ds ds es fl n ending q] walk_real [of fs "[]" ds fl n "es @ ending"] assms by simp

section \<open>What MkdirAll changes\<close>

lemma strip_slashes_abs:
  assumes "list_all name_ok xs" and "xs \<noteq> []" and "ending = [] \<or> ending = [slash]"
  shows "strip_slashes (abs_path xs @ ending) = abs_path xs"
proof -
  obtain ys y where xs: "xs = ys @ [y]" using assms(2) by (cases xs rule: rev_cases) auto
  obtain zs z where y: "y = zs @ [z]" "z \<noteq> slash"
    using assms(1) name_ok_simps(4) [of y] unfolding xs by (cases y rule: rev_cases) auto
  obtain p where "abs_path xs = p @ [z]"
    unfolding xs y(1) by (cases "ys = []") (auto simp: abs_path_one abs_path_snoc)
  then show ?thesis using assms(3) y(2) by (auto simp: strip_slashes_def)
qed

lemma parent_path_abs:
  assumes "list_all name_ok (xs @ [x])" and "ending = [] \<or> ending = [slash]"
  shows "parent_path (abs_path (xs @ [x]) @ ending) = abs_path xs @ (if xs = [] then [] else [slash])"
proof -
  have "after_slash (abs_path (xs @ [x])) = x" using assms(1) by (simp add: after_slash_abs)
  then show ?thesis
    using assms strip_slashes_abs [of "xs @ [x]" ending]
    by (cases "xs = []") (auto simp: parent_path_def abs_path_snoc abs_path_one abs_path_def [of "[]"])
qed

text \<open>Only directories on the way to \<open>xs\<close> and below \<open>ds\<close> have appeared.\<close>

definition grows :: "string list \<Rightarrow> string list \<Rightarrow> files \<Rightarrow> files \<Rightarrow> bool" where
  "grows ds xs fs fs' = (\<forall>q. map_of fs' q = map_of fs q \<or>
     map_of fs q = None \<and> map_of fs' q = Some DirNode \<and> prefix ds q \<and> prefix q xs)"

lemma grows_refl [simp]: "grows ds xs fs fs"
  by (simp add: grows_def)

lemma grows_trans: "grows ds xs fs fs' \<Longrightarrow> grows ds ys fs' fs'' \<Longrightarrow> prefix xs ys \<Longrightarrow> grows ds ys fs fs''"
  unfolding grows_def by (metis option.distinct(1) prefix_order.trans)

lemma grows_real: "grows ds xs fs fs' \<Longrightarrow> real_dir fs at \<Longrightarrow> real_dir fs' at"
  unfolding grows_def real_dir_def by (metis option.distinct(1))

lemma grows_free: "grows ds xs fs fs' \<Longrightarrow> link_free fs at \<Longrightarrow> link_free fs' at"
  unfolding grows_def link_free_def by (metis node.distinct(3) option.inject)

lemma create_node_real:
  assumes "real_dir fs xs" and "list_all name_ok xs"
  shows "snd (create_node K oper (abs_path xs) nd fs) = fs"
  using assms by (auto simp: create_node_def locate_abs walk_to_real real_dir_def split: option.splits)

lemma create_node_confined:
  assumes "real_dir fs ds" and "link_free fs ds" and "list_all name_ok (ds @ es)"
    and "create_node K oper (abs_path (ds @ es)) nd fs = (r, fs')"
  shows "(r \<noteq> None \<and> fs' = fs) \<or>
    (r = None \<and> fs' = put_node (ds @ es) nd fs \<and> ds @ es \<noteq> [] \<and> map_of fs (ds @ es) = None \<and>
     real_dir fs (butlast (ds @ es)))"
proof (cases "os_fault K oper (abs_path (ds @ es)) fs")
  case (Some e)
  then show ?thesis using assms(4) by (auto simp: create_node_def)
next
  case None
  show ?thesis
  proof (cases "walk fs False maxlinks [] (ds @ es)")
    case (Inl e)
    then show ?thesis using assms(3,4) None by (auto simp: create_node_def locate_abs)
  next
    case (Inr q)
    with walk_confined [OF assms(1-3), of False maxlinks "[]" q] have q: "q = ds @ es"
      and rd: "es \<noteq> [] \<longrightarrow> real_dir fs (ds @ butlast es)" by simp_all
    have "real_dir fs (butlast (ds @ es))"
      using rd assms(1) by (cases "es = []"; cases ds rule: rev_cases) (auto simp: butlast_append real_dir_snoc)
    then show ?thesis
      using assms(3,4) None Inr q by (auto simp: create_node_def locate_abs split: if_splits)
  qed
qed

lemma stat_node_dir:
  assumes "real_dir fs ds" and "link_free fs ds" and "list_all name_ok (ds @ es)"
    and "ending = [] \<or> ending = [slash]" and "stat_node K fl (abs_path (ds @ es) @ ending) fs = Inr DirNode"
  shows "real_dir fs (ds @ es)"
proof -
  obtain tail where tail: "tail = [] \<or> tail = [[]]"
    "locate K fl (abs_path (ds @ es) @ ending) fs = walk fs fl maxlinks [] ((ds @ es) @ tail)"
    using assms(4) locate_abs [OF assms(3), of K fl fs] by (metis append_Nil2)
  then obtain q where q: "walk fs fl maxlinks [] ((ds @ es) @ tail) = Inr q" "node_at fs q = Some DirNode"
    using assms(5) by (auto simp: stat_node_def split: sum.splits option.splits)
  from walk_confined [OF assms(1-3) q(1) tail(1)] q(2) assms(1) show ?thesis
    by (cases es rule: rev_cases) (auto simp: real_dir_snoc simp flip: append_assoc split: if_splits)
qed

lemma MkdirAll_step:
  "MkdirAll K p fs = (r, fs') \<Longrightarrow>
   (fs' = fs \<and> (r = None \<longrightarrow> Stat K p fs = Inr DirNode)) \<or>
   (\<exists>r1 fs1. (if parent_path p \<noteq> [] then MkdirAll K (parent_path p) fs else (None, fs)) = (r1, fs1) \<and>
     (r1 \<noteq> None \<and> r = r1 \<and> fs' = fs1 \<or>
      r1 = None \<and> (\<exists>r2. Mkdir K p fs1 = (r2, fs') \<and> (r = None \<longrightarrow> r2 = None \<or> Lstat K p fs' = Inr DirNode))))"
  by (subst (asm) MkdirAll.simps)
    (auto split: sum.splits node.splits prod.splits option.splits if_splits)

text \<open>On any path \<^verbatim>\<open>MkdirAll\<close> adds directories and changes nothing else.\<close>

definition dirs_added :: "files \<Rightarrow> files \<Rightarrow> bool" where
  "dirs_added fs fs' = (\<forall>q. map_of fs' q = map_of fs q \<or> map_of fs q = None \<and> map_of fs' q = Some DirNode)"

lemma dirs_added_refl [simp]: "dirs_added fs fs"
  by (simp add: dirs_added_def)

lemma dirs_added_trans: "dirs_added fs fs' \<Longrightarrow> dirs_added fs' fs'' \<Longrightarrow> dirs_added fs fs''"
  unfolding dirs_added_def by (metis option.distinct(1))

lemma Mkdir_dirs: "Mkdir K p fs = (r, fs') \<Longrightarrow> dirs_added fs fs'"
  by (auto simp: Mkdir_def create_node_def dirs_added_def split: option.splits sum.splits if_splits)

lemma MkdirAll_dirs: "dirs_added fs (snd (MkdirAll K p fs))"
proof (induction K p fs rule: MkdirAll.induct)
  case (1 K p fs)
  obtain r fs' where run: "MkdirAll K p fs = (r, fs')" by fastforce
  from MkdirAll_step [OF run] show ?case
  proof
    assume "fs' = fs \<and> (r = None \<longrightarrow> Stat K p fs = Inr DirNode)"
    then show ?thesis using run by simp
  next
    assume "\<exists>r1 fs1. (if parent_path p \<noteq> [] then MkdirAll K (parent_path p) fs else (None, fs)) = (r1, fs1) \<and>
     (r1 \<noteq> None \<and> r = r1 \<and> fs' = fs1 \<or>
      r1 = None \<and> (\<exists>r2. Mkdir K p fs1 = (r2, fs') \<and> (r = None \<longrightarrow> r2 = None \<or> Lstat K p fs' = Inr DirNode)))"
    then obtain r1 fs1 where parent: "(if parent_path p \<noteq> [] then MkdirAll K (parent_path p) fs else (None, fs)) = (r1, fs1)"
      and rest: "fs' = fs1 \<or> (\<exists>r2. Mkdir K p fs1 = (r2, fs'))" by blast
    show ?thesis
    proof (cases "Stat K p fs")
      case (Inl e)
      then have "dirs_added fs fs1" using 1 parent by (auto split: if_splits)
      then show ?thesis using rest run Mkdir_dirs dirs_added_trans by fastforce
    next
      case (Inr nd)
      then have "fs' = fs" using run by (subst (asm) MkdirAll.simps) (auto split: node.splits)
      then show ?thesis using run by simp
    qed
  qed
qed

lemma Mkdir_abs:
  assumes "list_all name_ok xs" and "ending = [] \<or> ending = [slash]" and "xs \<noteq> []"
  shows "Mkdir K (abs_path xs @ ending) fs = create_node K ''mkdir'' (abs_path xs) DirNode fs"
  using assms by (simp add: Mkdir_def strip_slashes_abs)

text \<open>
  Below a real directory without links, \<^verbatim>\<open>MkdirAll\<close> adds directories on its path only. The path
  leads to, or comes from, that directory.
\<close>

definition on_path :: "string list \<Rightarrow> string list \<Rightarrow> files \<Rightarrow> bool" where
  "on_path ds xs fs = (list_all name_ok xs \<and> list_all name_ok ds \<and> (prefix xs ds \<or> prefix ds xs) \<and>
     real_dir fs ds \<and> link_free fs ds)"

lemma on_path_cases:
  assumes "on_path ds xs fs"
  obtains (above) "real_dir fs xs" "list_all name_ok xs"
  | (below) es where "xs = ds @ es" "real_dir fs ds" "link_free fs ds" "list_all name_ok (ds @ es)"
  using assms real_dir_append unfolding on_path_def prefix_def by blast

lemma on_path_grows: "on_path ds xs fs \<Longrightarrow> grows ds ys fs fs' \<Longrightarrow> on_path ds xs fs'"
  by (auto simp: on_path_def intro: grows_real grows_free)

lemma on_path_parent: "on_path ds (xs @ [x]) fs \<Longrightarrow> on_path ds xs fs"
  by (auto simp: on_path_def prefix_snoc dest: append_prefixD)

lemma stat_real:
  assumes "on_path ds xs fs" and "ending = [] \<or> ending = [slash]"
    and "stat_node K fl (abs_path xs @ ending) fs = Inr DirNode"
  shows "real_dir fs xs"
  using assms(1)
proof (cases rule: on_path_cases)
  case (below es)
  then show ?thesis using stat_node_dir assms(2,3) by blast
qed

lemma MkdirAll_root:
  assumes "ending = [] \<or> ending = [slash]"
  shows "snd (MkdirAll K (abs_path [] @ ending) fs) = fs"
proof -
  obtain p where p: "abs_path [] @ ending = p" "p = [slash] \<or> p = [slash, slash]"
    using assms by (auto simp: abs_path_def)
  have strip: "strip_slashes p = []" and par: "parent_path p = []"
    using p(2) by (auto simp: strip_slashes_def parent_path_def)
  have "locate K False p fs = Inr []"
    using p(2) by (auto simp: locate_def start_of_def rooted_def walk_skip)
  then have "snd (Mkdir K p fs) = fs"
    using strip by (auto simp: Mkdir_def create_node_def split: option.splits)
  moreover obtain r fs' where run: "MkdirAll K p fs = (r, fs')" by fastforce
  ultimately show ?thesis using MkdirAll_step [OF run] par p(1) by auto
qed

lemma Mkdir_grows:
  assumes "on_path ds (xs @ [x]) fs" and "ending = [] \<or> ending = [slash]" and "real_dir fs xs"
    and "Mkdir K (abs_path (xs @ [x]) @ ending) fs = (r, fs')"
  shows "grows ds (xs @ [x]) fs fs' \<and>
    (r = None \<or> Lstat K (abs_path (xs @ [x]) @ ending) fs' = Inr DirNode \<longrightarrow> real_dir fs' (xs @ [x]))"
proof -
  have ok: "list_all name_ok (xs @ [x])" using assms(1) by (simp add: on_path_def)
  have mk: "create_node K ''mkdir'' (abs_path (xs @ [x])) DirNode fs = (r, fs')"
    using assms(4) Mkdir_abs [OF ok assms(2)] by simp
  from assms(1) show ?thesis
  proof (cases rule: on_path_cases)
    case above
    then show ?thesis using create_node_real [OF above] mk by (metis grows_refl snd_conv)
  next
    case (below es)
    note conf = create_node_confined [OF below(2,3,4) mk [unfolded below(1)]]
    show ?thesis
    proof (cases r)
      case None
      then have fs': "fs' = put_node (xs @ [x]) DirNode fs" "map_of fs (xs @ [x]) = None" using conf below(1) by auto
      then have g: "grows ds (xs @ [x]) fs fs'" using below(1) by (auto simp: grows_def)
      then show ?thesis using grows_real [OF g assms(3)] fs' by (simp add: real_dir_snoc)
    next
      case (Some e)
      then have "fs' = fs" using conf by auto
      then show ?thesis
        using Some stat_real [OF assms(1,2), of K False] by (auto simp: Lstat_def faulty_def split: option.splits)
    qed
  qed
qed

lemma MkdirAll_grows:
  assumes "on_path ds xs fs" and "ending = [] \<or> ending = [slash]" and "MkdirAll K (abs_path xs @ ending) fs = (r, fs')"
  shows "grows ds xs fs fs' \<and> (r = None \<longrightarrow> real_dir fs' xs)"
  using assms
proof (induction xs arbitrary: ending r fs' rule: rev_induct)
  case Nil
  then show ?case using MkdirAll_root [OF Nil.prems(2), of K fs] by simp
next
  case (snoc x xs)
  let ?p = "abs_path (xs @ [x]) @ ending"
  have pp: "parent_path ?p = abs_path xs @ (if xs = [] then [] else [slash])"
    using parent_path_abs snoc.prems(1,2) unfolding on_path_def by blast
  from MkdirAll_step [OF snoc.prems(3)] consider
    (there) "fs' = fs" "r = None \<longrightarrow> Stat K ?p fs = Inr DirNode"
  | (failed) "MkdirAll K (parent_path ?p) fs = (r, fs')" "r \<noteq> None"
  | (made) fs1 r2 where "MkdirAll K (parent_path ?p) fs = (None, fs1)" "Mkdir K ?p fs1 = (r2, fs')"
      "r = None \<longrightarrow> r2 = None \<or> Lstat K ?p fs' = Inr DirNode"
    unfolding pp by auto
  then show ?case
  proof cases
    case there
    then show ?thesis
      using stat_real [OF snoc.prems(1,2), of K True] by (auto simp: Stat_def faulty_def split: option.splits)
  next
    case failed
    from snoc.IH [OF on_path_parent [OF snoc.prems(1)] _ failed(1) [unfolded pp]] failed(2)
    show ?thesis using grows_trans [OF _ grows_refl, of ds xs fs fs' "xs @ [x]"] by (auto split: if_splits)
  next
    case made
    from snoc.IH [OF on_path_parent [OF snoc.prems(1)] _ made(1) [unfolded pp]]
    have g: "grows ds xs fs fs1" and rd: "real_dir fs1 xs" by (auto split: if_splits)
    from Mkdir_grows [OF on_path_grows [OF snoc.prems(1) g] snoc.prems(2) rd made(2)] made(3)
    show ?thesis using grows_trans [OF g] by auto
  qed
qed

section \<open>Well-formed trees\<close>

text \<open>Every node but the root is in a directory.\<close>

definition tree_ok :: "files \<Rightarrow> bool" where
  "tree_ok fs = (map_of fs [] = None \<and> (\<forall>q c. map_of fs (q @ [c]) \<noteq> None \<longrightarrow> node_at fs q = Some DirNode))"

lemma tree_ok_below:
  assumes "tree_ok fs" and "map_of fs ds = None" and "prefix ds q" and "ds \<noteq> []"
  shows "map_of fs q = None"
proof -
  obtain es where q: "q = ds @ es" using assms(3) by (auto simp: prefix_def)
  have "map_of fs (ds @ es) = None"
  proof (induction es rule: rev_induct)
    case Nil
    then show ?case using assms(2) by simp
  next
    case (snoc c es)
    then have "node_at fs (ds @ es) = None" using assms(4) by simp
    then show ?case using assms(1) unfolding tree_ok_def by (metis append_assoc option.distinct(1))
  qed
  then show ?thesis by (simp add: q)
qed

lemma create_in_real:
  assumes "real_dir fs ts" and "list_all name_ok (ts @ [x])" and "create_node K oper (abs_path (ts @ [x])) nd fs = (None, fs')"
  shows "fs' = put_node (ts @ [x]) nd fs \<and> map_of fs (ts @ [x]) = None"
proof -
  have "walk fs False maxlinks [] (ts @ [x]) = Inr (ts @ [x])"
    using walk_real [of fs "[]" ts False maxlinks "[x]"] walk_last [of x fs ts False] assms(1,2) by simp
  then show ?thesis
    using assms(3) by (auto simp: create_node_def locate_abs [OF assms(2)] split: option.splits if_splits)
qed

lemma map_of_filter_prefix:
  "map_of (filter (\<lambda>(q, nd). \<not> prefix at q) fs) q = (if prefix at q then None else map_of fs q)"
  by (induction fs) auto

end
