(* ===== verification/Image_Extract.thy ===== *)
theory Image_Extract
  imports File_Facts Kube_Env
begin

text \<open>
  Pulling a tests image (\<^verbatim>\<open>src/internal/image/traverse.go\<close>): the image is fetched, its merged file
  system is written below a temporary directory, a function runs on that directory, and the
  directory is removed.

  The registry client is not part of the repository: it is the record \<open>registry\<close>. A tar stream is the
  list of its entries, a header and the bytes of its body (with the error that cuts the body short,
  if any), and what ends the stream: the end of the file or an error.
\<close>

section \<open>Archives and images\<close>

datatype typeflag = TypeDir | TypeReg | TypeSymlink | TypeOther

record header =
  h_Name :: string
  h_Typeflag :: typeflag
  h_Linkname :: string

type_synonym body = "string \<times> go_error option"
type_synonym tar_entry = "header \<times> body"
type_synonym tar_stream = "tar_entry list \<times> go_error option"

datatype auth = Basic string string | DefaultKeychain

text \<open>What the registry client gives of an image: its merged file system and its digest.\<close>

record image =
  im_stream :: tar_stream
  im_digest :: "go_error + string"

record registry =
  rg_parse :: "string \<Rightarrow> go_error + string"
  rg_pull :: "ctx \<Rightarrow> string \<Rightarrow> auth \<Rightarrow> go_error + image"
  rg_layer :: "string \<Rightarrow> go_error + tar_stream"
  rg_append :: "tar_stream \<Rightarrow> go_error + image"
  rg_push :: "ctx \<Rightarrow> string \<Rightarrow> image \<Rightarrow> auth \<Rightarrow> go_error option"

record image_remote =
  ir_Ref :: string
  ir_Username :: string
  ir_Password :: string

section \<open>Guards\<close>

definition withinRoot :: "string \<Rightarrow> string \<Rightarrow> bool" where
  "withinRoot root path = prefix root (Clean path @ [slash])"

definition realParentWithinRoot :: "os \<Rightarrow> string \<Rightarrow> string \<Rightarrow> files \<Rightarrow> bool" where
  "realParentWithinRoot K root target fs =
     (case EvalSymlinks K (Dir target) fs of
        Inl e \<Rightarrow> False
      | Inr realPath \<Rightarrow> withinRoot root realPath)"

definition symlinkWithinRoot :: "string \<Rightarrow> string \<Rightarrow> string \<Rightarrow> string \<Rightarrow> bool" where
  "symlinkWithinRoot root dir target linkname =
     (let resolved =
        (if rooted linkname then Join [dir, Clean (slash # linkname)] else Join [Dir target, linkname])
      in withinRoot root resolved)"

section \<open>Extraction\<close>

definition writeFile :: "os \<Rightarrow> string \<Rightarrow> body \<Rightarrow> files \<Rightarrow> go_error option \<times> files" where
  "writeFile K path r fs =
     (case open_trunc K path fs of
        Inl e \<Rightarrow> (Some (path_error ''open'' path e), fs)
      | Inr (at, fs') \<Rightarrow>
          (case copy_into K path at r fs' of
             (Some e, fs'') \<Rightarrow> (Some (wrap ''copy'' e), fs'')
           | (None, fs'') \<Rightarrow> (None, fs'')))"

definition extractEntry :: "os \<Rightarrow> string \<Rightarrow> string \<Rightarrow> header \<Rightarrow> body \<Rightarrow> files \<Rightarrow> go_error option \<times> files" where
  "extractEntry K root dir hdr r fs =
     (let target = Join [dir, Clean (slash # h_Name hdr)] in
      if \<not> withinRoot root target then (None, fs)
      else case h_Typeflag hdr of
        TypeDir \<Rightarrow>
          (case MkdirAll K target fs of
             (Some e, fs') \<Rightarrow> (Some (wrap (msg [''mkdir '', sq target]) (mkdir_error e)), fs')
           | (None, fs') \<Rightarrow> (None, fs'))
      | TypeReg \<Rightarrow>
          (case MkdirAll K (Dir target) fs of
             (Some e, fs') \<Rightarrow> (Some (wrap (msg [''mkdir parent '', sq target]) (mkdir_error e)), fs')
           | (None, fs') \<Rightarrow>
               if \<not> realParentWithinRoot K root target fs' then (None, fs')
               else (case writeFile K target r fs' of
                  (Some e, fs'') \<Rightarrow> (Some (wrap (msg [''write '', sq target]) e), fs'')
                | (None, fs'') \<Rightarrow> (None, fs'')))
      | TypeSymlink \<Rightarrow>
          if \<not> symlinkWithinRoot root dir target (h_Linkname hdr) then (None, fs)
          else (case Symlink K (h_Linkname hdr) target fs of
             (Some e, fs') \<Rightarrow>
               if e = EEXIST then (None, fs')
               else (Some (wrap (msg [''symlink '', sq target]) (path_error ''symlink'' target e)), fs')
           | (None, fs') \<Rightarrow> (None, fs'))
      | TypeOther \<Rightarrow> (None, fs))"

definition whiteout :: "header \<Rightarrow> bool" where
  "whiteout hdr = prefix ''.wh.'' (Base (h_Name hdr))"

fun extract_loop :: "os \<Rightarrow> string \<Rightarrow> string \<Rightarrow> tar_entry list \<Rightarrow> go_error option \<Rightarrow> files \<Rightarrow> go_error option \<times> files" where
  "extract_loop K root dir [] None fs = (None, fs)"
| "extract_loop K root dir [] (Some e) fs = (Some (wrap ''read tar'' e), fs)"
| "extract_loop K root dir ((hdr, r) # entries) err fs =
     (if whiteout hdr then extract_loop K root dir entries err fs
      else case extractEntry K root dir hdr r fs of
        (Some e, fs') \<Rightarrow> (Some e, fs')
      | (None, fs') \<Rightarrow> extract_loop K root dir entries err fs')"

definition extract_image :: "os \<Rightarrow> image \<Rightarrow> string \<Rightarrow> files \<Rightarrow> go_error option \<times> files" where
  "extract_image K img dir fs =
     (let root = Clean dir @ [slash] in
      extract_loop K root dir (fst (im_stream img)) (snd (im_stream img)) fs)"

section \<open>Pulling and traversing\<close>

definition pull :: "registry \<Rightarrow> ctx \<Rightarrow> image_remote \<Rightarrow> go_error + image" where
  "pull G c r =
     (case rg_parse G (ir_Ref r) of
        Inl e \<Rightarrow> Inl (wrap ''parse reference'' e)
      | Inr ref \<Rightarrow>
          let opts = (if ir_Username r \<noteq> [] then Basic (ir_Username r) (ir_Password r) else DefaultKeychain) in
          (case rg_pull G c ref opts of
             Inl e \<Rightarrow> Inl (wrap ''fetch image'' e)
           | Inr img \<Rightarrow> Inr img))"

text \<open>
  The callback is a function on the variables it captures (\<open>'s\<close>) and the file tree. The temporary
  directory is removed on every path once it exists; a failure to remove it is ignored.
\<close>

definition Traverse :: "registry \<Rightarrow> os \<Rightarrow> ctx \<Rightarrow> image_remote \<Rightarrow>
    (string \<Rightarrow> string \<Rightarrow> 's \<times> files \<Rightarrow> go_error option \<times> 's \<times> files) \<Rightarrow>
    's \<times> files \<Rightarrow> go_error option \<times> 's \<times> files" where
  "Traverse G K c r fn = (\<lambda>(s, fs).
     case pull G c r of
       Inl e \<Rightarrow> (Some (wrap (msg [''pull image '', sq (ir_Ref r)]) e), s, fs)
     | Inr img \<Rightarrow>
         (case MkdirTemp K ''kube2e-image-'' fs of
            (Inl e, fs') \<Rightarrow> (Some (wrap ''create temp dir'' e), s, fs')
          | (Inr dir, fs') \<Rightarrow>
              (case (case extract_image K img dir fs' of
                       (Some e, fs'') \<Rightarrow> (Some (wrap (msg [''extract image '', sq (ir_Ref r)]) e), s, fs'')
                     | (None, fs'') \<Rightarrow>
                         (case im_digest img of
                            Inl e \<Rightarrow> (Some (wrap ''get image digest'' e), s, fs'')
                          | Inr digest \<Rightarrow> fn digest dir (s, fs''))) of
                 (err, s', fs2) \<Rightarrow> (err, s', snd (RemoveAll K dir fs2)))))"

end
