(* ===== verification/Image_Build.thy ===== *)
theory Image_Build
  imports Image_Extract
begin

text \<open>
  Packing test suites into an image (\<^verbatim>\<open>src/internal/image/build.go\<close>): discovery of suite
  directories, selection of the entries of each, the tar layer in a temporary file, and the push.

  \<^verbatim>\<open>filepath.Rel\<close> and \<^verbatim>\<open>filepath.WalkDir\<close> are modelled after the library. The failures of the tar
  writer and the bytes it produces are the record \<open>tar_writer\<close>.
\<close>

section \<open>Relative paths\<close>

fun strip_common :: "string list \<Rightarrow> string list \<Rightarrow> string list \<times> string list" where
  "strip_common (x # xs) (y # ys) = (if x = y then strip_common xs ys else (x # xs, y # ys))"
| "strip_common xs ys = (xs, ys)"

definition path_elems :: "string \<Rightarrow> string list" where
  "path_elems p = (let body = (if rooted p then drop 1 p else p) in if body = [] then [] else split_on slash body)"

definition Rel :: "string \<Rightarrow> string \<Rightarrow> go_error + string" where
  "Rel basepath targpath =
     (let b = Clean basepath; t = Clean targpath in
      if t = b then Inr ''.''
      else let b' = (if b = ''.'' then [] else b);
               err = Opaque (msg [''Rel: can't make '', targpath, '' relative to '', basepath]) in
      if rooted b' \<noteq> rooted t then Inl err
      else case strip_common (path_elems b') (path_elems t) of
        (bs, ts) \<Rightarrow>
          if bs \<noteq> [] \<and> hd bs = ''..'' then Inl err
          else Inr (join [slash] (replicate (length bs) ''..'' @ ts)))"

section \<open>Walking a directory\<close>

text \<open>
  \<^verbatim>\<open>filepath.WalkDir\<close>: the callback sees a directory before its entries, in the order of
  \<^verbatim>\<open>os.ReadDir\<close>; \<^verbatim>\<open>SkipDir\<close> leaves out the entries of a directory, or the rest of the parent for
  another entry. The first argument bounds the nesting: a chain of nested directories has at most
  as many elements as the tree has nodes.
\<close>

datatype walk_err = SkipDir | WalkErr go_error

type_synonym 's walk_fun = "string \<Rightarrow> dirent \<Rightarrow> errno option \<Rightarrow> 's \<Rightarrow> walk_err option \<times> 's"

definition is_dir :: "dirent \<Rightarrow> bool" where
  "is_dir d = (snd d = DirNode)"

definition is_regular :: "dirent \<Rightarrow> bool" where
  "is_regular d = (case snd d of FileNode x \<Rightarrow> True | _ \<Rightarrow> False)"

fun walk_entries :: "(string \<Rightarrow> dirent \<Rightarrow> 's \<Rightarrow> walk_err option \<times> 's) \<Rightarrow> string \<Rightarrow> dirent list \<Rightarrow> 's \<Rightarrow>
    walk_err option \<times> 's" where
  "walk_entries visit path [] s = (None, s)"
| "walk_entries visit path (d1 # ds) s =
     (case visit (Join [path, fst d1]) d1 s of
        (Some SkipDir, s') \<Rightarrow> (None, s')
      | (Some e, s') \<Rightarrow> (Some e, s')
      | (None, s') \<Rightarrow> walk_entries visit path ds s')"

fun walkDir :: "nat \<Rightarrow> os \<Rightarrow> files \<Rightarrow> 's walk_fun \<Rightarrow> string \<Rightarrow> dirent \<Rightarrow> 's \<Rightarrow> walk_err option \<times> 's" where
  "walkDir 0 K fs fn path d s = (Some (WalkErr (Opaque ''directories nested too deep'')), s)"
| "walkDir (Suc n) K fs fn path d s =
     (case fn path d None s of
        (Some e, s') \<Rightarrow> (if e = SkipDir \<and> is_dir d then None else Some e, s')
      | (None, s') \<Rightarrow>
          if \<not> is_dir d then (None, s')
          else (case ReadDir K path fs of
            Inr dirs \<Rightarrow> walk_entries (walkDir n K fs fn) path dirs s'
          | Inl err \<Rightarrow>
              (case fn path d (Some err) s' of
                 (Some e, s'') \<Rightarrow> (if e = SkipDir \<and> is_dir d then None else Some e, s'')
               | (None, s'') \<Rightarrow> (None, s''))))"

definition WalkDir :: "os \<Rightarrow> files \<Rightarrow> 's walk_fun \<Rightarrow> string \<Rightarrow> 's \<Rightarrow> go_error option \<times> 's" where
  "WalkDir K fs fn root s =
     (let (e, s') =
        (case Lstat K root fs of
           Inl err \<Rightarrow> fn root ([], FileNode []) (Some err) s
         | Inr nd \<Rightarrow> walkDir (Suc (Suc (Suc (length fs)))) K fs fn root (Base root, nd) s) in
      (case e of Some (WalkErr g) \<Rightarrow> Some g | _ \<Rightarrow> None, s'))"

section \<open>Selection\<close>

definition casesDirName :: string where
  "casesDirName = ''cases''"

definition templatesDirName :: string where
  "templatesDirName = ''templates''"

definition firstPathPart :: "string \<Rightarrow> string" where
  "firstPathPart rel = takeWhile (\<lambda>c. c \<noteq> slash) rel"

definition lower_char :: "char \<Rightarrow> char" where
  "lower_char c = (if of_char c \<in> {65..90 :: nat} then char_of (of_char c + 32 :: nat) else c)"

definition isYAMLPath :: "string \<Rightarrow> bool" where
  "isYAMLPath path = (map lower_char (Ext path) \<in> {''.yaml'', ''.yml''})"

definition includeLayerEntry :: "string \<Rightarrow> string \<Rightarrow> dirent \<Rightarrow> go_error + bool" where
  "includeLayerEntry dir path entry =
     (if path = dir then Inr True
      else case Rel dir path of
        Inl e \<Rightarrow> Inl (wrap (msg [''build relative path '', sq path]) e)
      | Inr rel \<Rightarrow>
          let base = firstPathPart rel in
          if base \<noteq> casesDirName \<and> base \<noteq> templatesDirName then Inr False
          else if rel = base then Inr (is_dir entry)
          else if is_dir entry then Inr False
          else Inr (is_regular entry \<and> Dir rel = base \<and> isYAMLPath path))"

fun find_dirs :: "os \<Rightarrow> string \<Rightarrow> files \<Rightarrow> dirent list \<Rightarrow> go_error + string list" where
  "find_dirs K path fs [] = Inr []"
| "find_dirs K path fs (entry # entries) =
     (if \<not> is_dir entry \<or> prefix ''.'' (fst entry) then find_dirs K path fs entries
      else let dir = Join [path, fst entry]; casesDir = Join [dir, casesDirName] in
        case Stat K casesDir fs of
          Inl e \<Rightarrow>
            if e = ENOENT then find_dirs K path fs entries
            else Inl (wrap (msg [''stat cases dir '', sq casesDir]) (path_error ''stat'' casesDir e))
        | Inr _ \<Rightarrow>
            (case find_dirs K path fs entries of Inl e \<Rightarrow> Inl e | Inr dirs \<Rightarrow> Inr (dir # dirs)))"

definition findTestDirs :: "os \<Rightarrow> string \<Rightarrow> files \<Rightarrow> go_error + string list" where
  "findTestDirs K path fs =
     (case ReadDir K path fs of
        Inl e \<Rightarrow> Inl (wrap (msg [''read dir '', sq path]) (path_error ''open'' path e))
      | Inr entries \<Rightarrow>
          (case find_dirs K path fs entries of
             Inl e \<Rightarrow> Inl e
           | Inr dirs \<Rightarrow>
               if dirs = [] then Inl (Opaque (msg [''no test dirs found in '', sq path])) else Inr dirs))"

section \<open>Writing the layer\<close>

record tar_writer =
  tw_header :: "tar_entry list \<Rightarrow> header \<Rightarrow> go_error option"
  tw_copy :: "header \<Rightarrow> string \<Rightarrow> go_error option"
  tw_close :: "tar_entry list \<Rightarrow> go_error option"
  tw_file_close :: "tar_entry list \<Rightarrow> go_error option"
  tw_encode :: "tar_entry list \<Rightarrow> string"

text \<open>\<^verbatim>\<open>tar.FileInfoHeader\<close>, with the name the program gives the entry.\<close>

fun file_info_header :: "node \<Rightarrow> string \<Rightarrow> string \<Rightarrow> header" where
  "file_info_header DirNode link nm = \<lparr>h_Name = nm, h_Typeflag = TypeDir, h_Linkname = []\<rparr>"
| "file_info_header (FileNode x) link nm = \<lparr>h_Name = nm, h_Typeflag = TypeReg, h_Linkname = []\<rparr>"
| "file_info_header (LinkNode t) link nm = \<lparr>h_Name = nm, h_Typeflag = TypeSymlink, h_Linkname = link\<rparr>"

definition writeTarFile :: "os \<Rightarrow> tar_writer \<Rightarrow> files \<Rightarrow> header \<Rightarrow> string \<Rightarrow> tar_entry list \<Rightarrow> go_error option \<times> tar_entry list" where
  "writeTarFile K T fs hdr path tw =
     (case ReadFile K path fs of
        Inl e \<Rightarrow> (Some (wrap ''open file'' (path_error ''open'' path e)), tw)
      | Inr content \<Rightarrow>
          (case tw_copy T hdr content of
             Some e \<Rightarrow> (Some (wrap ''copy file'' e), tw)
           | None \<Rightarrow> (None, tw @ [(hdr, (content, None))])))"

definition add_entry :: "os \<Rightarrow> tar_writer \<Rightarrow> files \<Rightarrow> string \<Rightarrow> string \<Rightarrow> tar_entry list walk_fun" where
  "add_entry K T fs root dir path entry err tw =
     (case err of
        Some e \<Rightarrow> (Some (WalkErr (wrap (msg [''walk '', sq path]) (path_error ''open'' path e))), tw)
      | None \<Rightarrow>
          (case includeLayerEntry dir path entry of
             Inl e \<Rightarrow> (Some (WalkErr e), tw)
           | Inr False \<Rightarrow> (if is_dir entry then Some SkipDir else None, tw)
           | Inr True \<Rightarrow>
               (case Lstat K path fs of
                  Inl e \<Rightarrow> (Some (WalkErr (wrap (msg [''stat '', sq path]) (path_error ''lstat'' path e))), tw)
                | Inr info \<Rightarrow>
                    (case (case info of LinkNode t \<Rightarrow> Readlink K path fs | _ \<Rightarrow> Inr []) of
                       Inl e \<Rightarrow> (Some (WalkErr (wrap (msg [''read symlink '', sq path]) (path_error ''readlink'' path e))), tw)
                     | Inr link \<Rightarrow>
                         (case Rel root path of
                            Inl e \<Rightarrow> (Some (WalkErr (wrap (msg [''build relative path '', sq path]) e)), tw)
                          | Inr rel \<Rightarrow>
                              let hdr = file_info_header info link rel in
                              (case tw_header T tw hdr of
                                 Some e \<Rightarrow> (Some (WalkErr (wrap (msg [''write tar header '', sq path]) e)), tw)
                               | None \<Rightarrow>
                                   if h_Typeflag hdr \<noteq> TypeReg then (None, tw @ [(hdr, ([], None))])
                                   else (case writeTarFile K T fs hdr path tw of
                                     (Some e, tw') \<Rightarrow> (Some (WalkErr (wrap (msg [''write tar file '', sq path]) e)), tw')
                                   | (None, tw') \<Rightarrow> (None, tw'))))))))"

definition addDirToTar :: "os \<Rightarrow> tar_writer \<Rightarrow> files \<Rightarrow> string \<Rightarrow> string \<Rightarrow> tar_entry list \<Rightarrow> go_error option \<times> tar_entry list" where
  "addDirToTar K T fs root dir tw = WalkDir K fs (add_entry K T fs root dir) dir tw"

fun add_dirs :: "os \<Rightarrow> tar_writer \<Rightarrow> files \<Rightarrow> string \<Rightarrow> string list \<Rightarrow> tar_entry list \<Rightarrow> go_error option \<times> tar_entry list" where
  "add_dirs K T fs root [] tw = (None, tw)"
| "add_dirs K T fs root (dir # dirs) tw =
     (case addDirToTar K T fs root dir tw of
        (Some e, tw') \<Rightarrow> (Some e, tw')
      | (None, tw') \<Rightarrow> add_dirs K T fs root dirs tw')"

text \<open>\<^verbatim>\<open>os.CreateTemp\<close> gives the path of the new file and the open file, known by its real path.\<close>

definition CreateTemp :: "os \<Rightarrow> string \<Rightarrow> string \<Rightarrow> files \<Rightarrow> (go_error + (string \<times> string list)) \<times> files" where
  "CreateTemp K pre suf fs =
     (let p = msg [os_tmpdir K, [slash], pre, os_random K pre fs, suf] in
      case create_node K ''open'' p (FileNode []) fs of
        (Some e, fs') \<Rightarrow> (Inl (path_error ''open'' p e), fs')
      | (None, fs') \<Rightarrow> (Inr (p, case locate K False p fs of Inr at \<Rightarrow> at | Inl _ \<Rightarrow> []), fs'))"

text \<open>The bytes reach the temporary file when it is closed; on a failure the file is removed.\<close>

definition writeTestLayer :: "os \<Rightarrow> tar_writer \<Rightarrow> string \<Rightarrow> string list \<Rightarrow> files \<Rightarrow> (go_error + string) \<times> files" where
  "writeTestLayer K T root dirs fs =
     (case CreateTemp K ''kube2e-tests-layer-'' ''.tar'' fs of
        (Inl e, fs') \<Rightarrow> (Inl (wrap ''create temp layer'' e), fs')
      | (Inr (f, at), fs') \<Rightarrow>
          (case add_dirs K T fs' root dirs [] of
             (Some e, tw) \<Rightarrow> (Inl e, snd (Remove K f fs'))
           | (None, tw) \<Rightarrow>
               (case tw_close T tw of
                  Some e \<Rightarrow> (Inl (wrap ''close tar'' e), snd (Remove K f fs'))
                | None \<Rightarrow>
                    (case tw_file_close T tw of
                       Some e \<Rightarrow> (Inl (wrap ''close layer'' e), snd (Remove K f fs'))
                     | None \<Rightarrow> (Inr f, put_node at (FileNode (tw_encode T tw)) fs')))))"

section \<open>Building and pushing\<close>

definition registryOptions :: "image_remote \<Rightarrow> auth" where
  "registryOptions r = (if ir_Username r \<noteq> [] then Basic (ir_Username r) (ir_Password r) else DefaultKeychain)"

text \<open>\<^verbatim>\<open>tarball.LayerFromFile\<close> reads the file and hands its bytes to the registry client.\<close>

definition layer_from_file :: "registry \<Rightarrow> os \<Rightarrow> string \<Rightarrow> files \<Rightarrow> go_error + tar_stream" where
  "layer_from_file G K p fs =
     (case ReadFile K p fs of Inl e \<Rightarrow> Inl (path_error ''open'' p e) | Inr content \<Rightarrow> rg_layer G content)"

text \<open>
  The requests that change the registry: the reference, the image, the credentials, and the answer.
  \<^verbatim>\<open>Build\<close> sends at most one.
\<close>

type_synonym push_request = "string \<times> image \<times> auth \<times> go_error option"

definition push_layer :: "registry \<Rightarrow> os \<Rightarrow> ctx \<Rightarrow> image_remote \<Rightarrow> string \<Rightarrow> string \<Rightarrow> files \<Rightarrow>
    (go_error + string) \<times> push_request list" where
  "push_layer G K c r ref layerPath fs =
     (case layer_from_file G K layerPath fs of
        Inl e \<Rightarrow> (Inl (wrap ''create layer'' e), [])
      | Inr layer \<Rightarrow>
          (case rg_append G layer of
             Inl e \<Rightarrow> (Inl (wrap ''append layer'' e), [])
           | Inr img \<Rightarrow>
               (case im_digest img of
                  Inl e \<Rightarrow> (Inl (wrap ''get image digest'' e), [])
                | Inr digest \<Rightarrow>
                    let answer = rg_push G c ref img (registryOptions r); sent = [(ref, img, registryOptions r, answer)] in
                    (case answer of
                       Some e \<Rightarrow> (Inl (wrap (msg [''push image '', sq (ir_Ref r)]) e), sent)
                     | None \<Rightarrow> (Inr digest, sent)))))"

definition Build :: "registry \<Rightarrow> os \<Rightarrow> tar_writer \<Rightarrow> ctx \<Rightarrow> image_remote \<Rightarrow> string \<Rightarrow> files \<Rightarrow>
    ((go_error + string) \<times> push_request list) \<times> files" where
  "Build G K T c r path fs =
     (case rg_parse G (ir_Ref r) of
        Inl e \<Rightarrow> ((Inl (wrap ''parse reference'' e), []), fs)
      | Inr ref \<Rightarrow>
          (case findTestDirs K path fs of
             Inl e \<Rightarrow> ((Inl (wrap ''find test dirs'' e), []), fs)
           | Inr dirs \<Rightarrow>
               (case writeTestLayer K T path dirs fs of
                  (Inl e, fs') \<Rightarrow> ((Inl (wrap ''write test layer'' e), []), fs')
                | (Inr layerPath, fs') \<Rightarrow> (push_layer G K c r ref layerPath fs', snd (Remove K layerPath fs')))))"

end
