(* ===== verification/Image_Confined.thy ===== *)
theory Image_Confined
  imports Image_Extract
begin

text \<open>
  What extraction may change. Entry names never lead out of the directory; an image without
  symbolic links changes nothing outside it; and a regular entry whose own name is not a link
  writes no file outside it, whatever links are on the way.
\<close>

section \<open>Targets\<close>

definition entry_elems :: "string \<Rightarrow> string list" where
  "entry_elems nm = clean_elems True (split_on slash (slash # nm))"

lemma entry_elems_names [simp]: "list_all name_ok (entry_elems nm)"
  unfolding entry_elems_def by (rule clean_elems_names)

lemma target_abs:
  "list_all name_ok ds \<Longrightarrow> Join [abs_path ds, Clean (slash # nm)] = abs_path (ds @ entry_elems nm)"
  using Join_abs [of ds "entry_elems nm"] Clean_rooted [of "slash # nm"]
  unfolding entry_elems_def rooted_def by (simp add: clean_elems_names [of "slash # nm", simplified])

lemma withinRoot_abs:
  "list_all name_ok ds \<Longrightarrow> ds \<noteq> [] \<Longrightarrow> list_all name_ok rs \<Longrightarrow>
     withinRoot (abs_path ds @ [slash]) (abs_path rs) \<longleftrightarrow> prefix ds rs"
  unfolding withinRoot_def using prefix_abs_path [of ds rs] Clean_abs [of rs] by metis

lemma Dir_abs_butlast: "list_all name_ok xs \<Longrightarrow> xs \<noteq> [] \<Longrightarrow> Dir (abs_path xs) = abs_path (butlast xs)"
  by (cases xs rule: rev_cases) (simp_all add: Dir_abs)

section \<open>Images without links\<close>

text \<open>The extraction directory: an absolute path of real directories, without a link below it.\<close>

definition jail :: "string list \<Rightarrow> files \<Rightarrow> bool" where
  "jail ds fs = (list_all name_ok ds \<and> ds \<noteq> [] \<and> real_dir fs ds \<and> link_free fs ds)"

definition confined :: "string list \<Rightarrow> files \<Rightarrow> files \<Rightarrow> bool" where
  "confined ds fs fs' = (\<forall>q. \<not> strict_prefix ds q \<longrightarrow> map_of fs' q = map_of fs q)"

lemma confined_refl [simp]: "confined ds fs fs"
  by (simp add: confined_def)

lemma confined_trans: "confined ds fs fs' \<Longrightarrow> confined ds fs' fs'' \<Longrightarrow> confined ds fs fs''"
  by (simp add: confined_def)

lemma confined_real: "confined ds fs fs' \<Longrightarrow> real_dir fs ds \<Longrightarrow> real_dir fs' ds"
  by (metis confined_def real_dir_def prefix_order.less_le_not_le)

lemma grows_confined: "grows ds xs fs fs' \<Longrightarrow> real_dir fs ds \<Longrightarrow> ds \<noteq> [] \<Longrightarrow> confined ds fs fs'"
  unfolding grows_def confined_def real_dir_def
  by (metis option.distinct(1) prefix_order.le_less prefix_order.order_refl)

lemma grows_jail: "grows ds xs fs fs' \<Longrightarrow> jail ds fs \<Longrightarrow> jail ds fs' \<and> confined ds fs fs'"
  by (auto simp: jail_def intro: grows_real grows_free grows_confined)

lemma jail_on_path:
  "jail ds fs \<Longrightarrow> list_all name_ok es \<Longrightarrow> on_path ds (ds @ es) fs \<and> on_path ds (butlast (ds @ es)) fs"
  by (cases es rule: rev_cases; cases ds rule: rev_cases) (auto simp: jail_def on_path_def butlast_append)

lemma MkdirAll_jail:
  assumes "jail ds fs" and "on_path ds xs fs"
  shows "jail ds (snd (MkdirAll K (abs_path xs) fs)) \<and> confined ds fs (snd (MkdirAll K (abs_path xs) fs))"
proof -
  obtain r fs' where "MkdirAll K (abs_path xs @ []) fs = (r, fs')" by fastforce
  from MkdirAll_grows [OF assms(2) _ this] this grows_jail [OF _ assms(1)] show ?thesis by auto
qed

lemma open_trunc_jail:
  assumes "jail ds fs" and "list_all name_ok es" and "open_trunc K (abs_path (ds @ es)) fs = Inr (at, fs')"
  shows "at = ds @ es \<and> es \<noteq> [] \<and> fs' = put_node at (FileNode []) fs"
proof -
  have ok: "list_all name_ok (ds @ es)" "real_dir fs ds" "link_free fs ds" "ds \<noteq> []"
    using assms(1,2) by (simp_all add: jail_def)
  from assms(3) have w: "walk fs True maxlinks [] ((ds @ es) @ []) = Inr at"
    and "node_at fs at \<noteq> Some DirNode" "fs' = put_node at (FileNode []) fs"
    by (auto simp: open_trunc_def locate_abs [OF ok(1)] split: option.splits sum.splits if_splits)
  moreover from walk_confined [OF ok(2,3,1) w] have "at = ds @ es" by simp
  ultimately show ?thesis using ok(2,4) by (auto simp: real_dir_def)
qed

lemma put_file_jail:
  "jail ds fs \<Longrightarrow> es \<noteq> [] \<Longrightarrow> fs' = put_node (ds @ es) (FileNode x) fs \<Longrightarrow> jail ds fs' \<and> confined ds fs fs'"
  by (auto simp: jail_def confined_def link_free_def real_dir_def strict_prefix_def)

lemma writeFile_jail:
  assumes "jail ds fs" and "list_all name_ok es"
  shows "jail ds (snd (writeFile K (abs_path (ds @ es)) r fs)) \<and> confined ds fs (snd (writeFile K (abs_path (ds @ es)) r fs))"
proof (cases "open_trunc K (abs_path (ds @ es)) fs")
  case (Inl e)
  then show ?thesis using assms(1) by (simp add: writeFile_def)
next
  case (Inr a)
  then obtain at fs1 where o: "open_trunc K (abs_path (ds @ es)) fs = Inr (at, fs1)" by (cases a) simp
  note at = open_trunc_jail [OF assms o]
  have "\<exists>x. snd (writeFile K (abs_path (ds @ es)) r fs) = put_node at (FileNode x) fs1"
    using o by (auto simp: writeFile_def copy_into_def split: option.splits prod.splits)
  then show ?thesis
    using at put_file_jail [OF assms(1)] put_file_jail confined_trans by metis
qed

lemma extractEntry_jail:
  assumes "jail ds fs" and "h_Typeflag hdr \<noteq> TypeSymlink"
    and "extractEntry K (abs_path ds @ [slash]) (abs_path ds) hdr r fs = (err, fs')"
  shows "jail ds fs' \<and> confined ds fs fs'"
proof -
  let ?es = "entry_elems (h_Name hdr)"
  have names: "list_all name_ok ds" "ds \<noteq> []" using assms(1) by (simp_all add: jail_def)
  have t: "Join [abs_path ds, Clean (slash # h_Name hdr)] = abs_path (ds @ ?es)" using names by (simp add: target_abs)
  have d: "Dir (abs_path (ds @ ?es)) = abs_path (butlast (ds @ ?es))" using names by (intro Dir_abs_butlast) simp_all
  note op = jail_on_path [OF assms(1) entry_elems_names [of "h_Name hdr"]]
  note mk = MkdirAll_jail [OF assms(1) conjunct1 [OF op], of K] MkdirAll_jail [OF assms(1) conjunct2 [OF op], of K]
  show ?thesis
  proof (cases "h_Typeflag hdr")
    case TypeReg
    obtain e fs1 where m: "MkdirAll K (abs_path (butlast (ds @ ?es))) fs = (e, fs1)" by fastforce
    with mk(2) have s1: "jail ds fs1" "confined ds fs fs1" by simp_all
    note w = writeFile_jail [OF s1(1) entry_elems_names [of "h_Name hdr"], of K r]
    from TypeReg m assms(3) have "fs' = fs \<or> fs' = fs1 \<or> fs' = snd (writeFile K (abs_path (ds @ ?es)) r fs1)"
      by (auto simp: extractEntry_def Let_def t d split: if_splits option.splits prod.splits)
    then show ?thesis using s1 w assms(1) confined_trans by auto
  qed (use assms mk(1) in \<open>auto simp: extractEntry_def Let_def t split: if_splits option.splits prod.splits\<close>)
qed

lemma extract_loop_jail:
  assumes "jail ds fs" and "list_all (\<lambda>(hdr, r). h_Typeflag hdr \<noteq> TypeSymlink) entries"
  shows "confined ds fs (snd (extract_loop K (abs_path ds @ [slash]) (abs_path ds) entries err fs)) \<and>
    jail ds (snd (extract_loop K (abs_path ds @ [slash]) (abs_path ds) entries err fs))"
  using assms
proof (induction entries arbitrary: fs)
  case Nil
  then show ?case by (cases err) simp_all
next
  case (Cons x entries)
  obtain hdr r where x: "x = (hdr, r)" by (cases x)
  obtain e fs1 where run: "extractEntry K (abs_path ds @ [slash]) (abs_path ds) hdr r fs = (e, fs1)" by fastforce
  have "jail ds fs1 \<and> confined ds fs fs1" using extractEntry_jail [OF Cons.prems(1) _ run] Cons.prems(2) x by simp
  then show ?case
    using Cons run x confined_trans by (cases e) auto
qed

section \<open>Images with links\<close>

text \<open>Files and links outside the directory stay, and none appears there; directories may appear.\<close>

definition files_kept :: "string list \<Rightarrow> files \<Rightarrow> files \<Rightarrow> bool" where
  "files_kept ds fs fs' = (\<forall>q. \<not> strict_prefix ds q \<longrightarrow>
     map_of fs' q = map_of fs q \<or> map_of fs q = None \<and> map_of fs' q = Some DirNode)"

text \<open>
  The guard on the resolved parent: a regular file is opened at an entry of the directory the
  library resolved, unless that entry is itself a link.
\<close>

lemma EvalSymlinks_abs:
  assumes "list_all name_ok xs" and "EvalSymlinks K (abs_path xs) fs = Inr p"
  shows "\<exists>r. eval_links fs 255 True [] [] xs = Inr (True, r) \<and> p = abs_path r \<and> list_all name_ok r"
proof -
  have "eval_links fs 255 True [] [] (split_on slash (abs_path xs)) = eval_links fs 255 True [] [] xs"
    using assms(1) by (simp add: split_abs eval_skip)
  with assms(2) obtain ab r where r: "eval_links fs 255 True [] [] xs = Inr (ab, r)" "p = render ab r"
    by (auto simp: EvalSymlinks_def faulty_def start_of_def split: option.splits sum.splits)
  moreover from eval_names [OF r(1)] assms(1) have "ab" "list_all name_ok r" by (auto simp: list_all_iff)
  ultimately show ?thesis by (auto simp: render_def abs_path_def)
qed

lemma parent_guard:
  assumes "list_all name_ok ds" and "ds \<noteq> []" and "list_all name_ok (xs @ [x])"
    and "realParentWithinRoot K (abs_path ds @ [slash]) (abs_path (xs @ [x])) fs"
    and "open_trunc K (abs_path (xs @ [x])) fs = Inr (at, fs')"
    and "\<And>t. stat_node K False (abs_path (xs @ [x])) fs \<noteq> Inr (LinkNode t)"
  shows "strict_prefix ds at \<and> fs' = put_node at (FileNode []) fs"
proof -
  have ok: "list_all name_ok xs" "name_ok x" using assms(3) by simp_all
  from assms(4) obtain p where ev: "EvalSymlinks K (abs_path xs) fs = Inr p"
    and wr: "withinRoot (abs_path ds @ [slash]) p"
    using ok by (auto simp: realParentWithinRoot_def Dir_abs split: sum.splits)
  from EvalSymlinks_abs [OF ok(1) ev] obtain r where r: "eval_links fs 255 True [] [] xs = Inr (True, r)"
    "p = abs_path r" "list_all name_ok r" by blast
  then have inside: "prefix ds r" using wr withinRoot_abs [OF assms(1,2)] by simp
  from assms(5) have w: "walk fs True maxlinks [] (xs @ [x]) = Inr at" and fs': "fs' = put_node at (FileNode []) fs"
    by (auto simp: open_trunc_def locate_abs [OF assms(3)] split: option.splits sum.splits if_splits)
  from walk_parent [OF w ok(2)] obtain r' m where r': "eval_links fs maxlinks True [] [] xs = Inr (True, r')"
    and eq: "\<And>fl. walk fs fl maxlinks [] (xs @ [x]) = walk fs fl m r' [x]" by blast
  from eval_mono [OF r', of 255] r(1) have same: "r' = r" by (simp add: maxlinks_def)
  have "map_of fs (r @ [x]) \<noteq> Some (LinkNode t)" for t
    using assms(6) [of t] walk_last [OF ok(2), of fs r False m] eq [of False] same
    by (auto simp: stat_node_def locate_abs [OF assms(3)])
  then have "walk fs True m r [x] = Inr (r @ [x])" using walk_last [OF ok(2)] by blast
  then have "at = r @ [x]" using w eq [of True] same by simp
  then show ?thesis using inside fs' by (auto simp: strict_prefix_def prefix_def)
qed

lemma files_kept_dirs: "dirs_added fs fs' \<Longrightarrow> files_kept ds fs fs'"
  by (auto simp: dirs_added_def files_kept_def)

lemma files_kept_put:
  assumes "dirs_added fs fs1" and "strict_prefix ds at"
  shows "files_kept ds fs (put_node at nd (put_node at nd' fs1))"
  unfolding files_kept_def
proof (intro allI impI)
  fix q
  assume "\<not> strict_prefix ds q"
  then have "q \<noteq> at" using assms(2) by blast
  then show "map_of (put_node at nd (put_node at nd' fs1)) q = map_of fs q \<or>
      map_of fs q = None \<and> map_of (put_node at nd (put_node at nd' fs1)) q = Some DirNode"
    using assms(1) by (simp add: dirs_added_def)
qed

lemma regular_entry_kept:
  assumes "list_all name_ok ds" and "ds \<noteq> []" and "h_Typeflag hdr = TypeReg"
    and "extractEntry K (abs_path ds @ [slash]) (abs_path ds) hdr r fs = (err, fs')"
    and "\<And>t. stat_node K False (Join [abs_path ds, Clean (slash # h_Name hdr)])
      (snd (MkdirAll K (Dir (Join [abs_path ds, Clean (slash # h_Name hdr)])) fs)) \<noteq> Inr (LinkNode t)"
  shows "files_kept ds fs fs'"
proof -
  let ?es = "entry_elems (h_Name hdr)"
  have t: "Join [abs_path ds, Clean (slash # h_Name hdr)] = abs_path (ds @ ?es)" using assms(1) by (simp add: target_abs)
  obtain xs x where xs: "ds @ ?es = xs @ [x]" using assms(2) by (cases "ds @ ?es" rule: rev_cases) auto
  then have ok: "list_all name_ok (xs @ [x])" using assms(1) by (metis entry_elems_names list_all_append)
  obtain e fs1 where m: "MkdirAll K (abs_path xs) fs = (e, fs1)" by fastforce
  then have da: "dirs_added fs fs1" using MkdirAll_dirs by (metis snd_conv)
  have d: "Dir (abs_path (xs @ [x])) = abs_path xs" using ok by (simp add: Dir_abs)
  have nl: "stat_node K False (abs_path (xs @ [x])) fs1 \<noteq> Inr (LinkNode t)" for t
    using assms(5) [of t] m d by (simp add: t xs)
  from assms(3,4) m have "fs' = fs \<or> fs' = fs1 \<or>
      realParentWithinRoot K (abs_path ds @ [slash]) (abs_path (xs @ [x])) fs1 \<and>
      fs' = snd (writeFile K (abs_path (xs @ [x])) r fs1)"
    by (auto simp: extractEntry_def Let_def t xs d split: if_splits option.splits prod.splits)
  then consider "dirs_added fs fs'" | (wrote) "realParentWithinRoot K (abs_path ds @ [slash]) (abs_path (xs @ [x])) fs1"
    "fs' = snd (writeFile K (abs_path (xs @ [x])) r fs1)" using da by auto
  then show ?thesis
  proof cases
    case wrote
    show ?thesis
    proof (cases "open_trunc K (abs_path (xs @ [x])) fs1")
      case (Inr a)
      then obtain at fs2 where o: "open_trunc K (abs_path (xs @ [x])) fs1 = Inr (at, fs2)" by (cases a) simp
      from parent_guard [OF assms(1,2) ok wrote(1) o nl] have "strict_prefix ds at" "fs2 = put_node at (FileNode []) fs1" by auto
      moreover have "\<exists>y. fs' = put_node at (FileNode y) fs2"
        using o wrote(2) by (auto simp: writeFile_def copy_into_def split: option.splits prod.splits)
      ultimately show ?thesis using files_kept_put [OF da] by auto
    qed (use wrote da in \<open>auto simp: writeFile_def intro: files_kept_dirs\<close>)
  qed (rule files_kept_dirs)
qed

end
