(* ===== verification/Quiet_Files.thy ===== *)
theory Quiet_Files
  imports Image_Confined
begin

text \<open>
  The file operations when nothing but the tree decides (no permission is missing, no disk is
  full): a locale for that contract of the operating system, with what each operation then does on
  real directories.
\<close>

section \<open>Listings\<close>

lemma children_iff: "c \<in> set (children fs at) \<longleftrightarrow> map_of fs (at @ [c]) \<noteq> None"
proof -
  have "c \<in> set (children fs at) \<longleftrightarrow> at @ [c] \<in> fst ` set fs"
  proof
    assume "c \<in> set (children fs at)"
    then show "at @ [c] \<in> fst ` set fs"
      unfolding children_def by (auto simp del: append_butlast_last_id) (metis append_butlast_last_id fst_conv image_eqI)
  next
    assume "at @ [c] \<in> fst ` set fs"
    then show "c \<in> set (children fs at)" unfolding children_def by force
  qed
  then show ?thesis by (simp add: map_of_eq_None_iff)
qed

lemma distinct_children [simp]: "distinct (children fs at)"
  by (simp add: children_def)

definition tree_names :: "files \<Rightarrow> bool" where
  "tree_names fs = (\<forall>q. map_of fs q \<noteq> None \<longrightarrow> list_all name_ok q)"

lemma tree_names_child: "tree_names fs \<Longrightarrow> c \<in> set (children fs at) \<Longrightarrow> name_ok c"
  by (auto simp: children_iff tree_names_def)

section \<open>Real directories\<close>

definition link_at :: "files \<Rightarrow> string list \<Rightarrow> bool" where
  "link_at fs q = (case map_of fs q of Some (LinkNode t) \<Rightarrow> True | _ \<Rightarrow> False)"

lemma link_at_simps [simp]:
  "map_of fs q = None \<Longrightarrow> \<not> link_at fs q" "map_of fs q = Some DirNode \<Longrightarrow> \<not> link_at fs q"
  "map_of fs q = Some (FileNode y) \<Longrightarrow> \<not> link_at fs q" "map_of fs q = Some (LinkNode t) \<Longrightarrow> link_at fs q"
  by (simp_all add: link_at_def)

lemma locate_real:
  assumes "real_dir fs xs" and "list_all name_ok (xs @ [x])" and "fl \<longrightarrow> \<not> link_at fs (xs @ [x])"
  shows "locate K fl (abs_path (xs @ [x])) fs = Inr (xs @ [x])"
proof -
  have "walk fs fl maxlinks xs [x] = Inr (xs @ [x])" using assms(2,3) by (intro walk_last) auto
  then show ?thesis using walk_real [of fs "[]" xs fl maxlinks "[x]"] assms(1,2) by (simp add: locate_abs)
qed

lemma locate_dir:
  assumes "real_dir fs xs" and "list_all name_ok xs" and "ending = [] \<or> ending = [slash]"
  shows "locate K fl (abs_path xs @ ending) fs = Inr xs"
  using assms walk_real [of fs "[]" xs fl maxlinks "[[]]"]
  by (auto simp: locate_abs walk_to_real walk_skip)

lemma node_at_real: "real_dir fs xs \<Longrightarrow> node_at fs xs = Some DirNode"
  by (simp add: real_dir_def)

lemma eval_real:
  "real_dir fs (at @ ds) \<Longrightarrow> list_all name_ok ds \<Longrightarrow> eval_links fs n True at at ds = Inr (True, at @ ds)"
proof (induction ds arbitrary: at)
  case Nil
  then show ?case by simp
next
  case (Cons d ds)
  have rd: "real_dir fs ((at @ [d]) @ ds)" using Cons.prems(1) by simp
  from real_dir_append [OF this] have "map_of fs (at @ [d]) = Some DirNode" by (simp add: real_dir_snoc)
  then show ?case using Cons.IH [OF rd] Cons.prems(2) by (simp add: eval_name)
qed

locale quiet_os =
  fixes K :: os
  assumes no_fault [simp]: "os_fault K oper p fs = None"
    and no_short [simp]: "os_short K p fs = None"
begin

lemma stat_quiet: "Stat K p fs = stat_node K True p fs" "Lstat K p fs = stat_node K False p fs"
  by (simp_all add: Stat_def Lstat_def faulty_def)

lemma stat_dir:
  "real_dir fs xs \<Longrightarrow> list_all name_ok xs \<Longrightarrow> ending = [] \<or> ending = [slash] \<Longrightarrow>
     stat_node K fl (abs_path xs @ ending) fs = Inr DirNode"
  using locate_dir [of fs xs ending K fl] node_at_real [of fs xs] by (auto simp: stat_node_def)

lemma lstat_child:
  "real_dir fs xs \<Longrightarrow> list_all name_ok (xs @ [x]) \<Longrightarrow>
     Lstat K (abs_path (xs @ [x])) fs = (case map_of fs (xs @ [x]) of None \<Rightarrow> Inl ENOENT | Some nd \<Rightarrow> Inr nd)"
  by (simp add: stat_quiet stat_node_def locate_real)

lemma stat_child:
  "real_dir fs xs \<Longrightarrow> list_all name_ok (xs @ [x]) \<Longrightarrow> \<not> link_at fs (xs @ [x]) \<Longrightarrow>
     Stat K (abs_path (xs @ [x])) fs = (case map_of fs (xs @ [x]) of None \<Rightarrow> Inl ENOENT | Some nd \<Rightarrow> Inr nd)"
  by (simp add: stat_quiet stat_node_def locate_real)

lemma ReadDir_real:
  "real_dir fs xs \<Longrightarrow> list_all name_ok xs \<Longrightarrow>
     ReadDir K (abs_path xs) fs = Inr (map (\<lambda>c. (c, the (map_of fs (xs @ [c])))) (children fs xs))"
  using locate_dir [of fs xs "[]" K True] node_at_real [of fs xs]
  by (auto simp: ReadDir_def faulty_def)

lemma ReadFile_child:
  "real_dir fs xs \<Longrightarrow> list_all name_ok (xs @ [x]) \<Longrightarrow> map_of fs (xs @ [x]) = Some (FileNode y) \<Longrightarrow>
     ReadFile K (abs_path (xs @ [x])) fs = Inr y"
  by (simp add: ReadFile_def faulty_def stat_node_def locate_real)

lemma MkdirAll_there:
  "real_dir fs xs \<Longrightarrow> list_all name_ok xs \<Longrightarrow> ending = [] \<or> ending = [slash] \<Longrightarrow>
     MkdirAll K (abs_path xs @ ending) fs = (None, fs)"
  by (subst MkdirAll.simps) (simp add: stat_quiet stat_dir)

lemma stat_missing:
  assumes "real_dir fs xs" and "list_all name_ok (xs @ [x])" and "map_of fs (xs @ [x]) = None"
    and "ending = [] \<or> ending = [slash]"
  shows "stat_node K fl (abs_path (xs @ [x]) @ ending) fs = Inl ENOENT"
proof -
  have "walk fs fl maxlinks [] (xs @ [x] @ cs) = (if cs = [] then Inr (xs @ [x]) else Inl ENOENT)" for cs
    using walk_real [of fs "[]" xs fl maxlinks "[x] @ cs"] walk_name(1) [of x fs xs fl maxlinks cs] assms(1-3) by simp
  then show ?thesis using assms(2-4) by (auto simp: stat_node_def locate_abs)
qed

lemma MkdirAll_new:
  assumes "list_all name_ok (xs @ [x])" and "ending = [] \<or> ending = [slash]"
    and "stat_node K True (abs_path (xs @ [x]) @ ending) fs = Inl e"
    and "MkdirAll K (abs_path xs @ (if xs = [] then [] else [slash])) fs = (None, fs1)"
    and "real_dir fs1 xs" and "map_of fs1 (xs @ [x]) = None"
  shows "MkdirAll K (abs_path (xs @ [x]) @ ending) fs = (None, put_node (xs @ [x]) DirNode fs1)"
proof -
  have pp: "parent_path (abs_path (xs @ [x]) @ ending) = abs_path xs @ (if xs = [] then [] else [slash])"
    using parent_path_abs [OF assms(1,2)] .
  have "Mkdir K (abs_path (xs @ [x]) @ ending) fs1 = (None, put_node (xs @ [x]) DirNode fs1)"
    using Mkdir_abs [OF assms(1,2), of K fs1] assms(1,5,6) by (simp add: create_node_def locate_real)
  then show ?thesis
    using assms(3,4) by (subst MkdirAll.simps) (simp add: stat_quiet pp)
qed

lemma MkdirAll_child:
  assumes "real_dir fs xs" and "list_all name_ok (xs @ [x])" and "map_of fs (xs @ [x]) = None"
    and "ending = [] \<or> ending = [slash]"
  shows "MkdirAll K (abs_path (xs @ [x]) @ ending) fs = (None, put_node (xs @ [x]) DirNode fs)"
proof (rule MkdirAll_new [OF assms(2,4) stat_missing [OF assms] _ assms(1,3)])
  show "MkdirAll K (abs_path xs @ (if xs = [] then [] else [slash])) fs = (None, fs)"
    using assms(1,2) by (intro MkdirAll_there) auto
qed

lemma writeFile_child:
  assumes "real_dir fs xs" and "list_all name_ok (xs @ [x])" and "map_of fs (xs @ [x]) = None"
  shows "fst (writeFile K (abs_path (xs @ [x])) (y, None) fs) = None"
    and "map_of (snd (writeFile K (abs_path (xs @ [x])) (y, None) fs)) = (map_of fs)(xs @ [x] \<mapsto> FileNode y)"
  using assms by (simp_all add: writeFile_def open_trunc_def copy_into_def locate_real)

lemma WriteFile_child:
  assumes "real_dir fs xs" and "list_all name_ok (xs @ [x])" and "map_of fs (xs @ [x]) = None"
  shows "fst (WriteFile K (abs_path (xs @ [x])) y fs) = None"
    and "map_of (snd (WriteFile K (abs_path (xs @ [x])) y fs)) = (map_of fs)(xs @ [x] \<mapsto> FileNode y)"
  using assms by (simp_all add: WriteFile_def open_trunc_def copy_into_def locate_real)

lemma realParent_child:
  assumes "real_dir fs xs" and "list_all name_ok (xs @ [x])" and "prefix ds xs" and "ds \<noteq> []"
  shows "realParentWithinRoot K (abs_path ds @ [slash]) (abs_path (xs @ [x])) fs"
proof -
  have ok: "list_all name_ok xs" "list_all name_ok ds" using assms(2,3) by (auto simp: prefix_def)
  have "EvalSymlinks K (abs_path xs) fs = Inr (abs_path xs)"
    using eval_real [of fs "[]" xs] ok(1) assms(1)
    by (simp add: EvalSymlinks_def faulty_def start_of_def split_abs eval_skip render_def)
      (simp add: abs_path_def)
  then show ?thesis
    using assms(2-4) ok withinRoot_abs [OF ok(2) assms(4) ok(1)] by (simp add: realParentWithinRoot_def Dir_abs)
qed

end

end
