(* ===== verification/Image_Layer.thy ===== *)
theory Image_Layer
  imports Image_Build Quiet_Files
begin

text \<open>
  What the layer of a tests image holds: for every suite its directory, the directories
  \<^verbatim>\<open>cases\<close> and \<^verbatim>\<open>templates\<close>, and the regular YAML files directly in them, parents first.
\<close>

section \<open>Relative paths below a directory\<close>

lemma path_elems_abs: "list_all name_ok xs \<Longrightarrow> path_elems (abs_path xs) = xs"
proof (cases "xs = []")
  case False
  assume ok: "list_all name_ok xs"
  then have "join [slash] xs \<noteq> []" using join_no_lead [of xs] False by (auto simp: name_ok_def list_all_iff)
  moreover have "split_on slash (join [slash] xs) = xs" using ok False by (intro split_join) (auto simp: list_all_iff)
  ultimately show ?thesis by (simp add: path_elems_def abs_path_def rooted_def)
qed (simp add: path_elems_def abs_path_def rooted_def)

lemma abs_path_inj: "list_all name_ok xs \<Longrightarrow> list_all name_ok ys \<Longrightarrow> abs_path xs = abs_path ys \<longleftrightarrow> xs = ys"
  by (metis path_elems_abs)

lemma strip_common_append: "strip_common xs (xs @ ys) = ([], ys)"
proof (induction xs)
  case Nil
  show ?case by (cases ys) simp_all
qed simp

lemma Rel_abs:
  assumes "list_all name_ok (ds @ es)" and "es \<noteq> []"
  shows "Rel (abs_path ds) (abs_path (ds @ es)) = Inr (join [slash] es)"
proof -
  have ok: "list_all name_ok ds" "list_all name_ok (ds @ es)" using assms(1) by simp_all
  have "abs_path (ds @ es) \<noteq> abs_path ds" using abs_path_inj [OF ok(2,1)] assms(2) by simp
  moreover have "abs_path ds \<noteq> ''.''" by (simp add: abs_path_def)
  ultimately show ?thesis
    using ok by (simp add: Rel_def Let_def path_elems_abs strip_common_append)
qed

lemma firstPathPart_join: "es \<noteq> [] \<Longrightarrow> list_all name_ok es \<Longrightarrow> firstPathPart (join [slash] es) = hd es"
proof -
  assume "es \<noteq> []" "list_all name_ok es"
  then obtain x xs where es: "es = x # xs" and x: "slash \<notin> set x" by (cases es) auto
  have all: "takeWhile (\<lambda>c. c \<noteq> slash) x = x" using x by (induction x) auto
  have "takeWhile (\<lambda>c. c \<noteq> slash) (x @ slash # y) = x" for y
    using x by (induction x) auto
  then show ?thesis using all es by (cases xs) (simp_all add: firstPathPart_def)
qed

lemma isYAMLPath_abs: "name_ok f \<Longrightarrow> isYAMLPath (abs_path (xs @ [f])) = isYAMLPath f"
proof -
  assume f: "name_ok f"
  have all: "takeWhile (\<lambda>c. c \<noteq> slash) (rev f) = rev f"
    unfolding takeWhile_eq_all_conv using name_ok_simps(4) [OF f] by auto
  have "after_slash f = f" unfolding after_slash_def all by simp
  then show ?thesis using f by (simp add: isYAMLPath_def Ext_def after_slash_abs)
qed

definition layer_dir :: "string \<Rightarrow> bool" where
  "layer_dir b = (b = casesDirName \<or> b = templatesDirName)"

lemma layer_names [simp]: "name_ok casesDirName" "name_ok templatesDirName"
  by (simp_all add: casesDirName_def templatesDirName_def name_ok_def plain_def)

lemma Dir_layer: "layer_dir b \<Longrightarrow> name_ok f \<Longrightarrow> Dir (b @ slash # f) = b"
proof -
  assume b: "layer_dir b" and f: "name_ok f"
  have "Clean (b @ [slash]) = b"
    using b by (auto simp: layer_dir_def casesDirName_def templatesDirName_def Clean_def rooted_def clean_elems_def clean_step_def)
  then show ?thesis using after_slash_append [of f b] f by (simp add: Dir_def)
qed

text \<open>The selection on paths below a suite directory.\<close>

lemma include_self: "includeLayerEntry dir dir d = Inr True"
  by (simp add: includeLayerEntry_def)

lemma include_child:
  assumes "list_all name_ok (ds @ [b])"
  shows "includeLayerEntry (abs_path ds) (abs_path (ds @ [b])) d = Inr (layer_dir b \<and> is_dir d)"
proof -
  have "abs_path (ds @ [b]) \<noteq> abs_path ds" using abs_path_inj assms by (metis append_self_conv list.distinct(1) list_all_append)
  then show ?thesis
    using Rel_abs [of ds "[b]"] firstPathPart_join [of "[b]"] assms
    by (auto simp: includeLayerEntry_def Let_def layer_dir_def)
qed

lemma include_grandchild:
  assumes "list_all name_ok (ds @ [b, f])" and "layer_dir b"
  shows "includeLayerEntry (abs_path ds) (abs_path (ds @ [b, f])) d = Inr (is_regular d \<and> isYAMLPath f)"
proof -
  have ne: "abs_path (ds @ [b, f]) \<noteq> abs_path ds"
    using abs_path_inj [of "ds @ [b, f]" ds] assms(1) by simp
  have y: "isYAMLPath (abs_path (ds @ [b, f])) = isYAMLPath f"
    using isYAMLPath_abs [of f "ds @ [b]"] assms(1) by simp
  have "\<not> is_regular d" if "is_dir d" using that by (simp add: is_regular_def is_dir_def)
  then show ?thesis
    using Rel_abs [of ds "[b, f]"] firstPathPart_join [of "[b, f]"] assms ne y Dir_layer [OF assms(2)]
    by (auto simp: includeLayerEntry_def Let_def layer_dir_def)
qed

section \<open>The entries of a suite\<close>

definition dir_entry_of :: "string list \<Rightarrow> tar_entry" where
  "dir_entry_of es = (\<lparr>h_Name = join [slash] es, h_Typeflag = TypeDir, h_Linkname = []\<rparr>, ([], None))"

definition file_entry_of :: "string list \<Rightarrow> string \<Rightarrow> tar_entry" where
  "file_entry_of es x = (\<lparr>h_Name = join [slash] es, h_Typeflag = TypeReg, h_Linkname = []\<rparr>, (x, None))"

fun item_entry :: "string list \<times> node \<Rightarrow> tar_entry" where
  "item_entry (es, FileNode x) = file_entry_of es x"
| "item_entry (es, nd) = dir_entry_of es"

text \<open>The items of a suite \<open>s\<close> below \<open>ps\<close>: paths relative to \<open>ps\<close> with their nodes.\<close>

definition file_items :: "files \<Rightarrow> string list \<Rightarrow> string list \<Rightarrow> string \<Rightarrow> (string list \<times> node) list" where
  "file_items fs ps sb f =
     (case map_of fs (ps @ sb @ [f]) of
        Some (FileNode x) \<Rightarrow> if isYAMLPath f then [(sb @ [f], FileNode x)] else []
      | _ \<Rightarrow> [])"

definition subdir_items :: "files \<Rightarrow> string list \<Rightarrow> string \<Rightarrow> string \<Rightarrow> (string list \<times> node) list" where
  "subdir_items fs ps s b =
     (if layer_dir b \<and> map_of fs (ps @ [s, b]) = Some DirNode
      then ([s, b], DirNode) # concat (map (file_items fs ps [s, b]) (children fs (ps @ [s, b])))
      else [])"

definition suite_items :: "files \<Rightarrow> string list \<Rightarrow> string \<Rightarrow> (string list \<times> node) list" where
  "suite_items fs ps s = ([s], DirNode) # concat (map (subdir_items fs ps s) (children fs (ps @ [s])))"

lemma walkDir_leaf: "fn path d None s = (None, s') \<Longrightarrow> \<not> is_dir d \<Longrightarrow> walkDir (Suc n) K fs fn path d s = (None, s')"
  and walkDir_dir: "fn path d None s = (None, s') \<Longrightarrow> is_dir d \<Longrightarrow> ReadDir K path fs = Inr dirs \<Longrightarrow>
    walkDir (Suc n) K fs fn path d s = walk_entries (walkDir n K fs fn) path dirs s'"
  by simp_all

declare walkDir.simps [simp del]

lemma walk_entries_append:
  assumes "\<And>d s. d \<in> set ds \<Longrightarrow> visit (Join [path, fst d]) d s = (None, s @ g d)"
  shows "walk_entries visit path ds s = (None, s @ concat (map g ds))"
  using assms by (induction ds arbitrary: s) simp_all

lemma walk_children:
  assumes "list_all name_ok xs" and "tree_names fs"
    and "\<And>c nd t. map_of fs (xs @ [c]) = Some nd \<Longrightarrow> visit (abs_path (xs @ [c])) (c, nd) t = (None, t @ g c)"
  shows "walk_entries visit (abs_path xs) (map (\<lambda>c. (c, the (map_of fs (xs @ [c])))) (children fs xs)) t =
    (None, t @ concat (map g (children fs xs)))"
proof -
  have "walk_entries visit (abs_path xs) (map (\<lambda>c. (c, the (map_of fs (xs @ [c])))) (children fs xs)) t =
      (None, t @ concat (map (g \<circ> fst) (map (\<lambda>c. (c, the (map_of fs (xs @ [c])))) (children fs xs))))"
  proof (rule walk_entries_append)
    fix d u
    assume "d \<in> set (map (\<lambda>c. (c, the (map_of fs (xs @ [c])))) (children fs xs))"
    then obtain c nd where c: "c \<in> set (children fs xs)" "map_of fs (xs @ [c]) = Some nd" "d = (c, nd)"
      by (auto simp: children_iff)
    then have "name_ok c" using tree_names_child [OF assms(2)] by blast
    then show "visit (Join [abs_path xs, fst d]) d u = (None, u @ (g \<circ> fst) d)"
      using assms(1,3) c by (simp add: Join_name)
  qed
  then show ?thesis by (simp add: comp_def)
qed

definition quiet_writer :: "tar_writer \<Rightarrow> bool" where
  "quiet_writer T = ((\<forall>tw hdr. tw_header T tw hdr = None) \<and> (\<forall>hdr x. tw_copy T hdr x = None))"

text \<open>The suites: visible directories with an entry \<^verbatim>\<open>cases\<close> that leads somewhere.\<close>

definition suite_names :: "files \<Rightarrow> string list \<Rightarrow> string list" where
  "suite_names fs ps = filter (\<lambda>s. map_of fs (ps @ [s]) = Some DirNode \<and> \<not> prefix ''.'' s \<and>
     map_of fs (ps @ [s, casesDirName]) \<noteq> None) (children fs ps)"

context quiet_os
begin

lemma add_skipped:
  "includeLayerEntry dir path d = Inr False \<Longrightarrow>
     add_entry K T fs root dir path d None tw = (if is_dir d then Some SkipDir else None, tw)"
  by (simp add: add_entry_def)

lemma visit_skipped:
  "includeLayerEntry dir path d = Inr False \<Longrightarrow> walkDir (Suc n) K fs (add_entry K T fs root dir) path d tw = (None, tw)"
  by (simp add: walkDir.simps add_skipped)

lemma add_dir:
  assumes "includeLayerEntry dir (abs_path (xs @ [x])) d = Inr True" and "quiet_writer T"
    and "real_dir fs xs" and "list_all name_ok (xs @ [x])" and "map_of fs (xs @ [x]) = Some DirNode"
    and "Rel root (abs_path (xs @ [x])) = Inr (join [slash] es)"
  shows "add_entry K T fs root dir (abs_path (xs @ [x])) d None tw = (None, tw @ [dir_entry_of es])"
  using assms by (simp add: add_entry_def lstat_child quiet_writer_def dir_entry_of_def)

lemma add_file:
  assumes "includeLayerEntry dir (abs_path (xs @ [x])) d = Inr True" and "quiet_writer T"
    and "real_dir fs xs" and "list_all name_ok (xs @ [x])" and "map_of fs (xs @ [x]) = Some (FileNode y)"
    and "Rel root (abs_path (xs @ [x])) = Inr (join [slash] es)"
  shows "add_entry K T fs root dir (abs_path (xs @ [x])) d None tw = (None, tw @ [file_entry_of es y])"
  using assms
  by (simp add: add_entry_def lstat_child quiet_writer_def file_entry_of_def writeTarFile_def ReadFile_child)

lemma visit_file:
  assumes "quiet_writer T" and "real_dir fs (ps @ [s, b])" and "layer_dir b" and "list_all name_ok (ps @ [s, b, f])"
    and "map_of fs (ps @ [s, b, f]) = Some nd"
  shows "walkDir (Suc n) K fs (add_entry K T fs (abs_path ps) (abs_path (ps @ [s]))) (abs_path (ps @ [s, b, f])) (f, nd) tw =
    (None, tw @ map item_entry (file_items fs ps [s, b] f))"
proof -
  have inc: "includeLayerEntry (abs_path (ps @ [s])) (abs_path (ps @ [s, b, f])) (f, nd) =
      Inr (is_regular (f, nd) \<and> isYAMLPath f)"
    using include_grandchild [of "ps @ [s]" b f] assms(3,4) by simp
  have rel: "Rel (abs_path ps) (abs_path (ps @ [s, b, f])) = Inr (join [slash] [s, b, f])"
    using Rel_abs [of ps "[s, b, f]"] assms(4) by simp
  show ?thesis
  proof (cases "is_regular (f, nd) \<and> isYAMLPath f")
    case True
    then obtain y where nd: "nd = FileNode y" by (auto simp: is_regular_def split: node.splits)
    have fn: "add_entry K T fs (abs_path ps) (abs_path (ps @ [s])) (abs_path (ps @ [s, b, f])) (f, nd) None tw =
        (None, tw @ [file_entry_of [s, b, f] y])"
      using add_file [of "abs_path (ps @ [s])" "ps @ [s, b]" f "(f, nd)" T fs y "abs_path ps" "[s, b, f]" tw]
        inc rel True assms nd by simp
    show ?thesis using walkDir_leaf [where fn = "add_entry K T fs (abs_path ps) (abs_path (ps @ [s]))", OF fn] True assms(5) nd by (simp add: is_dir_def file_items_def)
  next
    case False
    then have "file_items fs ps [s, b] f = []"
      using assms(5) by (auto simp: file_items_def is_regular_def split: node.splits)
    then show ?thesis using visit_skipped inc False by simp
  qed
qed

lemma visit_subdir:
  assumes "quiet_writer T" and "real_dir fs (ps @ [s])" and "tree_names fs" and "map_of fs (ps @ [s, b]) = Some nd"
  shows "walkDir (Suc (Suc n)) K fs (add_entry K T fs (abs_path ps) (abs_path (ps @ [s]))) (abs_path (ps @ [s, b])) (b, nd) tw =
    (None, tw @ map item_entry (subdir_items fs ps s b))"
proof -
  let ?fn = "add_entry K T fs (abs_path ps) (abs_path (ps @ [s]))"
  have ok: "list_all name_ok (ps @ [s, b])" using assms(3,4) by (auto simp: tree_names_def)
  have inc: "includeLayerEntry (abs_path (ps @ [s])) (abs_path (ps @ [s, b])) (b, nd) = Inr (layer_dir b \<and> nd = DirNode)"
    using include_child [of "ps @ [s]" b] ok by (simp add: is_dir_def)
  show ?thesis
  proof (cases "layer_dir b \<and> nd = DirNode")
    case True
    have rd: "real_dir fs (ps @ [s, b])"
      using assms(2,4) True real_dir_snoc [of fs "ps @ [s]" b] by simp
    have fn: "?fn (abs_path (ps @ [s, b])) (b, nd) None tw = (None, tw @ [dir_entry_of [s, b]])"
      using add_dir [of "abs_path (ps @ [s])" "ps @ [s]" b "(b, nd)" T fs "abs_path ps" "[s, b]" tw]
        Rel_abs [of ps "[s, b]"] inc True assms ok by simp
    have kids: "walkDir (Suc n) K fs ?fn (abs_path ((ps @ [s, b]) @ [c])) (c, nd') t =
        (None, t @ map item_entry (file_items fs ps [s, b] c))" if "map_of fs ((ps @ [s, b]) @ [c]) = Some nd'" for c nd' t
    proof -
      have "list_all name_ok (ps @ [s, b, c])" using assms(3) that by (auto simp: tree_names_def)
      then show ?thesis using visit_file [OF assms(1) rd, of c nd' n t] that True by simp
    qed
    show ?thesis
      using walkDir_dir [where fn = ?fn, OF fn _ ReadDir_real [OF rd ok]] True assms(4)
        walk_children [where visit = "walkDir (Suc n) K fs ?fn" and g = "\<lambda>c. map item_entry (file_items fs ps [s, b] c)", OF ok assms(3) kids]
      by (simp add: is_dir_def subdir_items_def map_concat comp_def)
  next
    case False
    then have "subdir_items fs ps s b = []" using assms(4) by (auto simp: subdir_items_def)
    then show ?thesis using visit_skipped inc False by simp
  qed
qed


lemma addDirToTar_selects:
  assumes "quiet_writer T" and "real_dir fs (ps @ [s])" and "tree_names fs"
  shows "addDirToTar K T fs (abs_path ps) (abs_path (ps @ [s])) tw = (None, tw @ map item_entry (suite_items fs ps s))"
proof -
  let ?fn = "add_entry K T fs (abs_path ps) (abs_path (ps @ [s]))"
  have at: "map_of fs (ps @ [s]) = Some DirNode" and rp: "real_dir fs ps" using assms(2) by (simp_all add: real_dir_snoc)
  then have ok: "list_all name_ok (ps @ [s])" using assms(3) by (auto simp: tree_names_def)
  have fn: "?fn (abs_path (ps @ [s])) (b, DirNode) None tw = (None, tw @ [dir_entry_of [s]])" for b
    using add_dir [of "abs_path (ps @ [s])" ps s "(b, DirNode)" T fs "abs_path ps" "[s]" tw]
      Rel_abs [of ps "[s]"] include_self assms at rp ok by simp
  have kids: "walkDir (Suc (Suc (length fs))) K fs ?fn (abs_path ((ps @ [s]) @ [c])) (c, nd) t =
      (None, t @ map item_entry (subdir_items fs ps s c))" if "map_of fs ((ps @ [s]) @ [c]) = Some nd" for c nd t
    using visit_subdir [OF assms, of c nd "length fs" t] that by simp
  show ?thesis
    using walkDir_dir [where fn = ?fn, OF fn _ ReadDir_real [OF assms(2) ok]] lstat_child [OF rp ok] at
      walk_children [where visit = "walkDir (Suc (Suc (length fs))) K fs ?fn" and g = "\<lambda>c. map item_entry (subdir_items fs ps s c)",
        OF ok assms(3) kids]
    by (simp add: addDirToTar_def WalkDir_def is_dir_def suite_items_def map_concat comp_def)
qed

lemma add_dirs_selects:
  assumes "quiet_writer T" and "tree_names fs" and "\<forall>s \<in> set ss. real_dir fs (ps @ [s])"
  shows "add_dirs K T fs (abs_path ps) (map (\<lambda>s. abs_path (ps @ [s])) ss) tw =
    (None, tw @ map item_entry (concat (map (suite_items fs ps) ss)))"
  using assms(3) by (induction ss arbitrary: tw) (simp_all add: addDirToTar_selects [OF assms(1) _ assms(2)])

lemma find_dirs_spec:
  assumes "real_dir fs ps" and "list_all name_ok ps" and "tree_names fs"
    and "\<And>s. \<not> link_at fs (ps @ [s, casesDirName])" and "set cs \<subseteq> set (children fs ps)"
  shows "find_dirs K (abs_path ps) fs (map (\<lambda>c. (c, the (map_of fs (ps @ [c])))) cs) =
    Inr (map (\<lambda>s. abs_path (ps @ [s])) (filter (\<lambda>s. map_of fs (ps @ [s]) = Some DirNode \<and> \<not> prefix ''.'' s \<and>
      map_of fs (ps @ [s, casesDirName]) \<noteq> None) cs))"
  using assms(5)
proof (induction cs)
  case Nil
  show ?case by simp
next
  case (Cons c cs)
  then obtain nd where nd: "map_of fs (ps @ [c]) = Some nd" and c: "name_ok c"
    using tree_names_child [OF assms(3)] by (auto simp: children_iff)
  show ?case
  proof (cases "nd = DirNode \<and> \<not> prefix ''.'' c")
    case True
    then have rd: "real_dir fs (ps @ [c])" using nd assms(1) by (simp add: real_dir_snoc)
    have ok: "list_all name_ok ((ps @ [c]) @ [casesDirName])"
      using assms(2) c by simp
    have "Stat K (abs_path (ps @ [c, casesDirName])) fs =
        (case map_of fs (ps @ [c, casesDirName]) of None \<Rightarrow> Inl ENOENT | Some nd \<Rightarrow> Inr nd)"
      using stat_child [OF rd ok] assms(4) [of c] by simp
    moreover have "Join [abs_path ps, c] = abs_path (ps @ [c])"
      "Join [abs_path (ps @ [c]), casesDirName] = abs_path (ps @ [c, casesDirName])"
      using Join_name [of ps c] Join_name [of "ps @ [c]" casesDirName] assms(2) c ok by simp_all
    ultimately show ?thesis
      using Cons True nd by (cases "map_of fs (ps @ [c, casesDirName])") (simp_all add: Let_def is_dir_def)
  next
    case False
    then have "\<not> is_dir (c, nd) \<or> prefix ''.'' c" by (simp add: is_dir_def)
    moreover have "\<not> (map_of fs (ps @ [c]) = Some DirNode \<and> \<not> prefix ''.'' c)" using False nd by simp
    ultimately show ?thesis using Cons nd by (simp del: prefix_code)
  qed
qed

lemma findTestDirs_spec:
  assumes "real_dir fs ps" and "list_all name_ok ps" and "tree_names fs"
    and "\<And>s. \<not> link_at fs (ps @ [s, casesDirName])" and "suite_names fs ps \<noteq> []"
  shows "findTestDirs K (abs_path ps) fs = Inr (map (\<lambda>s. abs_path (ps @ [s])) (suite_names fs ps))"
  using find_dirs_spec [OF assms(1-4), of "children fs ps"] ReadDir_real [OF assms(1,2)] assms(5)
  by (simp add: findTestDirs_def suite_names_def)

end

end
