(* ===== verification/Image_Roundtrip.thy ===== *)
theory Image_Roundtrip
  imports Image_Layer
begin

text \<open>
  Publishing and extracting: what \<^verbatim>\<open>tests publish\<close> puts into the layer is what \<^verbatim>\<open>image.Traverse\<close> writes
  below its directory. The entries of a layer are laid out parents first and without repetition,
  and extraction of such a layout adds exactly its nodes.
\<close>

section \<open>Layouts\<close>

type_synonym item = "string list \<times> node"

fun laid :: "string list set \<Rightarrow> string list set \<Rightarrow> item list \<Rightarrow> bool" where
  "laid D S [] = True"
| "laid D S ((es, nd) # items) =
     (es \<noteq> [] \<and> list_all name_ok es \<and> butlast es \<in> D \<and> es \<notin> S \<and> (\<forall>t. nd \<noteq> LinkNode t) \<and>
      laid (if nd = DirNode then insert es D else D) (insert es S) items)"

definition dirs_of :: "item list \<Rightarrow> string list set" where
  "dirs_of items = {es. (es, DirNode) \<in> set items}"

abbreviation paths_of :: "item list \<Rightarrow> string list set" where
  "paths_of items \<equiv> fst ` set items"

lemma dirs_of_simps [simp]:
  "dirs_of [] = {}" "dirs_of ((es, nd) # items) = (if nd = DirNode then insert es (dirs_of items) else dirs_of items)"
  by (auto simp: dirs_of_def)

lemma laid_append: "laid D S (xs @ ys) \<longleftrightarrow> laid D S xs \<and> laid (D \<union> dirs_of xs) (S \<union> paths_of xs) ys"
  by (induction xs arbitrary: D S) auto

lemma laid_distinct: "laid D S items \<Longrightarrow> distinct (map fst items) \<and> paths_of items \<inter> S = {}"
proof (induction items arbitrary: D S)
  case (Cons it items)
  obtain es nd where it: "it = (es, nd)" by (cases it)
  from Cons.IH [of "if nd = DirNode then insert es D else D" "insert es S"] Cons.prems show ?case
    by (auto simp: it)
qed simp

lemma laid_names: "laid D S items \<Longrightarrow> \<forall>it \<in> set items. fst it \<noteq> [] \<and> list_all name_ok (fst it)"
proof (induction items arbitrary: D S)
  case (Cons it items)
  obtain es nd where it: "it = (es, nd)" by (cases it)
  from Cons.IH [of "if nd = DirNode then insert es D else D" "insert es S"] Cons.prems show ?case
    by (simp add: it)
qed simp

text \<open>Leaving out files keeps a layout.\<close>

lemma laid_fewer_paths: "laid D S items \<Longrightarrow> S' \<subseteq> S \<Longrightarrow> laid D S' items"
proof (induction items arbitrary: D S S')
  case (Cons it items)
  obtain es nd where it: "it = (es, nd)" by (cases it)
  have "insert es S' \<subseteq> insert es S" using Cons.prems(2) by auto
  then show ?case using Cons by (auto simp: it)
qed simp

lemma laid_filter: "laid D S items \<Longrightarrow> \<forall>it \<in> set items. snd it = DirNode \<longrightarrow> P it \<Longrightarrow> laid D S (filter P items)"
proof (induction items arbitrary: D S)
  case (Cons it items)
  obtain es nd where it: "it = (es, nd)" by (cases it)
  have IH: "laid (if nd = DirNode then insert es D else D) (insert es S) (filter P items)"
    using Cons by (auto simp: it)
  show ?case
  proof (cases "P it")
    case True
    then show ?thesis using Cons.prems(1) IH by (simp add: it)
  next
    case False
    then have "nd \<noteq> DirNode" using Cons.prems(2) by (auto simp: it)
    then show ?thesis using IH laid_fewer_paths [of D "insert es S" "filter P items" S] False by (auto simp: it)
  qed
qed simp

lemma laid_concat:
  assumes "\<And>c D' S'. c \<in> set cs \<Longrightarrow> D \<subseteq> D' \<Longrightarrow> (\<forall>q \<in> S'. \<not> prefix (pre @ [c]) q) \<Longrightarrow> laid D' S' (g c)"
    and "\<And>c q. c \<in> set cs \<Longrightarrow> q \<in> paths_of (g c) \<Longrightarrow> prefix (pre @ [c]) q"
    and "distinct cs" and "\<forall>c \<in> set cs. \<forall>q \<in> S. \<not> prefix (pre @ [c]) q"
  shows "laid D S (concat (map g cs))"
  using assms
proof (induction cs arbitrary: D S)
  case Nil
  show ?case by simp
next
  case (Cons c cs)
  have "laid (D \<union> dirs_of (g c)) (S \<union> paths_of (g c)) (concat (map g cs))"
  proof (rule Cons.IH)
    show "\<forall>c' \<in> set cs. \<forall>q \<in> S \<union> paths_of (g c). \<not> prefix (pre @ [c']) q"
    proof (intro ballI notI)
      fix c' q
      assume c': "c' \<in> set cs" and q: "q \<in> S \<union> paths_of (g c)" and p: "prefix (pre @ [c']) q"
      then have "prefix (pre @ [c]) q" using Cons.prems(2,4) by auto
      then have "c' = c" using p by (auto simp: prefix_def)
      then show False using c' Cons.prems(3) by simp
    qed
  qed (use Cons.prems in auto)
  then show ?case using Cons.prems(1) [of c D S] Cons.prems(4) by (simp add: laid_append)
qed

section \<open>Extracting a layout\<close>

lemma entry_elems_join: "es \<noteq> [] \<Longrightarrow> list_all name_ok es \<Longrightarrow> entry_elems (join [slash] es) = es"
  using split_join [of es slash] clean_step_names [of es True "[]"]
  by (simp add: entry_elems_def clean_elems_def list_all_iff)

lemma Base_join:
  assumes "es \<noteq> []" and "list_all name_ok es"
  shows "Base (join [slash] es) = last es"
proof -
  obtain xs x where es: "es = xs @ [x]" using assms(1) by (cases es rule: rev_cases) auto
  have x: "slash \<notin> set x" "x \<noteq> []" using assms(2) es by simp_all
  have ap: "slash # join [slash] es = abs_path es" by (simp add: abs_path_def)
  have strip: "strip_slashes (join [slash] es) = join [slash] es"
  proof -
    obtain zs z where "x = zs @ [z]" "z \<noteq> slash" using x by (cases x rule: rev_cases) auto
    moreover have "\<exists>p. join [slash] es = p @ x"
      using abs_path_snoc [of xs x] abs_path_one [of x] by (cases "xs = []") (auto simp: es abs_path_def)
    ultimately show ?thesis by (auto simp: strip_slashes_def)
  qed
  have "after_slash (join [slash] es) = x"
  proof (cases "xs = []")
    case True
    have all: "takeWhile (\<lambda>c. c \<noteq> slash) (rev x) = rev x" unfolding takeWhile_eq_all_conv using x(1) by auto
    have "join [slash] es = x" by (simp add: es True)
    then show ?thesis unfolding after_slash_def by (simp only: all rev_rev_ident)
  next
    case False
    then have "join [slash] es = join [slash] xs @ slash # x" using abs_path_snoc [of xs x] by (simp add: es abs_path_def)
    then show ?thesis using after_slash_append [OF x(1)] by simp
  qed
  moreover have "join [slash] es \<noteq> []" using join_no_lead [of es] assms by (auto simp: name_ok_def list_all_iff)
  ultimately show ?thesis using strip x(2) by (simp add: Base_def es)
qed

definition kept :: "item \<Rightarrow> bool" where
  "kept it = (\<not> prefix ''.wh.'' (last (fst it)))"

lemma item_whiteout:
  assumes "fst it \<noteq> []" and "list_all name_ok (fst it)"
  shows "whiteout (fst (item_entry it)) = (\<not> kept it)"
proof -
  have "h_Name (fst (item_entry it)) = join [slash] (fst it)"
    by (cases it rule: item_entry.cases) (simp_all add: dir_entry_of_def file_entry_of_def)
  then show ?thesis using Base_join [OF assms] by (simp add: whiteout_def kept_def)
qed

lemma extract_loop_kept:
  assumes "\<forall>it \<in> set items. fst it \<noteq> [] \<and> list_all name_ok (fst it)"
  shows "extract_loop K root dir (map item_entry items) err fs = extract_loop K root dir (map item_entry (filter kept items)) err fs"
  using assms
proof (induction items arbitrary: fs)
  case Nil
  show ?case by simp
next
  case (Cons it items)
  obtain hdr r where e: "item_entry it = (hdr, r)" by (cases "item_entry it")
  have "whiteout hdr = (\<not> kept it)" using item_whiteout [of it] Cons.prems e by simp
  then show ?case using Cons e by (auto split: prod.splits option.splits)
qed

context quiet_os
begin

lemma extract_item:
  assumes "list_all name_ok ts" and "ts \<noteq> []" and "es \<noteq> []" and "list_all name_ok es"
    and "real_dir fs (ts @ butlast es)" and "map_of fs (ts @ es) = None" and "\<And>t. nd \<noteq> LinkNode t"
    and "item_entry (es, nd) = (hdr, r)"
  shows "\<exists>fs'. extractEntry K (abs_path ts @ [slash]) (abs_path ts) hdr r fs = (None, fs') \<and>
    map_of fs' = (map_of fs)(ts @ es \<mapsto> nd)"
proof -
  obtain xs x where es: "es = xs @ [x]" using assms(3) by (cases es rule: rev_cases) auto
  have ok: "list_all name_ok ((ts @ xs) @ [x])" and rd: "real_dir fs (ts @ xs)" and free: "map_of fs ((ts @ xs) @ [x]) = None"
    using assms(1,4,5,6) es by simp_all
  have nm: "h_Name hdr = join [slash] es"
    using assms(8) by (cases "(es, nd)" rule: item_entry.cases) (auto simp: dir_entry_of_def file_entry_of_def)
  have t: "Join [abs_path ts, Clean (slash # h_Name hdr)] = abs_path ((ts @ xs) @ [x])"
    using target_abs [OF assms(1), of "h_Name hdr"] entry_elems_join [OF assms(3,4)] nm es by simp
  have w: "withinRoot (abs_path ts @ [slash]) (abs_path ((ts @ xs) @ [x]))"
    using withinRoot_abs [OF assms(1,2) ok] by simp
  show ?thesis
  proof (cases nd)
    case DirNode
    then have "h_Typeflag hdr = TypeDir" using assms(8) by (auto simp: dir_entry_of_def)
    then show ?thesis
      using MkdirAll_child [OF rd ok free, of "[]"] DirNode w by (simp add: extractEntry_def Let_def t es)
  next
    case (FileNode y)
    then have h: "h_Typeflag hdr = TypeReg" "r = (y, None)" using assms(8) by (auto simp: file_entry_of_def)
    have d: "Dir (abs_path ((ts @ xs) @ [x])) = abs_path (ts @ xs)" using ok by (intro Dir_abs) simp_all
    have mk: "MkdirAll K (abs_path (ts @ xs)) fs = (None, fs)" using MkdirAll_there [OF rd, of "[]"] ok by simp
    have rp: "realParentWithinRoot K (abs_path ts @ [slash]) (abs_path ((ts @ xs) @ [x])) fs"
      using realParent_child [OF rd ok _ assms(2)] by simp
    obtain fs' where wf: "writeFile K (abs_path ((ts @ xs) @ [x])) (y, None) fs = (None, fs')"
      and "map_of fs' = (map_of fs)((ts @ xs) @ [x] \<mapsto> FileNode y)"
      using writeFile_child [OF rd ok free, of y] by (cases "writeFile K (abs_path ((ts @ xs) @ [x])) (y, None) fs") auto
    then show ?thesis
      using h mk rp d FileNode w by (simp add: extractEntry_def Let_def t es)
  qed (use assms(7) in simp)
qed

lemma extract_layout:
  assumes "list_all name_ok ts" and "ts \<noteq> []" and "laid D S items" and "\<forall>p \<in> D. real_dir fs (ts @ p)"
    and "\<forall>q. map_of fs (ts @ q) \<noteq> None \<longrightarrow> q \<in> S \<union> {[]}" and "list_all kept items"
  shows "\<exists>fs'. extract_loop K (abs_path ts @ [slash]) (abs_path ts) (map item_entry items) None fs = (None, fs') \<and>
    (\<forall>q. map_of fs' (ts @ q) = (case map_of items q of Some nd \<Rightarrow> Some nd | None \<Rightarrow> map_of fs (ts @ q)))"
  using assms(3-6)
proof (induction items arbitrary: D S fs)
  case Nil
  then show ?case by simp
next
  case (Cons it items)
  obtain es nd where it: "it = (es, nd)" by (cases it)
  obtain hdr r where e: "item_entry (es, nd) = (hdr, r)" by (cases "item_entry (es, nd)")
  from Cons.prems(1) have l: "es \<noteq> []" "list_all name_ok es" "butlast es \<in> D" "es \<notin> S" "\<And>t. nd \<noteq> LinkNode t"
    "laid (if nd = DirNode then insert es D else D) (insert es S) items" by (auto simp: it)
  have none: "map_of fs (ts @ es) = None" using Cons.prems(3) l(1,4) by auto
  obtain fs1 where x: "extractEntry K (abs_path ts @ [slash]) (abs_path ts) hdr r fs = (None, fs1)"
    and m: "map_of fs1 = (map_of fs)(ts @ es \<mapsto> nd)"
    using extract_item [OF assms(1,2) l(1,2) _ none l(5) e] Cons.prems(2) l(3) by blast
  have keep: "real_dir fs1 p" if "real_dir fs p" for p using that m none by (auto simp: real_dir_def)
  have D: "\<forall>p \<in> (if nd = DirNode then insert es D else D). real_dir fs1 (ts @ p)"
  proof -
    have "real_dir fs1 (ts @ es)" if "nd = DirNode"
      using that m keep Cons.prems(2) l(1,3) real_dir_snoc [of fs1 "ts @ butlast es" "last es"] by simp
    then show ?thesis using keep Cons.prems(2) by auto
  qed
  have S: "\<forall>q. map_of fs1 (ts @ q) \<noteq> None \<longrightarrow> q \<in> insert es S \<union> {[]}" using Cons.prems(3) m by auto
  have "es \<notin> paths_of items" using laid_distinct [OF l(6)] by blast
  then have "map_of items es = None" by (simp add: map_of_eq_None_iff)
  moreover obtain fs' where rest: "extract_loop K (abs_path ts @ [slash]) (abs_path ts) (map item_entry items) None fs1 = (None, fs')"
    and at: "\<And>q. map_of fs' (ts @ q) = (case map_of items q of Some nd \<Rightarrow> Some nd | None \<Rightarrow> map_of fs1 (ts @ q))"
    using Cons.IH [OF l(6) D S] Cons.prems(4) by auto
  ultimately have "map_of fs' (ts @ q) = (case map_of (it # items) q of Some nd \<Rightarrow> Some nd | None \<Rightarrow> map_of fs (ts @ q))" for q
    by (cases "q = es") (simp_all add: it m split: option.splits)
  moreover have "\<not> whiteout hdr" using item_whiteout [of it] Cons.prems(4) e l(1,2) by (simp add: it)
  ultimately show ?case using rest x e by (simp add: it)
qed

end

section \<open>The layout of a layer\<close>

lemma file_items_cases:
  "file_items fs ps sb f = (if \<exists>x. map_of fs (ps @ sb @ [f]) = Some (FileNode x) \<and> isYAMLPath f
     then [(sb @ [f], the (map_of fs (ps @ sb @ [f])))] else [])"
  by (auto simp: file_items_def split: option.splits node.splits)

lemma laid_files:
  assumes "sb \<in> D" and "list_all name_ok sb" and "tree_names fs" and "\<forall>c. \<forall>q \<in> S. \<not> prefix (sb @ [c]) q"
  shows "laid D S (concat (map (file_items fs ps sb) (children fs (ps @ sb))))"
proof (rule laid_concat [where pre = sb])
  fix c D' S'
  assume c: "c \<in> set (children fs (ps @ sb))" and D': "D \<subseteq> D'" and S': "\<forall>q \<in> S'. \<not> prefix (sb @ [c]) q"
  show "laid D' S' (file_items fs ps sb c)"
    using c D' S' assms(1,2) tree_names_child [OF assms(3) c] by (auto simp: file_items_cases)
qed (use assms(4) in \<open>auto simp: file_items_cases split: if_splits\<close>)

lemma laid_subdir:
  assumes "[s] \<in> D" and "name_ok s" and "name_ok b" and "tree_names fs" and "\<forall>q \<in> S. \<not> prefix ([s] @ [b]) q"
  shows "laid D S (subdir_items fs ps s b)"
proof -
  have "\<forall>c. \<forall>q \<in> insert [s, b] S. \<not> prefix ([s, b] @ [c]) q"
    using assms(5) append_prefixD [of "[s, b]" "[c]" for c] by auto
  then have "laid (insert [s, b] D) (insert [s, b] S) (concat (map (file_items fs ps [s, b]) (children fs (ps @ [s, b]))))"
    using assms(2,3,4) by (intro laid_files) auto
  then show ?thesis using assms by (auto simp: subdir_items_def)
qed

lemma subdir_paths: "q \<in> paths_of (subdir_items fs ps s b) \<Longrightarrow> prefix [s, b] q"
  by (auto simp: subdir_items_def file_items_cases split: if_splits)

lemma laid_suite:
  assumes "[] \<in> D" and "name_ok s" and "tree_names fs" and "\<forall>q \<in> S. \<not> prefix [s] q"
  shows "laid D S (suite_items fs ps s)"
proof -
  have "laid (insert [s] D) (insert [s] S) (concat (map (subdir_items fs ps s) (children fs (ps @ [s]))))"
  proof (rule laid_concat [where pre = "[s]"])
    fix c D' S'
    assume "c \<in> set (children fs (ps @ [s]))" "insert [s] D \<subseteq> D'" "\<forall>q \<in> S'. \<not> prefix ([s] @ [c]) q"
    then show "laid D' S' (subdir_items fs ps s c)"
      using assms(2,3) tree_names_child [OF assms(3)] by (intro laid_subdir) auto
  next
    show "\<forall>c \<in> set (children fs (ps @ [s])). \<forall>q \<in> insert [s] S. \<not> prefix ([s] @ [c]) q"
      using assms(4) append_prefixD [of "[s]" "[c]" for c] by auto
  next
    show "prefix ([s] @ [c]) q" if "q \<in> paths_of (subdir_items fs ps s c)" for c q
      using subdir_paths [OF that] by simp
  qed simp
  then show ?thesis using assms by (auto simp: suite_items_def)
qed

lemma suite_paths: "q \<in> paths_of (suite_items fs ps s) \<Longrightarrow> prefix [s] q"
proof -
  assume "q \<in> paths_of (suite_items fs ps s)"
  then consider "q = [s]" | b where "q \<in> paths_of (subdir_items fs ps s b)" by (auto simp: suite_items_def)
  then show ?thesis
  proof cases
    case 2
    then show ?thesis using subdir_paths append_prefixD [of "[s]" "[b]"] by auto
  qed simp
qed

lemma laid_suites:
  assumes "\<forall>s \<in> set ss. name_ok s" and "distinct ss" and "tree_names fs"
  shows "laid {[]} {} (concat (map (suite_items fs ps) ss))"
proof (rule laid_concat [where pre = "[]"])
  fix c :: string and D' S' :: "string list set"
  assume "c \<in> set ss" "{[]} \<subseteq> D'" "\<forall>q \<in> S'. \<not> prefix ([] @ [c]) q"
  then show "laid D' S' (suite_items fs ps c)" using assms(1,3) by (intro laid_suite) auto
qed (use assms(2) suite_paths in auto)

section \<open>The round trip\<close>

text \<open>
  The tree below the extraction directory: suites, their \<^verbatim>\<open>cases\<close> and \<^verbatim>\<open>templates\<close> directories, and
  the regular YAML files directly in those, with the contents they had. A file whose name starts
  with the whiteout prefix is the exception: extraction skips it.
\<close>

definition layer_tree :: "files \<Rightarrow> string list \<Rightarrow> string list \<Rightarrow> string list \<Rightarrow> node option" where
  "layer_tree fs ps ss q =
     (case q of
        [s] \<Rightarrow> if s \<in> set ss then Some DirNode else None
      | [s, b] \<Rightarrow> if s \<in> set ss \<and> layer_dir b \<and> map_of fs (ps @ [s, b]) = Some DirNode then Some DirNode else None
      | [s, b, f] \<Rightarrow>
          if s \<in> set ss \<and> layer_dir b \<and> map_of fs (ps @ [s, b]) = Some DirNode \<and> isYAMLPath f \<and> \<not> prefix ''.wh.'' f
          then (case map_of fs (ps @ [s, b, f]) of Some (FileNode x) \<Rightarrow> Some (FileNode x) | _ \<Rightarrow> None)
          else None
      | _ \<Rightarrow> None)"

lemma suite_item_iff:
  "(q, nd) \<in> set (suite_items fs ps s) \<longleftrightarrow>
     q = [s] \<and> nd = DirNode \<or>
     (\<exists>b. q = [s, b] \<and> nd = DirNode \<and> layer_dir b \<and> map_of fs (ps @ [s, b]) = Some DirNode) \<or>
     (\<exists>b f x. q = [s, b, f] \<and> nd = FileNode x \<and> layer_dir b \<and> map_of fs (ps @ [s, b]) = Some DirNode \<and>
        isYAMLPath f \<and> map_of fs (ps @ [s, b, f]) = Some (FileNode x))"
  by (auto simp: suite_items_def subdir_items_def file_items_cases children_iff split: if_splits)

lemma layer_dir_kept: "layer_dir b \<Longrightarrow> kept ([s, b], nd)"
  by (auto simp: layer_dir_def kept_def casesDirName_def templatesDirName_def)

lemma visible_kept: "\<not> prefix ''.'' s \<Longrightarrow> kept ([s], nd)"
  by (auto simp: kept_def prefix_def)

lemma suite_dirs_kept:
  "\<forall>s \<in> set ss. name_ok s \<and> \<not> prefix ''.'' s \<Longrightarrow>
     \<forall>it \<in> set (concat (map (suite_items fs ps) ss)). snd it = DirNode \<longrightarrow> kept it"
  using layer_dir_kept visible_kept by (auto simp: suite_item_iff)

lemma map_of_iff: "distinct (map fst xs) \<Longrightarrow> map_of xs q = Some nd \<longleftrightarrow> (q, nd) \<in> set xs"
  by (rule map_of_eq_Some_iff)

lemma layer_tree_items:
  assumes "\<forall>s \<in> set ss. name_ok s \<and> \<not> prefix ''.'' s" and "distinct ss" and "tree_names fs"
  shows "map_of (filter kept (concat (map (suite_items fs ps) ss))) q = layer_tree fs ps ss q"
proof -
  let ?items = "concat (map (suite_items fs ps) ss)"
  have d: "distinct (map fst (filter kept ?items))"
    using laid_distinct [OF laid_suites [of ss fs ps]] assms by (simp add: distinct_map_filter)
  have "(q, nd) \<in> set (filter kept ?items) \<longleftrightarrow> layer_tree fs ps ss q = Some nd" for nd
  proof -
    have "(q, nd) \<in> set (filter kept ?items) \<longleftrightarrow> (\<exists>s \<in> set ss. (q, nd) \<in> set (suite_items fs ps s)) \<and> kept (q, nd)"
      by auto
    also have "\<dots> \<longleftrightarrow> layer_tree fs ps ss q = Some nd"
      unfolding suite_item_iff layer_tree_def
      using assms(1) layer_dir_kept visible_kept
      by (cases q rule: remdups_adj.cases; cases "tl (tl q)"; cases "tl (tl (tl q))")
        (auto simp: kept_def split: option.splits node.splits list.splits)
    finally show ?thesis .
  qed
  then show ?thesis using d map_of_iff by (metis not_None_eq)
qed

text \<open>A directory of test suites whose listing follows no link.\<close>

definition suites_root :: "files \<Rightarrow> string list \<Rightarrow> bool" where
  "suites_root fs ps = (tree_names fs \<and> real_dir fs ps \<and> list_all name_ok ps \<and>
     (\<forall>s. \<not> link_at fs (ps @ [s, casesDirName])) \<and> suite_names fs ps \<noteq> [])"

definition empty_dir :: "files \<Rightarrow> string list \<Rightarrow> bool" where
  "empty_dir fs ts = (list_all name_ok ts \<and> ts \<noteq> [] \<and> real_dir fs ts \<and> (\<forall>q. q \<noteq> [] \<longrightarrow> map_of fs (ts @ q) = None))"

lemma suite_names_ok:
  assumes "suites_root fs ps" and "s \<in> set (suite_names fs ps)"
  shows "name_ok s \<and> \<not> prefix ''.'' s \<and> real_dir fs (ps @ [s])"
  using assms tree_names_child [of fs s ps] by (auto simp: suites_root_def suite_names_def real_dir_snoc)

lemma publish_extract:
  assumes "quiet_os K" and "quiet_writer T" and "suites_root fs ps" and "quiet_os K'" and "empty_dir fs2 ts"
  shows "\<exists>dirs entries fs'. findTestDirs K (abs_path ps) fs = Inr dirs \<and>
    add_dirs K T fs (abs_path ps) dirs [] = (None, entries) \<and>
    extract_image K' \<lparr>im_stream = (entries, None), im_digest = dg\<rparr> (abs_path ts) fs2 = (None, fs') \<and>
    (\<forall>q. q \<noteq> [] \<longrightarrow> map_of fs' (ts @ q) = layer_tree fs ps (suite_names fs ps) q)"
proof -
  let ?ss = "suite_names fs ps" and ?items = "concat (map (suite_items fs ps) (suite_names fs ps))"
  have ok: "\<forall>s \<in> set ?ss. name_ok s \<and> \<not> prefix ''.'' s" "\<forall>s \<in> set ?ss. real_dir fs (ps @ [s])" "tree_names fs" "distinct ?ss"
    using suite_names_ok [OF assms(3)] assms(3) by (auto simp: suites_root_def suite_names_def)
  have find: "findTestDirs K (abs_path ps) fs = Inr (map (\<lambda>s. abs_path (ps @ [s])) ?ss)"
    using quiet_os.findTestDirs_spec [OF assms(1)] assms(3) by (auto simp: suites_root_def)
  have add: "add_dirs K T fs (abs_path ps) (map (\<lambda>s. abs_path (ps @ [s])) ?ss) [] = (None, map item_entry ?items)"
    using quiet_os.add_dirs_selects [OF assms(1,2) ok(3,2), of "[]"] by simp
  have laid: "laid {[]} {} ?items" using ok by (intro laid_suites) auto
  have "\<forall>it \<in> set ?items. fst it \<noteq> [] \<and> list_all name_ok (fst it)"
    using laid_names [OF laid] by auto
  then have skip: "extract_loop K' r d (map item_entry ?items) None fs2 = extract_loop K' r d (map item_entry (filter kept ?items)) None fs2" for r d
    by (rule extract_loop_kept)
  have laidk: "laid {[]} {} (filter kept ?items)" using suite_dirs_kept [OF ok(1)] by (intro laid_filter [OF laid]) blast
  have e: "list_all name_ok ts" "ts \<noteq> []" "\<forall>p \<in> {[]}. real_dir fs2 (ts @ p)"
    using assms(5) unfolding empty_dir_def by simp_all
  have free: "map_of fs2 (ts @ q) = None" if "q \<noteq> []" for q using assms(5) that unfolding empty_dir_def by simp
  have none: "\<forall>q. map_of fs2 (ts @ q) \<noteq> None \<longrightarrow> q \<in> {} \<union> {[]}"
  proof (intro allI impI)
    fix q
    assume "map_of fs2 (ts @ q) \<noteq> None"
    then have "q = []" using free [of q] by (cases "q = []") simp_all
    then show "q \<in> {} \<union> {[]}" by simp
  qed
  have k: "list_all kept (filter kept ?items)" by (simp add: list_all_iff)
  obtain fs' where run: "extract_loop K' (abs_path ts @ [slash]) (abs_path ts) (map item_entry (filter kept ?items)) None fs2 = (None, fs')"
    and at: "\<forall>q. map_of fs' (ts @ q) = (case map_of (filter kept ?items) q of Some nd \<Rightarrow> Some nd | None \<Rightarrow> map_of fs2 (ts @ q))"
    using quiet_os.extract_layout [OF assms(4) e(1,2) laidk e(3) none k] by blast
  have "map_of fs' (ts @ q) = layer_tree fs ps ?ss q" if "q \<noteq> []" for q
    using at [rule_format, of q] layer_tree_items [OF ok(1,4,3), of ps q] free [OF that] by (simp split: option.splits)
  moreover have "extract_image K' \<lparr>im_stream = (map item_entry ?items, None), im_digest = dg\<rparr> (abs_path ts) fs2 = (None, fs')"
    using run skip e(1) by (simp only: extract_image_def Let_def image.select_convs fst_conv snd_conv Clean_abs)
  ultimately show ?thesis using find add by blast
qed

end
