(* ===== verification/Engine_Remote.thy ===== *)
theory Engine_Remote
  imports Engine_Run Image_Confined
begin

text \<open>
  The entry point of the engine (\<^verbatim>\<open>src/pkg/engine/engine.go\<close>, \<^verbatim>\<open>RunTests\<close> and \<^verbatim>\<open>runRemote\<close>): suites of a
  local directory, or of a tests image extracted to a temporary directory.

  A local run reads files through \<open>suite_io\<close>. Here the files are those of a file tree: \<open>files_io\<close>
  takes directory listings and file contents from the tree; pattern matching stays a parameter.
\<close>

section \<open>Suites in a file tree\<close>

type_synonym glob_fun = "files \<Rightarrow> string \<Rightarrow> go_error + string list"

definition files_io :: "os \<Rightarrow> glob_fun \<Rightarrow> suite_io \<Rightarrow> files \<Rightarrow> suite_io" where
  "files_io K glob base fs = base\<lparr>
     si_cases := (si_cases base)\<lparr>io_read := (\<lambda>tr p.
       case ReadFile K p fs of Inl e \<Rightarrow> Inl (path_error ''open'' p e) | Inr content \<Rightarrow> Inr content)\<rparr>,
     si_readdir := (\<lambda>tr p.
       case ReadDir K p fs of
         Inl e \<Rightarrow> Inl (e = ENOENT, path_error ''open'' p e)
       | Inr entries \<Rightarrow> Inr (map (\<lambda>(c, nd). \<lparr>d_name = c, d_isdir = (nd = DirNode)\<rparr>) entries)),
     si_glob := (\<lambda>tr p. glob fs p)\<rparr>"

section \<open>Running\<close>

text \<open>The variables the callback of \<^verbatim>\<open>image.Traverse\<close> captures, and the history.\<close>

type_synonym remote_vars = "engine_report \<times> engine_report option \<times> ev list"

definition run_extracted :: "os \<Rightarrow> glob_fun \<Rightarrow> env \<Rightarrow> (string \<Rightarrow> env) \<Rightarrow> suite_io \<Rightarrow> (string, suite_maps) group_fun \<Rightarrow>
    ctx \<Rightarrow> engine_config \<Rightarrow> string \<Rightarrow> string \<Rightarrow> remote_vars \<times> files \<Rightarrow> go_error option \<times> remote_vars \<times> files" where
  "run_extracted K glob E W base grp c cfg digest dir = (\<lambda>((report, _, tr), fs).
     let report = report\<lparr>er_Remote := map_option (\<lambda>r. r\<lparr>rr_Digest := digest\<rparr>) (er_Remote report)\<rparr>;
         next_cfg = cfg\<lparr>ec_WorkDir := Join [dir, ec_WorkDir cfg],
                        ec_Remote := \<lparr>rm_Ref = [], rm_Username = [], rm_Password = []\<rparr>\<rparr> in
     (case runLocal E W (files_io K glob base fs) grp c next_cfg tr of
        ((runReport, err), tr') \<Rightarrow> (err, (report, Some runReport, tr'), fs)))"

definition runRemote :: "registry \<Rightarrow> os \<Rightarrow> glob_fun \<Rightarrow> env \<Rightarrow> (string \<Rightarrow> env) \<Rightarrow> suite_io \<Rightarrow> (string, suite_maps) group_fun \<Rightarrow>
    ctx \<Rightarrow> engine_config \<Rightarrow> ev list \<times> files \<Rightarrow> (engine_report \<times> go_error option) \<times> ev list \<times> files" where
  "runRemote G K glob E W base grp c cfg = (\<lambda>(tr, fs).
     case engine_newReport E cfg tr of
       (report, tr) \<Rightarrow>
         (case Traverse G K c
                \<lparr>ir_Ref = rm_Ref (ec_Remote cfg), ir_Username = rm_Username (ec_Remote cfg), ir_Password = rm_Password (ec_Remote cfg)\<rparr>
                (run_extracted K glob E W base grp c cfg) ((report, None, tr), fs) of
            (err, (report, runReport, tr), fs) \<Rightarrow>
              let report = (case runReport of
                  None \<Rightarrow> report
                | Some r \<Rightarrow> report\<lparr>er_Passed := er_Passed r, er_Failed := er_Failed r, er_Total := er_Total r, er_Tests := er_Tests r\<rparr>)
              in (case engine_finishReport E report err tr of (res, tr) \<Rightarrow> (res, tr, fs))))"

definition RunTests :: "registry \<Rightarrow> os \<Rightarrow> glob_fun \<Rightarrow> env \<Rightarrow> (string \<Rightarrow> env) \<Rightarrow> suite_io \<Rightarrow> (string, suite_maps) group_fun \<Rightarrow>
    ctx \<Rightarrow> engine_config \<Rightarrow> ev list \<times> files \<Rightarrow> (engine_report \<times> go_error option) \<times> ev list \<times> files" where
  "RunTests G K glob E W base grp c cfg = (\<lambda>(tr, fs).
     if rm_Ref (ec_Remote cfg) \<noteq> [] then runRemote G K glob E W base grp c cfg (tr, fs)
     else (case runLocal E W (files_io K glob base fs) grp c cfg tr of (res, tr) \<Rightarrow> (res, tr, fs)))"

section \<open>The temporary directory\<close>

text \<open>What a run needs of the directory for temporary files and of the name chosen in it.\<close>

definition temp_ok :: "os \<Rightarrow> string \<Rightarrow> files \<Rightarrow> string list \<Rightarrow> bool" where
  "temp_ok K pre fs ts = (os_tmpdir K = abs_path ts \<and> ts \<noteq> [] \<and> list_all name_ok ts \<and> real_dir fs ts \<and> tree_ok fs \<and>
     name_ok (pre @ os_random K pre fs))"

lemma MkdirTemp_jail:
  assumes "temp_ok K pre fs ts" and "MkdirTemp K pre fs = (Inr dir, fs')"
  defines "ds \<equiv> ts @ [pre @ os_random K pre fs]"
  shows "dir = abs_path ds \<and> jail ds fs' \<and> (\<forall>q. prefix ds q \<longrightarrow> map_of fs q = None) \<and>
    (\<forall>q. q \<noteq> ds \<longrightarrow> map_of fs' q = map_of fs q)"
proof -
  have names: "list_all name_ok ds" and ne: "ts \<noteq> []" and rd: "real_dir fs ts" and tr: "tree_ok fs"
    using assms(1) by (auto simp: temp_ok_def ds_def)
  have p: "msg [os_tmpdir K, [slash], pre, os_random K pre fs] = abs_path ds @ []"
    using assms(1) by (simp add: temp_ok_def msg_def ds_def abs_path_snoc)
  have mk: "Mkdir K (abs_path ds) fs = create_node K ''mkdir'' (abs_path ds) DirNode fs"
    using Mkdir_abs [OF names, of "[]"] by (simp add: ds_def)
  from assms(2) have dir: "dir = abs_path ds" and "create_node K ''mkdir'' (abs_path ds) DirNode fs = (None, fs')"
    by (auto simp: MkdirTemp_def Let_def p mk split: prod.splits option.splits)
  then have fs': "fs' = put_node ds DirNode fs" and free: "map_of fs ds = None"
    using create_in_real [OF rd] names by (auto simp: ds_def)
  have none: "prefix ds q \<Longrightarrow> map_of fs q = None" for q
    using tree_ok_below [OF tr free] by (simp add: ds_def)
  have "real_dir fs' ds" using rd none fs' by (auto simp: ds_def real_dir_snoc real_dir_def)
  moreover have "link_free fs' ds" using none fs' by (auto simp: link_free_def)
  ultimately show ?thesis using dir names none fs' by (auto simp: jail_def ds_def)
qed

lemma RemoveAll_jail:
  assumes "jail ds fs" and "os_fault K ''removeall'' (abs_path ds) fs = None"
  shows "map_of (snd (RemoveAll K (abs_path ds) fs)) q = (if prefix ds q then None else map_of fs q)"
  using assms by (auto simp: RemoveAll_def jail_def locate_abs walk_to_real map_of_filter_prefix)

text \<open>
  A traversal of an image without links whose callback does not touch files leaves the tree as it
  was.
\<close>

definition no_links :: "image \<Rightarrow> bool" where
  "no_links img = list_all (\<lambda>(hdr, r). h_Typeflag hdr \<noteq> TypeSymlink) (fst (im_stream img))"

lemma extract_image_jail:
  assumes "jail ds fs" and "no_links img"
  shows "jail ds (snd (extract_image K img (abs_path ds) fs)) \<and> confined ds fs (snd (extract_image K img (abs_path ds) fs))"
  using extract_loop_jail [OF assms(1), of "fst (im_stream img)"] assms
  by (simp add: extract_image_def jail_def no_links_def)

lemma Traverse_leaves_no_trace:
  assumes "temp_ok K ''kube2e-image-'' fs ts" and "\<And>p fs. os_fault K ''removeall'' p fs = None"
    and "\<And>img. pull G c r = Inr img \<Longrightarrow> no_links img"
    and "\<And>digest dir s fs. snd (snd (fn digest dir (s, fs))) = fs"
    and "Traverse G K c r fn (s, fs) = (err, s', fs')"
  shows "map_of fs' q = map_of fs q"
proof (cases "pull G c r")
  case (Inl e)
  then show ?thesis using assms(5) by (simp add: Traverse_def)
next
  case (Inr img)
  note nl = assms(3) [OF Inr]
  show ?thesis
  proof (cases "MkdirTemp K ''kube2e-image-'' fs")
    case (Pair d fs1)
    show ?thesis
    proof (cases d)
      case (Inl e)
      then have "fs1 = fs" using Pair by (auto simp: MkdirTemp_def Mkdir_def create_node_def Let_def
          split: prod.splits option.splits sum.splits if_splits)
      then show ?thesis using assms(5) \<open>pull G c r = Inr img\<close> Pair Inl by (simp add: Traverse_def)
    next
      case (Inr dir)
      define ds where "ds = ts @ [''kube2e-image-'' @ os_random K ''kube2e-image-'' fs]"
      from MkdirTemp_jail [OF assms(1) Pair [unfolded Inr]] have dir: "dir = abs_path ds" and sb: "jail ds fs1"
        and none: "\<And>q. prefix ds q \<Longrightarrow> map_of fs q = None" and rest: "\<And>q. q \<noteq> ds \<Longrightarrow> map_of fs1 q = map_of fs q"
        by (auto simp: ds_def)
      obtain e fs2 where ex: "extract_image K img (abs_path ds) fs1 = (e, fs2)" by fastforce
      with extract_image_jail [OF sb nl, of K] have sb2: "jail ds fs2" and conf: "confined ds fs1 fs2" by simp_all
      have "fs' = snd (RemoveAll K (abs_path ds) fs2)"
        using assms(5) \<open>pull G c r = Inr img\<close> Pair Inr dir ex assms(4) [of _ _ s fs2]
        by (auto simp: Traverse_def split: option.splits sum.splits prod.splits) (metis snd_conv)+
      then show ?thesis
        using RemoveAll_jail [OF sb2 assms(2)] none rest conf
        by (auto simp: confined_def)
    qed
  qed
qed

end
