(* ===== verification/Image_Exchange.thy ===== *)
theory Image_Exchange
  imports Image_Roundtrip Engine_Remote
begin

text \<open>
  Publishing and running from an image, end to end: \<^verbatim>\<open>Build\<close> packs the suites of a directory and
  pushes them, \<^verbatim>\<open>Traverse\<close> pulls an image, extracts it, and calls its function on the result. What
  the two rely on of the registry client is the locale \<open>image_format\<close>.
\<close>

section \<open>Temporary files\<close>

lemma map_of_remove_key: "map_of (filter (\<lambda>(q, nd). q \<noteq> at) fs) q = (if q = at then None else map_of fs q)"
  by (induction fs) auto

lemma children_same:
  assumes "\<And>c. map_of fs (at @ [c]) = map_of fs' (at @ [c])"
  shows "children fs at = children fs' at"
proof -
  have "set (children fs at) = set (children fs' at)" using assms by (auto simp: children_iff)
  then show ?thesis by (intro sorted_distinct_set_unique) (simp_all add: children_def)
qed

text \<open>A new file that is not below \<open>ps\<close> changes nothing of what a layer for \<open>ps\<close> is made of.\<close>

definition same_below :: "string list \<Rightarrow> files \<Rightarrow> files \<Rightarrow> bool" where
  "same_below ps fs fs' = (\<forall>q. map_of fs' (ps @ q) = map_of fs (ps @ q))"

lemma same_children: "same_below ps fs fs' \<Longrightarrow> children fs' (ps @ q) = children fs (ps @ q)"
  by (rule children_same) (simp add: same_below_def)

lemma suite_items_same:
  assumes "same_below ps fs fs'"
  shows "suite_items fs' ps = suite_items fs ps"
proof -
  have at: "map_of fs' (ps @ q) = map_of fs (ps @ q)" for q using assms by (simp add: same_below_def)
  have "file_items fs' ps sb = file_items fs ps sb" for sb
    using at by (intro ext) (simp add: file_items_def)
  then have "subdir_items fs' ps s = subdir_items fs ps s" for s
    using at same_children [OF assms] by (intro ext) (simp add: subdir_items_def)
  then show ?thesis using same_children [OF assms] by (intro ext) (simp add: suite_items_def)
qed

text \<open>Where a new temporary file or directory goes.\<close>

definition temp_free :: "os \<Rightarrow> string \<Rightarrow> string \<Rightarrow> files \<Rightarrow> string list \<Rightarrow> bool" where
  "temp_free K pre suf fs ts = (os_tmpdir K = abs_path ts \<and> ts \<noteq> [] \<and> list_all name_ok ts \<and> real_dir fs ts \<and> tree_ok fs \<and>
     name_ok (pre @ os_random K pre fs @ suf) \<and> map_of fs (ts @ [pre @ os_random K pre fs @ suf]) = None)"

context quiet_os
begin

lemma CreateTemp_quiet:
  assumes "temp_free K pre suf fs ts"
  defines "at \<equiv> ts @ [pre @ os_random K pre fs @ suf]"
  shows "CreateTemp K pre suf fs = (Inr (abs_path at, at), put_node at (FileNode []) fs)"
proof -
  have p: "msg [os_tmpdir K, [slash], pre, os_random K pre fs, suf] = abs_path at"
    using assms(1) by (simp add: temp_free_def msg_def at_def abs_path_snoc)
  have ok: "list_all name_ok at" "real_dir fs ts" "map_of fs at = None" using assms(1) by (auto simp: temp_free_def at_def)
  have loc: "locate K False (abs_path at) fs = Inr at"
    "locate K False (abs_path at) (put_node at (FileNode []) fs) = Inr at"
    using ok unfolding at_def by (auto simp: locate_real real_dir_def)
  show ?thesis unfolding CreateTemp_def Let_def p using loc ok by (simp add: create_node_def at_def)
qed

lemma MkdirTemp_quiet:
  assumes "temp_free K pre [] fs ts"
  defines "at \<equiv> ts @ [pre @ os_random K pre fs]"
  shows "MkdirTemp K pre fs = (Inr (abs_path at), put_node at DirNode fs)"
proof -
  have p: "msg [os_tmpdir K, [slash], pre, os_random K pre fs] = abs_path at"
    using assms(1) by (simp add: temp_free_def msg_def at_def abs_path_snoc)
  have ok: "list_all name_ok at" "real_dir fs ts" "map_of fs at = None" using assms(1) by (auto simp: temp_free_def at_def)
  have "locate K False (abs_path at) fs = Inr at" using ok unfolding at_def by (simp add: locate_real)
  then have "Mkdir K (abs_path at) fs = (None, put_node at DirNode fs)"
    using Mkdir_abs [of at "[]" K fs] ok by (simp add: create_node_def at_def)
  then show ?thesis unfolding MkdirTemp_def Let_def p by simp
qed

text \<open>A temporary file that was written and is removed leaves the tree as it was.\<close>

lemma Remove_temp:
  assumes "temp_free K pre suf fs ts"
  defines "at \<equiv> ts @ [pre @ os_random K pre fs @ suf]"
  shows "map_of (snd (Remove K (abs_path at) (put_node at (FileNode x) (put_node at (FileNode []) fs)))) = map_of fs"
proof -
  let ?fs = "put_node at (FileNode x) (put_node at (FileNode []) fs)"
  have ok: "list_all name_ok at" "real_dir fs ts" "map_of fs at = None" "tree_ok fs" "at \<noteq> []"
    using assms(1) by (auto simp: temp_free_def at_def)
  have "locate K False (abs_path at) ?fs = Inr at"
    using ok unfolding at_def by (intro locate_real) (auto simp: real_dir_def)
  moreover have "children ?fs at = []"
  proof -
    have "map_of ?fs (at @ [c]) = None" for c using tree_ok_below [OF ok(4,3) _ ok(5), of "at @ [c]"] by simp
    then show ?thesis using children_iff [of _ ?fs at] by (cases "children ?fs at") auto
  qed
  ultimately have "snd (Remove K (abs_path at) ?fs) = filter (\<lambda>(q, nd). q \<noteq> at) ?fs"
    using ok(5) by (simp add: Remove_def)
  then show ?thesis using ok(3) by (intro ext) (simp add: map_of_remove_key)
qed

end

section \<open>Publishing\<close>

definition layer_entries :: "files \<Rightarrow> string list \<Rightarrow> tar_entry list" where
  "layer_entries fs ps = map item_entry (concat (map (suite_items fs ps) (suite_names fs ps)))"

definition quiet_close :: "tar_writer \<Rightarrow> bool" where
  "quiet_close T = (\<forall>tw. tw_close T tw = None \<and> tw_file_close T tw = None)"

lemma tree_names_put: "tree_names fs \<Longrightarrow> list_all name_ok at \<Longrightarrow> tree_names (put_node at nd fs)"
  by (simp add: tree_names_def)

context quiet_os
begin

lemma writeTestLayer_quiet:
  assumes T: "quiet_writer T" "quiet_close T" and root: "suites_root fs ps"
    and tmp: "temp_free K ''kube2e-tests-layer-'' ''.tar'' fs ts" and apart: "\<not> prefix ps ts"
  defines "at \<equiv> ts @ [''kube2e-tests-layer-'' @ os_random K ''kube2e-tests-layer-'' fs @ ''.tar'']"
  shows "writeTestLayer K T (abs_path ps) (map (\<lambda>s. abs_path (ps @ [s])) (suite_names fs ps)) fs =
    (Inr (abs_path at), put_node at (FileNode (tw_encode T (layer_entries fs ps))) (put_node at (FileNode []) fs))"
proof -
  let ?fs1 = "put_node at (FileNode []) fs"
  have ok: "list_all name_ok at" "map_of fs at = None" using tmp by (auto simp: temp_free_def at_def)
  have r: "real_dir fs ps" "tree_names fs" using root by (simp_all add: suites_root_def)
  have off: "\<not> prefix ps at"
  proof
    assume "prefix ps at"
    then have "ps = at" using apart by (simp add: at_def prefix_snoc)
    then have "map_of fs at = Some DirNode" using r(1) by (simp add: real_dir_def at_def)
    then show False using ok(2) by simp
  qed
  have same: "same_below ps fs ?fs1" using off by (auto simp: same_below_def)
  have "\<forall>s \<in> set (suite_names fs ps). real_dir ?fs1 (ps @ [s])"
  proof
    fix s
    assume "s \<in> set (suite_names fs ps)"
    then have "real_dir fs (ps @ [s])" using suite_names_ok [OF root] by blast
    then show "real_dir ?fs1 (ps @ [s])" using ok(2) by (auto simp: real_dir_def)
  qed
  from add_dirs_selects [OF T(1) tree_names_put [OF r(2) ok(1)] this, of "[]"]
  have "add_dirs K T ?fs1 (abs_path ps) (map (\<lambda>s. abs_path (ps @ [s])) (suite_names fs ps)) [] = (None, layer_entries fs ps)"
    using suite_items_same [OF same] by (simp add: layer_entries_def)
  then show ?thesis
    using T(2) CreateTemp_quiet [OF tmp] by (simp add: writeTestLayer_def quiet_close_def at_def)
qed

end

definition complete :: "tar_entry \<Rightarrow> bool" where
  "complete e = (snd (snd e) = None)"

lemma layer_entries_complete [simp]: "list_all complete (layer_entries fs ps)"
proof -
  have "complete (item_entry it)" for it
    by (cases it rule: item_entry.cases) (simp_all add: complete_def file_entry_of_def dir_entry_of_def)
  then show ?thesis by (simp add: layer_entries_def list_all_iff)
qed

text \<open>
  What the registry client promises: the layer read back from the bytes of the tar writer has the
  entries written, and an image with one layer has the file system of this layer.
\<close>

locale image_format =
  fixes G :: registry and T :: tar_writer
  assumes layer: "list_all complete tw \<Longrightarrow> rg_layer G (tw_encode T tw) = Inr (tw, None)"
    and append: "rg_append G l = Inr img \<Longrightarrow> im_stream img = l"

definition working_registry :: "registry \<Rightarrow> bool" where
  "working_registry G = ((\<forall>r. \<exists>ref. rg_parse G r = Inr ref) \<and> (\<forall>l. \<exists>img dg. rg_append G l = Inr img \<and> im_digest img = Inr dg) \<and>
     (\<forall>c ref img a. rg_push G c ref img a = None))"

context image_format
begin

lemma Build_pushes:
  assumes K: "quiet_os K" and T: "quiet_writer T" "quiet_close T" and G: "working_registry G" and root: "suites_root fs ps"
    and tmp: "temp_free K ''kube2e-tests-layer-'' ''.tar'' fs ts" and apart: "\<not> prefix ps ts"
  shows "\<exists>ref img dg fs'. rg_parse G (ir_Ref r) = Inr ref \<and> im_stream img = (layer_entries fs ps, None) \<and> im_digest img = Inr dg \<and>
    Build G K T c r (abs_path ps) fs = ((Inr dg, [(ref, img, registryOptions r, None)]), fs') \<and> map_of fs' = map_of fs"
proof -
  let ?at = "ts @ [''kube2e-tests-layer-'' @ os_random K ''kube2e-tests-layer-'' fs @ ''.tar'']"
  let ?fs1 = "put_node ?at (FileNode (tw_encode T (layer_entries fs ps))) (put_node ?at (FileNode []) fs)"
  obtain ref where ref: "rg_parse G (ir_Ref r) = Inr ref" using G unfolding working_registry_def by blast
  obtain img dg where img: "rg_append G (layer_entries fs ps, None) = Inr img" "im_digest img = Inr dg"
    using G unfolding working_registry_def by blast
  have find: "findTestDirs K (abs_path ps) fs = Inr (map (\<lambda>s. abs_path (ps @ [s])) (suite_names fs ps))"
    using quiet_os.findTestDirs_spec [OF K] root by (simp add: suites_root_def)
  have ok: "list_all name_ok ?at" "real_dir fs ts" "map_of fs ?at = None" using tmp by (auto simp: temp_free_def)
  have "real_dir ?fs1 ts" using ok(2) by (auto simp: real_dir_def)
  then have "ReadFile K (abs_path ?at) ?fs1 = Inr (tw_encode T (layer_entries fs ps))"
    using quiet_os.ReadFile_child [OF K, of ?fs1 ts] ok(1) by simp
  then have "push_layer G K c r ref (abs_path ?at) ?fs1 = (Inr dg, [(ref, img, registryOptions r, None)])"
    using img G by (simp add: push_layer_def layer_from_file_def layer working_registry_def)
  then have "Build G K T c r (abs_path ps) fs =
      ((Inr dg, [(ref, img, registryOptions r, None)]), snd (Remove K (abs_path ?at) ?fs1))"
    using ref find quiet_os.writeTestLayer_quiet [OF K T root tmp apart] by (simp add: Build_def)
  then show ?thesis using ref img append [OF img(1)] quiet_os.Remove_temp [OF K tmp] by blast
qed

end

subsection \<open>A format\<close>

text \<open>
  A plain archive format with both directions: texts are sequences of marked bytes with an end mark,
  an entry its name, a letter for its type, its link and its contents.
\<close>

definition put_text :: "string \<Rightarrow> string" where
  "put_text s = concat (map (\<lambda>c. [CHR ''+'', c]) s) @ [CHR ''.'']"

fun get_text :: "string \<Rightarrow> (string \<times> string) option" where
  "get_text (m # c # cs) =
     (if m = CHR ''+'' then (case get_text cs of None \<Rightarrow> None | Some (s, rest) \<Rightarrow> Some (c # s, rest)) else Some ([], c # cs))"
| "get_text [m] = (if m = CHR ''+'' then None else Some ([], []))"
| "get_text [] = None"

fun type_text :: "typeflag \<Rightarrow> string" where
  "type_text TypeDir = ''d''" | "type_text TypeReg = ''r''" | "type_text TypeSymlink = ''l''" | "type_text TypeOther = ''o''"

definition text_type :: "string \<Rightarrow> typeflag" where
  "text_type s = (if s = ''d'' then TypeDir else if s = ''r'' then TypeReg else if s = ''l'' then TypeSymlink else TypeOther)"

definition put_entry :: "tar_entry \<Rightarrow> string" where
  "put_entry e = put_text (h_Name (fst e)) @ put_text (type_text (h_Typeflag (fst e))) @ put_text (h_Linkname (fst e)) @
     put_text (fst (snd e))"

definition get_entry :: "string \<Rightarrow> (tar_entry \<times> string) option" where
  "get_entry s =
     Option.bind (get_text s) (\<lambda>(nm, s). Option.bind (get_text s) (\<lambda>(ty, s). Option.bind (get_text s) (\<lambda>(ln, s).
       Option.bind (get_text s) (\<lambda>(x, s).
         Some ((\<lparr>h_Name = nm, h_Typeflag = text_type ty, h_Linkname = ln\<rparr>, (x, None)), s)))))"

fun get_entries :: "nat \<Rightarrow> string \<Rightarrow> tar_entry list" where
  "get_entries n [] = []"
| "get_entries 0 s = []"
| "get_entries (Suc n) s = (case get_entry s of None \<Rightarrow> [] | Some (e, s) \<Rightarrow> e # get_entries n s)"

lemma get_put_text [simp]: "get_text (put_text s @ rest) = Some (s, rest)"
  by (induction s) (auto simp: put_text_def, cases rest, auto)

lemma text_type_text [simp]: "text_type (type_text t) = t"
  by (cases t) (simp_all add: text_type_def)

lemma get_put_entry: "complete e \<Longrightarrow> get_entry (put_entry e @ rest) = Some (e, rest)"
  by (cases e) (auto simp: get_entry_def put_entry_def complete_def)

lemma put_entry_starts: "\<exists>c cs. put_entry e = c # cs"
  by (cases "h_Name (fst e)") (simp_all add: put_entry_def put_text_def)

lemma get_put_entries:
  "list_all complete es \<Longrightarrow> length es \<le> n \<Longrightarrow> get_entries n (concat (map put_entry es)) = es"
proof (induction es arbitrary: n)
  case (Cons e es)
  then obtain m where n: "n = Suc m" "length es \<le> m" by (cases n) auto
  obtain c cs where "put_entry e = c # cs" using put_entry_starts by blast
  then have "get_entries n (put_entry e @ r) = (case get_entry (put_entry e @ r) of None \<Rightarrow> [] | Some (e, s) \<Rightarrow> e # get_entries m s)" for r
    by (simp add: n)
  then show ?case using Cons n by (simp add: get_put_entry)
qed simp

lemma entries_length: "length es \<le> length (concat (map put_entry es))"
proof (induction es)
  case (Cons e es)
  then show ?case using put_entry_starts [of e] by auto
qed simp

definition plain_writer :: tar_writer where
  "plain_writer = \<lparr>tw_header = (\<lambda>tw hdr. None), tw_copy = (\<lambda>hdr x. None), tw_close = (\<lambda>tw. None),
     tw_file_close = (\<lambda>tw. None), tw_encode = (\<lambda>tw. concat (map put_entry tw))\<rparr>"

definition plain_registry :: "(string \<Rightarrow> image option) \<Rightarrow> registry" where
  "plain_registry stored = \<lparr>rg_parse = Inr,
     rg_pull = (\<lambda>c ref a. case stored ref of None \<Rightarrow> Inl (Opaque ''not found'') | Some img \<Rightarrow> Inr img),
     rg_layer = (\<lambda>s. Inr (get_entries (length s) s, None)),
     rg_append = (\<lambda>l. Inr \<lparr>im_stream = l, im_digest = Inr ''sha256:1''\<rparr>), rg_push = (\<lambda>c ref img a. None)\<rparr>"

interpretation plain_format: image_format "plain_registry stored" plain_writer for stored
  by unfold_locales (auto simp: plain_registry_def plain_writer_def get_put_entries entries_length)

lemma plain_works: "working_registry (plain_registry stored)" "quiet_writer plain_writer" "quiet_close plain_writer"
  by (simp_all add: working_registry_def plain_registry_def quiet_writer_def plain_writer_def quiet_close_def)

section \<open>Running from an image\<close>

text \<open>The directory an image is extracted to.\<close>

definition image_dir :: "os \<Rightarrow> files \<Rightarrow> string list \<Rightarrow> string list" where
  "image_dir K gs ts = ts @ [''kube2e-image-'' @ os_random K ''kube2e-image-'' gs]"

context quiet_os
begin

lemma Traverse_extracts:
  assumes T: "quiet_writer T" and root: "suites_root fs ps"
    and pull: "pull G c r = Inr img" and img: "im_stream img = (layer_entries fs ps, None)" "im_digest img = Inr dg"
    and tmp: "temp_free K ''kube2e-image-'' [] gs ts"
  shows "\<exists>gs'. (\<forall>q. q \<noteq> [] \<longrightarrow> map_of gs' (image_dir K gs ts @ q) = layer_tree fs ps (suite_names fs ps) q) \<and>
    Traverse G K c r fn (s, gs) =
      (case fn dg (abs_path (image_dir K gs ts)) (s, gs') of
         (err, s', gs2) \<Rightarrow> (err, s', snd (RemoveAll K (abs_path (image_dir K gs ts)) gs2)))"
proof -
  define ds where "ds = image_dir K gs ts"
  note ds_def = ds_def [unfolded image_dir_def]
  have ok: "list_all name_ok ds" "real_dir gs ts" "map_of gs ds = None" "tree_ok gs" "ds \<noteq> []"
    using tmp by (auto simp: temp_free_def ds_def)
  have below: "map_of gs (ds @ q) = None" for q using tree_ok_below [OF ok(4,3) _ ok(5), of "ds @ q"] by simp
  have "real_dir (put_node ds DirNode gs) ds" using ok(2) below [of "[]"] by (auto simp: ds_def real_dir_snoc real_dir_def)
  then have "empty_dir (put_node ds DirNode gs) ds" using ok below by (simp add: empty_dir_def)
  from publish_extract [OF quiet_os_axioms T root quiet_os_axioms this, of "im_digest img"]
  obtain dirs entries gs' where d: "findTestDirs K (abs_path ps) fs = Inr dirs" "add_dirs K T fs (abs_path ps) dirs [] = (None, entries)"
    and x: "extract_image K \<lparr>im_stream = (entries, None), im_digest = im_digest img\<rparr> (abs_path ds) (put_node ds DirNode gs) = (None, gs')"
    and at: "\<forall>q. q \<noteq> [] \<longrightarrow> map_of gs' (ds @ q) = layer_tree fs ps (suite_names fs ps) q" by blast
  have "dirs = map (\<lambda>s. abs_path (ps @ [s])) (suite_names fs ps)"
    using d(1) findTestDirs_spec root by (simp add: suites_root_def)
  moreover have "\<forall>s \<in> set (suite_names fs ps). real_dir fs (ps @ [s])" "tree_names fs"
    using suite_names_ok [OF root] root by (auto simp: suites_root_def)
  ultimately have "entries = layer_entries fs ps"
    using d(2) add_dirs_selects [OF T, of fs "suite_names fs ps" ps "[]"] by (simp add: layer_entries_def)
  then have "\<lparr>im_stream = (entries, None), im_digest = im_digest img\<rparr> = img" using img by (cases img) simp
  with x have "extract_image K img (abs_path ds) (put_node ds DirNode gs) = (None, gs')" by simp
  then have "Traverse G K c r fn (s, gs) =
      (case fn dg (abs_path ds) (s, gs') of (err, s', gs2) \<Rightarrow> (err, s', snd (RemoveAll K (abs_path ds) gs2)))"
    using pull MkdirTemp_quiet [OF tmp] img(2) by (simp add: Traverse_def ds_def)
  with at show ?thesis unfolding ds_def image_dir_def by blast
qed

end

end
