(* ===== verification/Image_Escape.thy ===== *)
theory Image_Escape
  imports Image_Roundtrip
begin

text \<open>
  Where the guards of extraction and the bound of the directory walk end: an absolute link target
  is checked as if it were below the extraction directory, but created as it is, and a regular
  entry of the same name is then written through the link; and the number of levels a walk may
  descend is enough for every tree.
\<close>

section \<open>Writing through an absolute link\<close>

context quiet_os
begin

lemma Symlink_child:
  assumes "real_dir fs ds" and "list_all name_ok (ds @ [n])" and "map_of fs (ds @ [n]) = None" and "t \<noteq> []"
  shows "Symlink K t (abs_path (ds @ [n])) fs = (None, put_node (ds @ [n]) (LinkNode t) fs)"
  using assms by (simp add: Symlink_def create_node_def locate_real)

lemma open_through_link:
  assumes "real_dir fs ds" and "list_all name_ok (ds @ [n])" and "map_of fs (ds @ [n]) = Some (LinkNode (abs_path (q @ [x])))"
    and "real_dir fs q" and "list_all name_ok (q @ [x])" and "\<not> link_at fs (q @ [x])" and "map_of fs (q @ [x]) \<noteq> Some DirNode"
  shows "open_trunc K (abs_path (ds @ [n])) fs = Inr (q @ [x], put_node (q @ [x]) (FileNode []) fs)"
proof -
  have n: "n \<noteq> []" "n \<noteq> ''.''" "n \<noteq> ''..''" using assms(2) by simp_all
  have nl: "map_of fs (q @ [x]) \<noteq> Some (LinkNode t)" for t using assms(6) by (auto simp: link_at_def)
  obtain m where m: "maxlinks = Suc m" by (simp add: maxlinks_def)
  have "walk fs True m [] (q @ [x]) = Inr (q @ [x])"
    using walk_real [of fs "[]" q True m "[x]"] walk_last [of x fs q True m] assms(4,5) nl by simp
  then have "walk fs True m [] (split_on slash (abs_path (q @ [x]))) = Inr (q @ [x])"
    using assms(5) by (simp add: split_abs walk_skip)
  moreover have "rooted (abs_path (q @ [x]))" by (simp add: abs_path_def rooted_def)
  ultimately have "walk fs True (Suc m) ds [n] = Inr (q @ [x])"
    by (subst walk_name(4) [OF n assms(3)]) simp
  then have "walk fs True maxlinks [] (ds @ [n]) = Inr (q @ [x])"
    unfolding m using walk_real [of fs "[]" ds True "Suc m" "[n]"] assms(1,2) by simp
  then show ?thesis using assms(2,7) by (simp add: open_trunc_def locate_abs)
qed

lemma link_then_file:
  assumes "real_dir fs ds" and "ds \<noteq> []" and "list_all name_ok (ds @ [n])" and "map_of fs (ds @ [n]) = None"
    and "\<not> prefix ''.wh.'' n"
    and "real_dir fs q" and "list_all name_ok (q @ [x])" and "map_of fs (q @ [x]) = Some (FileNode old)"
  shows "\<exists>fs'. extract_image K \<lparr>im_stream = ([(\<lparr>h_Name = n, h_Typeflag = TypeSymlink, h_Linkname = abs_path (q @ [x])\<rparr>, b0),
      (\<lparr>h_Name = n, h_Typeflag = TypeReg, h_Linkname = l\<rparr>, (y, None))], None), im_digest = dg\<rparr> (abs_path ds) fs = (None, fs') \<and>
    map_of fs' (q @ [x]) = Some (FileNode y)"
proof -
  let ?t = "abs_path (q @ [x])" and ?at = "ds @ [n]"
  define fs1 where "fs1 = put_node ?at (LinkNode ?t) fs"
  have ok: "list_all name_ok ds" "name_ok n" using assms(3) by simp_all
  have es: "entry_elems n = [n]" using entry_elems_join [of "[n]"] ok by simp
  have target: "Join [abs_path ds, Clean (slash # n)] = abs_path ?at" using target_abs [OF ok(1), of n] es by simp
  have wh: "\<not> prefix ''.wh.'' (Base n)" using Base_join [of "[n]"] ok assms(5) by simp
  have inside: "withinRoot (abs_path ds @ [slash]) (abs_path ?at)"
    using withinRoot_abs [OF ok(1) assms(2,3)] by simp
  have "rooted ?t" by (simp add: abs_path_def rooted_def)
  then have linkok: "symlinkWithinRoot (abs_path ds @ [slash]) (abs_path ds) (abs_path ?at) ?t"
    using target_abs [OF ok(1), of ?t] withinRoot_abs [OF ok(1) assms(2), of "ds @ entry_elems ?t"] ok(1)
    by (simp add: symlinkWithinRoot_def)
  have sl: "Symlink K ?t (abs_path ?at) fs = (None, fs1)"
    using Symlink_child [OF assms(1,3,4)] by (simp add: fs1_def abs_path_def)
  have rd: "real_dir fs1 ds" "real_dir fs1 q" using assms(1,4,6) by (auto simp: fs1_def real_dir_def)
  have ne: "?at \<noteq> q @ [x]" using assms(4,8) by auto
  then have there: "map_of fs1 (q @ [x]) = Some (FileNode old)" using assms(8) by (auto simp: fs1_def)
  have mk: "MkdirAll K (abs_path ds) fs1 = (None, fs1)" using MkdirAll_there [OF rd(1) ok(1), of "[]"] by simp
  have guard: "realParentWithinRoot K (abs_path ds @ [slash]) (abs_path ?at) fs1"
    using realParent_child [OF rd(1) assms(3)] assms(2) by simp
  have "open_trunc K (abs_path ?at) fs1 = Inr (q @ [x], put_node (q @ [x]) (FileNode []) fs1)"
    using open_through_link [OF rd(1) assms(3) _ rd(2) assms(7)] there by (simp add: fs1_def)
  then obtain fs2 where w: "writeFile K (abs_path ?at) (y, None) fs1 = (None, fs2)" "map_of fs2 (q @ [x]) = Some (FileNode y)"
    by (simp add: writeFile_def copy_into_def)
  have "Dir (abs_path ?at) = abs_path ds" using assms(3) by (simp add: Dir_abs)
  then show ?thesis
    using w sl mk guard inside linkok wh ok(1)
    by (simp add: extract_image_def Let_def extractEntry_def target whiteout_def)
qed

end

section \<open>The levels of a directory walk\<close>

lemma real_dir_depth: "real_dir fs at \<Longrightarrow> length at \<le> length fs"
proof -
  assume rd: "real_dir fs at"
  have "(\<lambda>k. take k at) ` {1..length at} \<subseteq> fst ` set fs"
  proof
    fix q
    assume "q \<in> (\<lambda>k. take k at) ` {1..length at}"
    then have "prefix q at" "q \<noteq> []" by (auto simp: take_is_prefix)
    then have "map_of fs q = Some DirNode" using rd by (simp add: real_dir_def)
    then show "q \<in> fst ` set fs" by (force dest: map_of_SomeD)
  qed
  moreover have "inj_on (\<lambda>k. take k at) {1..length at}"
    by (rule inj_onI) (metis length_take min.absorb2 atLeastAtMost_iff)
  ultimately have "card {1..length at} \<le> card (fst ` set fs)" by (intro card_inj_on_le) auto
  also have "\<dots> \<le> length fs" by (metis card_length length_map list.set_map)
  finally show "length at \<le> length fs" by simp
qed

lemma ReadDir_listing:
  assumes "ReadDir K (abs_path at) fs = Inr ds" and "real_dir fs at" and "list_all name_ok at"
  shows "ds = map (\<lambda>c. (c, the (map_of fs (at @ [c])))) (children fs at)"
  using assms locate_dir [of fs at "[]" K True] node_at_real [of fs at]
  by (auto simp: ReadDir_def faulty_def split: option.splits)

lemma walk_entries_cong:
  assumes "\<And>d s. d \<in> set ds \<Longrightarrow> visit (Join [path, fst d]) d s = visit' (Join [path, fst d]) d s"
  shows "walk_entries visit path ds s = walk_entries visit' path ds s"
  using assms
proof (induction ds arbitrary: s)
  case (Cons d ds)
  have "walk_entries visit path ds s = walk_entries visit' path ds s" for s using Cons by simp
  then show ?case using Cons.prems [of d s] by (simp split: prod.splits option.splits walk_err.splits)
qed simp

lemma walkDir_enough:
  assumes "tree_names fs" and "list_all name_ok at" and "is_dir d \<Longrightarrow> real_dir fs at" and "length at \<le> Suc (length fs)"
    and "Suc (Suc (length fs)) \<le> n + length at"
  shows "walkDir n K fs fn (abs_path at) d s = walkDir (Suc n) K fs fn (abs_path at) d s"
  using assms(2-5)
proof (induction n arbitrary: at d s)
  case (Suc n)
  have "walk_entries (walkDir n K fs fn) (abs_path at) ds s = walk_entries (walkDir (Suc n) K fs fn) (abs_path at) ds s"
    if dir: "is_dir d" and ds: "ReadDir K (abs_path at) fs = Inr ds" for ds s
  proof (rule walk_entries_cong)
    fix e s
    assume "e \<in> set ds"
    with ReadDir_listing [OF ds Suc.prems(2) [OF dir] Suc.prems(1)]
    obtain c where e: "e = (c, the (map_of fs (at @ [c])))" and c: "map_of fs (at @ [c]) \<noteq> None"
      by (auto simp: children_iff)
    have names: "list_all name_ok (at @ [c])" using c assms(1) unfolding tree_names_def by blast
    have "real_dir fs (at @ [c])" if "is_dir e"
      using that c Suc.prems(2) [OF dir] by (auto simp: e is_dir_def real_dir_snoc)
    moreover have "length at \<le> length fs" using real_dir_depth Suc.prems(2) [OF dir] .
    ultimately have "walkDir n K fs fn (abs_path (at @ [c])) e s = walkDir (Suc n) K fs fn (abs_path (at @ [c])) e s"
      using Suc.IH [of "at @ [c]" e s] names Suc.prems(4) by simp
    then show "walkDir n K fs fn (Join [abs_path at, fst e]) e s = walkDir (Suc n) K fs fn (Join [abs_path at, fst e]) e s"
      using Join_name [of at c] names by (simp add: e)
  qed
  then show ?case
    by (simp add: walkDir.simps(2) [of n] walkDir.simps(2) [of "Suc n"] del: walkDir.simps
        split: prod.splits option.splits sum.splits if_splits)
qed simp

lemma walkDir_more:
  assumes "tree_names fs" and "list_all name_ok at" and "is_dir d \<Longrightarrow> real_dir fs at" and "length at \<le> Suc (length fs)"
    and "Suc (Suc (length fs)) \<le> n" and "n \<le> m"
  shows "walkDir m K fs fn (abs_path at) d s = walkDir n K fs fn (abs_path at) d s"
  using assms(6)
proof (induction m rule: dec_induct)
  case (step m)
  have "walkDir m K fs fn (abs_path at) d s = walkDir (Suc m) K fs fn (abs_path at) d s"
    by (rule walkDir_enough [OF assms(1-4)]) (use step assms(5) in simp_all)
  then show ?case using step by simp
qed simp

end
