(* ===== verification/Example_Files.thy ===== *)
theory Example_Files
  imports Image_Roundtrip Engine_Remote
begin

text \<open>
  Executable criteria for the conditions on file trees, an operating system whose faults are
  switched off, and an example tree with a test suite.
\<close>

section \<open>Criteria\<close>

lemma real_dir_code: "real_dir fs at \<longleftrightarrow> list_all (\<lambda>q. q = [] \<or> map_of fs q = Some DirNode) (prefixes at)"
  by (auto simp: real_dir_def list_all_iff)

lemma link_free_code:
  "list_all (\<lambda>(q, nd). case nd of LinkNode t \<Rightarrow> \<not> prefix ds q | _ \<Rightarrow> True) fs \<Longrightarrow> link_free fs ds"
  by (force simp: link_free_def list_all_iff dest!: map_of_SomeD)

lemma tree_names_code: "list_all (\<lambda>(q, nd). list_all name_ok q) fs \<Longrightarrow> tree_names fs"
  by (force simp: tree_names_def list_all_iff dest: map_of_SomeD)

lemma tree_ok_code:
  assumes "list_all (\<lambda>(q, nd). q \<noteq> [] \<and> node_at fs (butlast q) = Some DirNode) fs"
  shows "tree_ok fs"
proof -
  have "q \<noteq> [] \<and> node_at fs (butlast q) = Some DirNode" if "map_of fs q = Some nd" for q nd
    using map_of_SomeD [OF that] assms by (force simp: list_all_iff)
  then show ?thesis unfolding tree_ok_def by (metis butlast_snoc not_Some_eq)
qed

lemma jail_code:
  assumes "list_all name_ok ds" and "ds \<noteq> []" and "list_all (\<lambda>q. q = [] \<or> map_of fs q = Some DirNode) (prefixes ds)"
    and "list_all (\<lambda>(q, nd). case nd of LinkNode t \<Rightarrow> \<not> prefix ds q | _ \<Rightarrow> True) fs"
  shows "jail ds fs"
  using assms real_dir_code link_free_code by (simp add: jail_def)

section \<open>An operating system without faults\<close>

definition without_faults :: "os \<Rightarrow> os" where
  "without_faults K = K\<lparr>os_fault := (\<lambda>oper p fs. None), os_short := (\<lambda>p fs. None)\<rparr>"

interpretation quieted: quiet_os "without_faults K" for K
  by unfold_locales (simp_all add: without_faults_def)

definition example_os :: os where
  "example_os = without_faults \<lparr>os_cwd = [''work''], os_tmpdir = ''/tmp'', os_random = (\<lambda>pre fs. ''1''),
     os_fault = (\<lambda>oper p fs. None), os_short = (\<lambda>p fs. None)\<rparr>"

lemma example_quiet: "quiet_os example_os"
  unfolding example_os_def by (rule quieted.quiet_os_axioms)

section \<open>An example tree\<close>

definition example_tree :: files where
  "example_tree =
     [([''etc''], DirNode), ([''etc'', ''passwd''], FileNode ''root''), ([''tmp''], DirNode), ([''tmp'', ''x''], DirNode),
      ([''work''], DirNode), ([''work'', ''web''], DirNode), ([''work'', ''web'', ''cases''], DirNode),
      ([''work'', ''web'', ''cases'', ''a.yaml''], FileNode ''name: a''),
      ([''work'', ''web'', ''cases'', ''notes.txt''], FileNode ''notes''),
      ([''work'', ''docs''], DirNode)]"

lemma example_jail: "jail [''tmp'', ''x''] example_tree"
  by (rule jail_code) code_simp+

lemma example_tree_ok: "tree_ok example_tree"
  by (rule tree_ok_code) code_simp

lemma example_tree_names: "tree_names example_tree"
  by (rule tree_names_code) code_simp

definition dir_entry :: "string \<Rightarrow> tar_entry" where
  "dir_entry nm = (\<lparr>h_Name = nm, h_Typeflag = TypeDir, h_Linkname = []\<rparr>, ([], None))"

definition file_entry :: "string \<Rightarrow> string \<Rightarrow> tar_entry" where
  "file_entry nm x = (\<lparr>h_Name = nm, h_Typeflag = TypeReg, h_Linkname = []\<rparr>, (x, None))"

definition link_entry :: "string \<Rightarrow> string \<Rightarrow> tar_entry" where
  "link_entry nm t = (\<lparr>h_Name = nm, h_Typeflag = TypeSymlink, h_Linkname = t\<rparr>, ([], None))"

definition image_of :: "tar_entry list \<Rightarrow> image" where
  "image_of entries = \<lparr>im_stream = (entries, None), im_digest = Inr ''sha256:1''\<rparr>"

definition example_registry :: "image \<Rightarrow> registry" where
  "example_registry img = \<lparr>rg_parse = Inr, rg_pull = (\<lambda>c ref a. Inr img), rg_layer = (\<lambda>s. Inr ([], None)),
     rg_append = (\<lambda>t. Inr \<lparr>im_stream = t, im_digest = Inr ''sha256:1''\<rparr>), rg_push = (\<lambda>c ref i a. None)\<rparr>"

end
