(* ===== verification/Image_Properties.thy ===== *)
theory Image_Properties
  imports Image_Exchange Image_Escape Example_Files Example_Suite
begin

text \<open>
  The properties of tests images: what extraction may touch, that a remote run restores the file
  tree, that publishing and extracting give back the selected files, and the hole the guards leave.
  The witnesses evaluate the model on the example tree.
\<close>

text \<open>
  C25: Extracting an image without symbolic links changes nothing outside the extraction
  directory, whatever names its entries have (absolute, or full of dot-dot), whichever operation
  of the operating system fails, and also when the extraction stops with an error. Premise: the
  directory is an absolute path of real directories without a link below it.
\<close>

theorem extraction_confined:
  assumes "jail ds fs" and "no_links img" and "\<not> strict_prefix ds q"
  shows "map_of (snd (extract_image K img (abs_path ds) fs)) q = map_of fs q"
  using extract_image_jail [OF assms(1,2), of K] assms(3) by (simp add: confined_def)

definition evil_image :: image where
  "evil_image = image_of [file_entry ''../../etc/passwd'' ''owned'', dir_entry ''/../a'', file_entry ''a/b.yaml'' ''y'']"

theorem extraction_confined_witness:
  "map_of (snd (extract_image example_os evil_image (abs_path [''tmp'', ''x'']) example_tree)) [''etc'', ''passwd''] =
     map_of example_tree [''etc'', ''passwd''] \<and>
   map_of (snd (extract_image example_os evil_image (abs_path [''tmp'', ''x'']) example_tree)) [''tmp'', ''x'', ''a'', ''b.yaml''] =
     Some (FileNode ''y'')"
proof -
  have nl: "no_links evil_image" by code_simp
  have out: "\<not> strict_prefix [''tmp'', ''x''] [''etc'', ''passwd'']" by code_simp
  have "map_of (snd (extract_image example_os evil_image (abs_path [''tmp'', ''x'']) example_tree)) [''tmp'', ''x'', ''a'', ''b.yaml''] =
     Some (FileNode ''y'')" by code_simp
  with extraction_confined [OF example_jail nl out, of example_os] show ?thesis by simp
qed

text \<open>
  C26: The guard on the resolved parent: for every file tree, with any links, extracting a regular
  entry changes no file and no link outside the extraction directory (only directories may appear
  there), provided the last element of the target is not itself a link once its parent was made.
\<close>

theorem regular_entry_guarded:
  assumes "list_all name_ok ds" and "ds \<noteq> []" and "h_Typeflag hdr = TypeReg"
    and "extractEntry K (abs_path ds @ [slash]) (abs_path ds) hdr r fs = (err, fs')"
    and "\<forall>t. stat_node K False (Join [abs_path ds, Clean (slash # h_Name hdr)])
      (snd (MkdirAll K (Dir (Join [abs_path ds, Clean (slash # h_Name hdr)])) fs)) \<noteq> Inr (LinkNode t)"
  shows "files_kept ds fs fs'"
  using regular_entry_kept [OF assms(1-4)] assms(5) by blast

definition linked_tree :: files where
  "linked_tree = ([''tmp'', ''x'', ''up''], LinkNode ''/etc'') # example_tree"

theorem regular_entry_guarded_witness:
  "files_kept [''tmp'', ''x''] linked_tree
     (snd (extractEntry example_os (abs_path [''tmp'', ''x''] @ [slash]) (abs_path [''tmp'', ''x''])
        (fst (file_entry ''up/passwd'' ''owned'')) (''owned'', None) linked_tree))"
proof -
  let ?hdr = "fst (file_entry ''up/passwd'' ''owned'')"
  have ok: "list_all name_ok [''tmp'', ''x'']" "h_Typeflag ?hdr = TypeReg" by code_simp+
  have "stat_node example_os False (Join [abs_path [''tmp'', ''x''], Clean (slash # h_Name ?hdr)])
      (snd (MkdirAll example_os (Dir (Join [abs_path [''tmp'', ''x''], Clean (slash # h_Name ?hdr)])) linked_tree)) =
      Inr (FileNode ''root'')" by code_simp
  then have nl: "\<forall>t. stat_node example_os False (Join [abs_path [''tmp'', ''x''], Clean (slash # h_Name ?hdr)])
      (snd (MkdirAll example_os (Dir (Join [abs_path [''tmp'', ''x''], Clean (slash # h_Name ?hdr)])) linked_tree)) \<noteq>
      Inr (LinkNode t)" by simp
  show ?thesis
    by (rule regular_entry_guarded [OF ok(1) _ ok(2) surjective_pairing nl]) simp
qed






text \<open>
  C28: A run of the engine leaves the file tree as it was: a local run only reads, and a run from
  an image removes the temporary directory it extracted to, also when the extraction, the digest
  or the run fails. Premises: the image has no links, the directory for temporary files is a
  real one, and removal does not fail (the code ignores that failure).
\<close>

theorem run_restores_files:
  assumes "temp_ok K ''kube2e-image-'' fs ts" and "\<forall>p fs. os_fault K ''removeall'' p fs = None"
    and "\<forall>r img. pull G c r = Inr img \<longrightarrow> no_links img"
  shows "map_of (snd (snd (RunTests G K glob E W base grp c cfg (tr, fs)))) q = map_of fs q"
proof (cases "rm_Ref (ec_Remote cfg) = []")
  case True
  then show ?thesis by (simp add: RunTests_def split: prod.splits)
next
  case False
  let ?r = "\<lparr>ir_Ref = rm_Ref (ec_Remote cfg), ir_Username = rm_Username (ec_Remote cfg), ir_Password = rm_Password (ec_Remote cfg)\<rparr>"
    and ?fn = "run_extracted K glob E W base grp c cfg"
  obtain report tr1 where nr: "engine_newReport E cfg tr = (report, tr1)" by fastforce
  obtain err s' fs' where t: "Traverse G K c ?r ?fn ((report, None, tr1), fs) = (err, s', fs')" by (metis prod_cases3)
  have keep: "snd (snd (?fn digest dir (s, fs))) = fs" for digest dir s fs
    by (simp add: run_extracted_def Let_def split: prod.splits)
  have "snd (snd (RunTests G K glob E W base grp c cfg (tr, fs))) = fs'"
    using False by (simp add: RunTests_def runRemote_def nr t Let_def split: prod.splits)
  moreover have "map_of fs' q = map_of fs q"
    by (rule Traverse_leaves_no_trace [OF assms(1) _ _ keep t]) (use assms(2,3) in auto)
  ultimately show ?thesis by simp
qed

definition example_remote_conf :: engine_config where
  "example_remote_conf = example_engine_conf\<lparr>ec_Remote := \<lparr>rm_Ref = ''reg/tests:1'', rm_Username = [], rm_Password = []\<rparr>, ec_DryRun := True\<rparr>"

definition suite_image :: image where
  "suite_image = image_of [dir_entry ''tests'', dir_entry ''tests/web'', file_entry ''tests/web/cases/a.yaml'' ''name: a'',
     file_entry ''../../etc/passwd'' ''owned'']"

definition example_remote_run :: "(engine_report \<times> go_error option) \<times> ev list \<times> files" where
  "example_remote_run = RunTests (example_registry suite_image) example_os (\<lambda>fs p. Inr []) cluster (\<lambda>_. cluster) example_suite_io
     group_seq RunCtx example_remote_conf ([], example_tree)"

theorem run_restores_files_witness:
  "er_Total (fst (fst example_remote_run)) = 1 \<and>
   map_of (snd (snd example_remote_run)) [''tmp'', ''kube2e-image-1''] = None \<and>
   map_of (snd (snd example_remote_run)) [''etc'', ''passwd''] = Some (FileNode ''root'')"
proof -
  have tot: "er_Total (fst (fst example_remote_run)) = 1" by code_simp
  have "real_dir example_tree [''tmp'']" unfolding real_dir_code by code_simp
  moreover have "os_tmpdir example_os = abs_path [''tmp'']" "list_all name_ok [''tmp'']"
    "name_ok (''kube2e-image-'' @ os_random example_os ''kube2e-image-'' example_tree)" by code_simp+
  ultimately have tmp: "temp_ok example_os ''kube2e-image-'' example_tree [''tmp'']"
    using example_tree_ok by (simp add: temp_ok_def)
  have rm: "\<forall>p fs. os_fault example_os ''removeall'' p fs = None" by (simp add: example_os_def without_faults_def)
  have "no_links suite_image" by code_simp
  then have nl: "\<forall>r img. pull (example_registry suite_image) RunCtx r = Inr img \<longrightarrow> no_links img"
    by (simp add: pull_def example_registry_def Let_def)
  have "map_of example_tree [''tmp'', ''kube2e-image-1''] = None" "map_of example_tree [''etc'', ''passwd''] = Some (FileNode ''root'')"
    by code_simp+
  with run_restores_files [OF tmp rm nl, of "\<lambda>fs p. Inr []" cluster "\<lambda>_. cluster" example_suite_io group_seq example_remote_conf "[]"] tot
  show ?thesis unfolding example_remote_run_def by simp
qed

text \<open>
  C29: The hole the guards leave. The target of an absolute link is checked as if it were below
  the extraction directory, but the link is created with the absolute target, and a regular entry
  of the same name is written through it: an image of two entries overwrites any existing file
  of the machine, without an error, from any extraction directory.
\<close>

theorem absolute_link_escapes:
  assumes "quiet_os K" and "real_dir fs ds" and "ds \<noteq> []" and "list_all name_ok (ds @ [n])" and "map_of fs (ds @ [n]) = None"
    and "\<not> prefix ''.wh.'' n"
    and "real_dir fs q" and "list_all name_ok (q @ [x])" and "map_of fs (q @ [x]) = Some (FileNode old)"
  shows "\<exists>fs'. extract_image K \<lparr>im_stream = ([(\<lparr>h_Name = n, h_Typeflag = TypeSymlink, h_Linkname = abs_path (q @ [x])\<rparr>, ([], None)),
      (\<lparr>h_Name = n, h_Typeflag = TypeReg, h_Linkname = []\<rparr>, (y, None))], None), im_digest = dg\<rparr> (abs_path ds) fs = (None, fs') \<and>
    map_of fs' (q @ [x]) = Some (FileNode y)"
  using quiet_os.link_then_file [OF assms] .

theorem absolute_link_escapes_witness:
  "\<exists>fs'. extract_image example_os (image_of [link_entry ''n'' (abs_path ([''etc''] @ [''passwd''])), file_entry ''n'' ''owned''])
     (abs_path [''tmp'', ''x'']) example_tree = (None, fs') \<and> map_of fs' ([''etc''] @ [''passwd'']) = Some (FileNode ''owned'')"
proof -
  have rd: "real_dir example_tree [''tmp'', ''x'']" "real_dir example_tree [''etc'']" unfolding real_dir_code by code_simp+
  have ok: "list_all name_ok ([''tmp'', ''x''] @ [''n''])" "map_of example_tree ([''tmp'', ''x''] @ [''n'']) = None"
    "\<not> prefix ''.wh.'' ''n''" "list_all name_ok ([''etc''] @ [''passwd''])"
    "map_of example_tree ([''etc''] @ [''passwd'']) = Some (FileNode ''root'')" by code_simp+
  show ?thesis
    unfolding image_of_def link_entry_def file_entry_def
    by (rule absolute_link_escapes [OF example_quiet rd(1) _ ok(1,2,3) rd(2) ok(4,5)]) simp
qed



end
