(* ===== verification/Validate.thy ===== *)
theory Validate
  imports Quiet_Files
begin

text \<open>
  Validation of case files against the case schema (\<^verbatim>\<open>src/internal/validate\<close>): discovery of suites,
  one report per case file, and the flattening of schema violations.

  The YAML decoder, the JSON decoder and the schema compiler are not part of the repository: they
  are the record \<open>schema_lib\<close>. A violation the schema library reports is a tree: a node has the
  location of the offending value, the text of its kind, and its causes.
\<close>

section \<open>Reports\<close>

record problem =
  pb_Pointer :: string
  pb_Message :: string

record vcase_report =
  vc_Path :: string
  vc_Problems :: "problem list"

record vsuite_report =
  vs_Name :: string
  vs_Path :: string
  vs_Cases :: "vcase_report list"

record vreport =
  vr_Dir :: string
  vr_Suites :: "vsuite_report list"

definition rootPointer :: string where
  "rootPointer = ''/''"

definition case_Valid :: "vcase_report \<Rightarrow> bool" where
  "case_Valid c = (length (vc_Problems c) = 0)"

fun count_case :: "nat \<times> nat \<Rightarrow> vcase_report \<Rightarrow> nat \<times> nat" where
  "count_case (n, invalid) c = (n + 1, if \<not> case_Valid c then invalid + 1 else invalid)"

definition Totals :: "vreport \<Rightarrow> nat \<times> nat" where
  "Totals r = foldl (\<lambda>acc suite. foldl count_case acc (vs_Cases suite)) (0, 0) (vr_Suites r)"

definition report_Valid :: "vreport \<Rightarrow> bool" where
  "report_Valid r = (snd (Totals r) = 0)"

section \<open>Violations\<close>

datatype violation = Violation (v_location: "string list") (v_message: string) (v_causes: "violation list")

text \<open>An error of the schema library: a violation, found through wrapping, or another error.\<close>

datatype schema_error = Invalid violation | OtherError go_error

text \<open>\<^verbatim>\<open>pointerEscaper\<close>, one pass over the text.\<close>

definition escape_char :: "char \<Rightarrow> string" where
  "escape_char c = (if c = CHR ''~'' then ''~0'' else if c = slash then ''~1'' else [c])"

definition pointerEscaper :: "string \<Rightarrow> string" where
  "pointerEscaper token = concat (map escape_char token)"

definition pointer :: "string list \<Rightarrow> string" where
  "pointer location =
     (if location = [] then rootPointer else concat (map (\<lambda>token. slash # pointerEscaper token) location))"

definition newProblem :: "violation \<Rightarrow> string \<Rightarrow> problem" where
  "newProblem err p = \<lparr>pb_Pointer = p, pb_Message = v_message err\<rparr>"

definition reRoots :: "violation \<Rightarrow> bool" where
  "reRoots err = list_ex (\<lambda>cause. length (v_location cause) < length (v_location err)) (v_causes err)"

fun collect_problems :: "violation \<Rightarrow> string \<Rightarrow> problem list \<Rightarrow> problem list" where
  "collect_problems (Violation loc m causes) location into =
     (if reRoots (Violation loc m causes) then into @ [newProblem (Violation loc m causes) location]
      else let location = pointer loc in
        if causes = [] then into @ [newProblem (Violation loc m causes) location]
        else foldl (\<lambda>into cause. collect_problems cause location into) into causes)"

definition problems :: "schema_error \<Rightarrow> problem list" where
  "problems err =
     (case err of
        OtherError e \<Rightarrow> [\<lparr>pb_Pointer = rootPointer, pb_Message = err_text e\<rparr>]
      | Invalid v \<Rightarrow> collect_problems v rootPointer [])"

section \<open>The validator\<close>

type_synonym schema = "json \<Rightarrow> schema_error option"

record schema_lib =
  sl_yaml :: "string \<Rightarrow> go_error + string"
  sl_json :: "string \<Rightarrow> go_error + json"
  sl_add :: "string \<Rightarrow> json \<Rightarrow> go_error option"
  sl_compile :: "string \<Rightarrow> json \<Rightarrow> go_error + schema"

definition caseSchemaURL :: string where
  "caseSchemaURL = ''case.schema.json''"

definition New_validator :: "schema_lib \<Rightarrow> string \<Rightarrow> go_error + schema" where
  "New_validator L caseSchema =
     (case sl_json L caseSchema of
        Inl e \<Rightarrow> Inl (wrap ''unmarshal case schema'' e)
      | Inr document \<Rightarrow>
          (case sl_add L caseSchemaURL document of
             Some e \<Rightarrow> Inl (wrap ''add case schema'' e)
           | None \<Rightarrow>
               (case sl_compile L caseSchemaURL document of
                  Inl e \<Rightarrow> Inl (wrap ''compile case schema'' e)
                | Inr schema \<Rightarrow> Inr schema)))"

definition decode :: "schema_lib \<Rightarrow> string \<Rightarrow> go_error + json" where
  "decode L content =
     (case sl_yaml L content of
        Inl e \<Rightarrow> Inl (wrap ''parse yaml'' e)
      | Inr data \<Rightarrow>
          (case sl_json L data of
             Inl e \<Rightarrow> Inl (wrap ''decode json'' e)
           | Inr document \<Rightarrow> Inr document))"

definition File :: "schema_lib \<Rightarrow> schema \<Rightarrow> os \<Rightarrow> string \<Rightarrow> files \<Rightarrow> go_error + vcase_report" where
  "File L v K path fs =
     (let report = \<lparr>vc_Path = path, vc_Problems = []\<rparr> in
      case ReadFile K path fs of
        Inl e \<Rightarrow> Inl (wrap (msg [''read case '', sq path]) (path_error ''open'' path e))
      | Inr content \<Rightarrow>
          (case decode L content of
             Inl e \<Rightarrow> Inr (report\<lparr>vc_Problems := [\<lparr>pb_Pointer = rootPointer, pb_Message = err_text e\<rparr>]\<rparr>)
           | Inr document \<Rightarrow>
               (case v document of
                  Some err \<Rightarrow> Inr (report\<lparr>vc_Problems := problems err\<rparr>)
                | None \<Rightarrow> Inr report)))"

definition caseExt :: string where
  "caseExt = ''.yaml''"

text \<open>The entries of a \<^verbatim>\<open>cases\<close> directory that are case files.\<close>

definition is_case_entry :: "dirent \<Rightarrow> bool" where
  "is_case_entry d = (\<not> (snd d = DirNode \<or> Ext (fst d) \<noteq> caseExt))"

fun suite_cases :: "schema_lib \<Rightarrow> schema \<Rightarrow> os \<Rightarrow> files \<Rightarrow> string \<Rightarrow> dirent list \<Rightarrow> vsuite_report \<Rightarrow> go_error + vsuite_report" where
  "suite_cases L v K fs casesDir [] report = Inr report"
| "suite_cases L v K fs casesDir (entry # entries) report =
     (if \<not> is_case_entry entry then suite_cases L v K fs casesDir entries report
      else case File L v K (Join [casesDir, fst entry]) fs of
        Inl e \<Rightarrow> Inl e
      | Inr c \<Rightarrow> suite_cases L v K fs casesDir entries (report\<lparr>vs_Cases := vs_Cases report @ [c]\<rparr>))"

definition validate_suite :: "schema_lib \<Rightarrow> schema \<Rightarrow> os \<Rightarrow> files \<Rightarrow> string \<Rightarrow> go_error + vsuite_report" where
  "validate_suite L v K fs suiteDir =
     (let report = \<lparr>vs_Name = Base suiteDir, vs_Path = suiteDir, vs_Cases = []\<rparr>;
          casesDir = Join [suiteDir, ''cases''] in
      case ReadDir K casesDir fs of
        Inl e \<Rightarrow> Inl (wrap (msg [''read the cases dir '', sq casesDir]) (path_error ''open'' casesDir e))
      | Inr entries \<Rightarrow> suite_cases L v K fs casesDir entries report)"

section \<open>Discovery\<close>

definition isSuiteDir :: "os \<Rightarrow> files \<Rightarrow> string \<Rightarrow> bool" where
  "isSuiteDir K fs dir = (Stat K (Join [dir, ''cases'']) fs = Inr DirNode)"

definition findSuiteDirs :: "os \<Rightarrow> files \<Rightarrow> string \<Rightarrow> go_error + string list" where
  "findSuiteDirs K fs dir =
     (case Stat K dir fs of
        Inl e \<Rightarrow> Inl (wrap (msg [''check dir '', sq dir]) (path_error ''stat'' dir e))
      | Inr info \<Rightarrow>
          if info \<noteq> DirNode then Inl (Opaque (msg [sq dir, '' is not a directory'']))
          else if isSuiteDir K fs dir then Inr [dir]
          else (case ReadDir K dir fs of
            Inl e \<Rightarrow> Inl (wrap (msg [''read dir '', sq dir]) (path_error ''open'' dir e))
          | Inr entries \<Rightarrow>
              let dirs = filter (isSuiteDir K fs) (map (\<lambda>d. Join [dir, fst d])
                    (filter (\<lambda>d. snd d = DirNode \<and> \<not> prefix ''.'' (fst d)) entries)) in
              if dirs = [] then Inl (Wrapped [] (Sentinel ErrNoSuites) (msg ['' in '', sq dir])) else Inr dirs))"

fun validate_suites :: "schema_lib \<Rightarrow> schema \<Rightarrow> os \<Rightarrow> files \<Rightarrow> string list \<Rightarrow> vreport \<Rightarrow> go_error + vreport" where
  "validate_suites L v K fs [] report = Inr report"
| "validate_suites L v K fs (suiteDir # dirs) report =
     (case validate_suite L v K fs suiteDir of
        Inl e \<Rightarrow> Inl e
      | Inr r \<Rightarrow> validate_suites L v K fs dirs (report\<lparr>vr_Suites := vr_Suites report @ [r]\<rparr>))"

definition validate_Dir :: "schema_lib \<Rightarrow> schema \<Rightarrow> os \<Rightarrow> files \<Rightarrow> string \<Rightarrow> go_error + vreport" where
  "validate_Dir L v K fs dir =
     (case findSuiteDirs K fs dir of
        Inl e \<Rightarrow> Inl e
      | Inr dirs \<Rightarrow> validate_suites L v K fs dirs \<lparr>vr_Dir = dir, vr_Suites = []\<rparr>)"

section \<open>Pointers can be read back\<close>

text \<open>RFC 6901: the tokens after the slashes, with the escapes undone.\<close>

fun unescape :: "string \<Rightarrow> string" where
  "unescape [] = []"
| "unescape [c] = [c]"
| "unescape (c # d # cs) =
     (if c = CHR ''~'' \<and> d = CHR ''0'' then CHR ''~'' # unescape cs
      else if c = CHR ''~'' \<and> d = CHR ''1'' then slash # unescape cs
      else c # unescape (d # cs))"

definition parse_pointer :: "string \<Rightarrow> string list" where
  "parse_pointer p = map unescape (tl (split_on slash p))"

lemma escape_no_slash: "slash \<notin> set (pointerEscaper t)"
  by (auto simp: pointerEscaper_def escape_char_def split: if_splits)

lemma unescape_escape: "unescape (pointerEscaper t) = t"
proof (induction t)
  case Nil
  show ?case by (simp add: pointerEscaper_def)
next
  case (Cons c t)
  have plain: "unescape (c # s) = c # unescape s" if "c \<noteq> CHR ''~''" for s
    using that by (cases s) simp_all
  have "pointerEscaper (c # t) = escape_char c @ pointerEscaper t" by (simp add: pointerEscaper_def)
  then show ?case using Cons plain by (auto simp: escape_char_def)
qed

lemma split_tokens:
  "\<forall>x \<in> set xs. slash \<notin> set x \<Longrightarrow> split_on slash (concat (map (\<lambda>x. slash # x) xs)) = [] # xs"
proof (induction xs)
  case (Cons x xs)
  have "split_on slash (x @ concat (map (\<lambda>x. slash # x) xs)) = x # xs"
  proof (cases xs)
    case Nil
    then show ?thesis using split_join [of "[x]" slash] Cons.prems by simp
  next
    case (Cons y ys)
    then show ?thesis using Cons.IH Cons.prems split_on_append [of slash x] split_join [of "[x]" slash] by simp
  qed
  then show ?case by simp
qed simp

lemma pointer_parse: "location \<noteq> [] \<Longrightarrow> parse_pointer (pointer location) = location"
  using split_tokens [of "map pointerEscaper location"] escape_no_slash
  by (simp add: parse_pointer_def pointer_def unescape_escape comp_def)

section \<open>Problems\<close>

text \<open>The nodes a violation is reported at: leaves, and nodes whose causes are about another instance.\<close>

fun reported :: "violation \<Rightarrow> string \<Rightarrow> (violation \<times> string) list" where
  "reported (Violation loc m causes) location =
     (if reRoots (Violation loc m causes) then [(Violation loc m causes, location)]
      else if causes = [] then [(Violation loc m causes, pointer loc)]
      else concat (map (\<lambda>cause. reported cause (pointer loc)) causes))"

lemma foldl_append: "(\<And>x into. x \<in> set xs \<Longrightarrow> f into x = into @ g x) \<Longrightarrow> foldl f into xs = into @ concat (map g xs)"
  by (induction xs arbitrary: into) simp_all

lemma collect_reported:
  "collect_problems v location into = into @ map (\<lambda>(w, p). newProblem w p) (reported v location)"
proof (induction v location into rule: collect_problems.induct)
  case (1 loc m causes location into)
  show ?case
  proof (cases "reRoots (Violation loc m causes) \<or> causes = []")
    case False
    then have "foldl (\<lambda>into cause. collect_problems cause (pointer loc) into) into causes =
        into @ concat (map (\<lambda>cause. map (\<lambda>(w, p). newProblem w p) (reported cause (pointer loc))) causes)"
      using 1 by (intro foldl_append) auto
    then show ?thesis using False by (simp add: map_concat comp_def)
  qed auto
qed

lemma reported_nonempty: "reported v location \<noteq> []"
proof (induction v location rule: reported.induct)
  case (1 loc m causes location)
  then show ?case by (cases causes) auto
qed

lemma problems_nonempty: "problems err \<noteq> []"
  by (cases err) (simp_all add: problems_def collect_reported reported_nonempty)

text \<open>
  The nodes a reader of the violation gets to, going to the causes of a node unless they are about
  another instance, each with the location of the node it is reached from.
\<close>

inductive reaches :: "violation \<Rightarrow> string \<Rightarrow> violation \<Rightarrow> string \<Rightarrow> bool" where
  here: "reaches v p v p"
| down: "\<not> reRoots v \<Longrightarrow> c \<in> set (v_causes v) \<Longrightarrow> reaches c (pointer (v_location v)) w q \<Longrightarrow> reaches v p w q"

inductive_simps reaches_iff: "reaches v p w q"

definition problem_at :: "violation \<Rightarrow> string \<Rightarrow> problem" where
  "problem_at w p = newProblem w (if reRoots w then p else pointer (v_location w))"

lemma reported_reached:
  "set (map (\<lambda>(w, p). newProblem w p) (reported v location)) =
     {problem_at w p |w p. reaches v location w p \<and> (v_causes w = [] \<or> reRoots w)}"
proof (induction v location rule: reported.induct)
  case (1 loc m causes location)
  let ?v = "Violation loc m causes"
  consider (root) "reRoots ?v" | (leaf) "\<not> reRoots ?v" "causes = []" | (inner) "\<not> reRoots ?v" "causes \<noteq> []" by blast
  then show ?case
  proof cases
    case root
    then have "reaches ?v location w p \<longleftrightarrow> w = ?v \<and> p = location" for w p by (subst reaches_iff) auto
    then show ?thesis using root by (auto simp: problem_at_def)
  next
    case leaf
    then have "reaches ?v location w p \<longleftrightarrow> w = ?v \<and> p = location" for w p by (subst reaches_iff) auto
    then show ?thesis using leaf by (auto simp: problem_at_def)
  next
    case inner
    have r: "reaches ?v location w p \<longleftrightarrow> w = ?v \<and> p = location \<or> (\<exists>c \<in> set causes. reaches c (pointer loc) w p)" for w p
      using inner by (subst reaches_iff) auto
    have "set (map (\<lambda>(w, p). newProblem w p) (reported ?v location)) =
        (\<Union>c \<in> set causes. set (map (\<lambda>(w, p). newProblem w p) (reported c (pointer loc))))"
      using inner by auto
    also have "\<dots> = (\<Union>c \<in> set causes. {problem_at w p |w p. reaches c (pointer loc) w p \<and> (v_causes w = [] \<or> reRoots w)})"
      using 1 inner by simp
    also have "\<dots> = {problem_at w p |w p. reaches ?v location w p \<and> (v_causes w = [] \<or> reRoots w)}"
      using inner by (auto simp: r)
    finally show ?thesis .
  qed
qed

section \<open>Totals\<close>

lemma Totals_count:
  "Totals r = (length (concat (map vs_Cases (vr_Suites r))),
     length (filter (\<lambda>c. \<not> case_Valid c) (concat (map vs_Cases (vr_Suites r)))))"
proof -
  have inner: "foldl count_case (a, b) cs = (a + length cs, b + length (filter (\<lambda>c. \<not> case_Valid c) cs))" for a b cs
    by (induction cs arbitrary: a b) auto
  have "foldl (\<lambda>acc suite. foldl count_case acc (vs_Cases suite)) (a, b) ss =
      (a + length (concat (map vs_Cases ss)), b + length (filter (\<lambda>c. \<not> case_Valid c) (concat (map vs_Cases ss))))"
    for a b and ss :: "vsuite_report list"
    by (induction ss arbitrary: a b) (simp_all add: inner)
  then show ?thesis by (simp add: Totals_def)
qed

section \<open>Verdicts\<close>

text \<open>A case file is accepted when it can be read and decoded and the schema has nothing against it.\<close>

definition accepted :: "schema_lib \<Rightarrow> schema \<Rightarrow> os \<Rightarrow> files \<Rightarrow> string \<Rightarrow> bool" where
  "accepted L v K fs path =
     (case ReadFile K path fs of
        Inl e \<Rightarrow> False
      | Inr content \<Rightarrow> (case decode L content of Inl e \<Rightarrow> False | Inr doc \<Rightarrow> v doc = None))"

lemma File_verdict:
  "File L v K path fs = Inr c \<Longrightarrow> vc_Path c = path \<and> (case_Valid c \<longleftrightarrow> accepted L v K fs path)"
  using problems_nonempty by (auto simp: File_def accepted_def case_Valid_def Let_def split: sum.splits option.splits)

lemma File_readable: "(\<exists>c. File L v K path fs = Inr c) \<longleftrightarrow> (\<exists>content. ReadFile K path fs = Inr content)"
  by (auto simp: File_def Let_def split: sum.splits option.splits)

definition case_paths :: "os \<Rightarrow> files \<Rightarrow> string \<Rightarrow> string list" where
  "case_paths K fs suiteDir =
     (let casesDir = Join [suiteDir, ''cases''] in
      case ReadDir K casesDir fs of
        Inl e \<Rightarrow> []
      | Inr entries \<Rightarrow> map (\<lambda>d. Join [casesDir, fst d]) (filter is_case_entry entries))"

lemma suite_cases_verdict:
  assumes "suite_cases L v K fs casesDir entries report = Inr r"
  shows "vs_Path r = vs_Path report \<and> vs_Name r = vs_Name report \<and>
    (\<exists>cs. vs_Cases r = vs_Cases report @ cs \<and>
       map vc_Path cs = map (\<lambda>d. Join [casesDir, fst d]) (filter is_case_entry entries) \<and>
       (\<forall>c \<in> set cs. case_Valid c \<longleftrightarrow> accepted L v K fs (vc_Path c)))"
  using assms
proof (induction entries arbitrary: report)
  case Nil
  then show ?case by simp
next
  case (Cons d entries)
  show ?case
  proof (cases "is_case_entry d")
    case False
    then show ?thesis using Cons by simp
  next
    case True
    then obtain c where f: "File L v K (Join [casesDir, fst d]) fs = Inr c"
      and rest: "suite_cases L v K fs casesDir entries (report\<lparr>vs_Cases := vs_Cases report @ [c]\<rparr>) = Inr r"
      using Cons.prems by (auto split: sum.splits)
    from Cons.IH [OF rest] obtain cs where "vs_Cases r = (vs_Cases report @ [c]) @ cs"
      "map vc_Path cs = map (\<lambda>d. Join [casesDir, fst d]) (filter is_case_entry entries)"
      "\<forall>c \<in> set cs. case_Valid c \<longleftrightarrow> accepted L v K fs (vc_Path c)" and "vs_Path r = vs_Path report" "vs_Name r = vs_Name report"
      by auto
    then show ?thesis using File_verdict [OF f] True by (auto intro!: exI [of _ "c # cs"])
  qed
qed

lemma validate_suite_verdict:
  assumes "validate_suite L v K fs d = Inr r"
  shows "vs_Path r = d \<and> vs_Name r = Base d \<and> map vc_Path (vs_Cases r) = case_paths K fs d \<and>
    (\<forall>c \<in> set (vs_Cases r). case_Valid c \<longleftrightarrow> accepted L v K fs (vc_Path c))"
proof -
  from assms obtain entries where "ReadDir K (Join [d, ''cases'']) fs = Inr entries"
    and "suite_cases L v K fs (Join [d, ''cases'']) entries \<lparr>vs_Name = Base d, vs_Path = d, vs_Cases = []\<rparr> = Inr r"
    by (auto simp: validate_suite_def Let_def split: sum.splits)
  with suite_cases_verdict [OF this(2)] show ?thesis by (simp add: case_paths_def)
qed

lemma validate_suites_verdict:
  assumes "validate_suites L v K fs dirs report = Inr r"
  shows "vr_Dir r = vr_Dir report \<and>
    (\<exists>ss. vr_Suites r = vr_Suites report @ ss \<and> list_all2 (\<lambda>d s. validate_suite L v K fs d = Inr s) dirs ss)"
  using assms
proof (induction dirs arbitrary: report)
  case (Cons d dirs)
  then obtain s where s: "validate_suite L v K fs d = Inr s"
    and "validate_suites L v K fs dirs (report\<lparr>vr_Suites := vr_Suites report @ [s]\<rparr>) = Inr r"
    by (auto split: sum.splits)
  from Cons.IH [OF this(2)] obtain ss where "vr_Suites r = vr_Suites report @ s # ss"
    "list_all2 (\<lambda>d s. validate_suite L v K fs d = Inr s) dirs ss" "vr_Dir r = vr_Dir report" by auto
  then show ?case using s by (intro conjI exI [of _ "s # ss"]) simp_all
qed simp

lemma validate_Dir_verdict:
  assumes "validate_Dir L v K fs dir = Inr r"
  shows "\<exists>dirs. findSuiteDirs K fs dir = Inr dirs \<and> map vs_Path (vr_Suites r) = dirs \<and>
    map vc_Path (concat (map vs_Cases (vr_Suites r))) = concat (map (case_paths K fs) dirs) \<and>
    (report_Valid r \<longleftrightarrow> (\<forall>p \<in> set (concat (map (case_paths K fs) dirs)). accepted L v K fs p))"
proof -
  from assms obtain dirs where dirs: "findSuiteDirs K fs dir = Inr dirs"
    and v: "validate_suites L v K fs dirs \<lparr>vr_Dir = dir, vr_Suites = []\<rparr> = Inr r"
    by (auto simp: validate_Dir_def split: sum.splits)
  from validate_suites_verdict [OF v] have all: "list_all2 (\<lambda>d s. validate_suite L v K fs d = Inr s) dirs (vr_Suites r)" by simp
  then have p: "map vs_Path (vr_Suites r) = dirs"
    and c: "map vc_Path (concat (map vs_Cases (vr_Suites r))) = concat (map (case_paths K fs) dirs)"
    and ok: "\<forall>c \<in> set (concat (map vs_Cases (vr_Suites r))). case_Valid c \<longleftrightarrow> accepted L v K fs (vc_Path c)"
    by (induction rule: list_all2_induct) (auto dest!: validate_suite_verdict)
  have "report_Valid r \<longleftrightarrow> (\<forall>c \<in> set (concat (map vs_Cases (vr_Suites r))). accepted L v K fs (vc_Path c))"
    using ok by (auto simp: report_Valid_def Totals_count filter_empty_conv)
  also have "\<dots> \<longleftrightarrow> (\<forall>p \<in> set (map vc_Path (concat (map vs_Cases (vr_Suites r)))). accepted L v K fs p)" by simp
  finally show ?thesis using dirs p c by simp
qed

end
