(* ===== verification/Scaffold.thy ===== *)
theory Scaffold
  imports Validate Image_Layer
begin

text \<open>
  A starter suite (\<^verbatim>\<open>src/internal/scaffold\<close>): a new directory with a template and a case. The texts
  are those of \<^verbatim>\<open>content.go\<close>, line by line. The two files are kept in a Go map, whose order of
  iteration is the parameter \<open>order\<close>.
\<close>

section \<open>Texts\<close>

definition unlines :: "string list \<Rightarrow> string" where
  "unlines ls = concat (map (\<lambda>l. l @ [CHR 0x0A]) ls)"

definition CaseSchemaURL :: string where
  "CaseSchemaURL = ''https://raw.githubusercontent.com/ipaqsa/kube2e/main/schemas/case.schema.json''"

definition template_lines :: "string list" where
  "template_lines = [
    ''# Go template, rendered with Sprig functions before each step that uses it.'',
    ''# Available variables (reference them as {{ '' @ [CHR 0x22] @ ''{{ .name }}'' @ [CHR 0x22] @ '' }}):'',
    ''#   .name          the object's key from the case '' @ [CHR 0x22] @ ''objects'' @ [CHR 0x22] @ '' map'',
    ''#   .<key>         any key from an ensure step's '' @ [CHR 0x22] @ ''values'' @ [CHR 0x22],
    ''#   .Values.<key>  a value from the shared values store'',
    ''apiVersion: v1'',
    ''kind: ConfigMap'',
    ''metadata:'',
    ''  name: {{ .name }}'',
    ''  # labels:'',
    ''  #   app: {{ .name }}'',
    ''data:'',
    ''  env: {{ .env | default '' @ [CHR 0x22] @ ''development'' @ [CHR 0x22] @ '' | quote }}'']"

definition templateYAML :: string where
  "templateYAML = unlines template_lines"

definition case_lines :: "string list" where
  "case_lines = [
    ''# kube2e test case. The uncommented fields below run as-is; uncomment the'',
    ''# others to use them. Parsing is strict, so an unknown uncommented field errors.'',
    [],
    ''# version must be '' @ [CHR 0x22] @ ''v1'' @ [CHR 0x22] @ ''.'',
    ''version: v1'',
    ''name: example'',
    ''description: A starter case '' @ [CHR 0xE2] @ [CHR 0x80] @ [CHR 0x94] @ '' edit the steps below and uncomment options as needed.'',
    [],
    ''# tags filter which cases run: '' @ [CHR 0x22] @ ''kube2e run <dir> --tags smoke'' @ [CHR 0x22] @ ''.'',
    ''# A case is skipped unless one of its tags is requested.'',
    ''# tags:'',
    ''#   - smoke'',
    [],
    ''# objects maps a resource key to a template file in templates/ (without .yaml).'',
    ''# The key is injected into the template as {{ .name }} and used as the object name.'',
    ''objects:'',
    ''  app: configmap'',
    [],
    ''steps:'',
    ''  - name: create'',
    ''    # description: optional, shown in output'',
    ''    # optional: true            # report a failure as skipped and keep going'',
    ''    ensure:'',
    ''      object: app'',
    ''      values:'',
    ''        env: staging'',
    ''      # retry:'',
    ''      #   attempts: 3           # total tries (1 = no retry)'',
    ''      #   backoff: 2s'',
    ''      # delay: 1s               # wait before running the action'',
    ''      # timeout: 30s'',
    ''    assert:'',
    ''      target:'',
    ''        object: app'',
    ''      conditions:               # JQ expressions; all must be true'',
    ''        - .data.env == '' @ [CHR 0x22] @ ''staging'' @ [CHR 0x22],
    ''      # retry:'',
    ''      #   attempts: 5'',
    ''      #   backoff: 2s'',
    [],
    ''  # --------------------------------------------------------------------------'',
    ''  # A step runs its actions in this fixed order, skipping any that are absent:'',
    ''  #   ensure -> patch -> wait -> assert -> logs -> exec -> delete'',
    ''  # --------------------------------------------------------------------------'',
    [],
    ''  # - name: patch'',
    ''  #   patch:'',
    ''  #     target:'',
    ''  #       object: app'',
    ''  #     patches:'',
    ''  #       - op: add               # add | replace | remove | move | copy | test'',
    ''  #         path: /metadata/labels/tier'',
    ''  #         value: backend'',
    ''  #     # retry:'',
    ''  #     #   attempts: 3'',
    ''  #     #   backoff: 2s'',
    [],
    ''  # - name: wait'',
    ''  #   wait:'',
    ''  #     target:'',
    ''  #       object: app'',
    ''  #     conditions:'',
    ''  #       - .status.phase == '' @ [CHR 0x22] @ ''Running'' @ [CHR 0x22],
    ''  #     # interval: 2s'',
    ''  #     # timeout: 2m'',
    [],
    ''  # - name: logs'',
    ''  #   logs:'',
    ''  #     target:'',
    ''  #       object: app             # Pod, Deployment, ReplicaSet, or StatefulSet'',
    ''  #       # '' @ [CHR 0xE2] @ [CHR 0x80] @ [CHR 0x94] @ '' or select existing pods by label instead of a templated object:'',
    ''  #       # kind: Pod'',
    ''  #       # labelSelector: app=demo'',
    ''  #     contains: '' @ [CHR 0x22] @ ''started'' @ [CHR 0x22],
    ''  #     # container: app'',
    ''  #     # match: any              # any | all | none'',
    ''  #     # interval: 2s'',
    ''  #     # timeout: 2m'',
    [],
    ''  # - name: exec'',
    ''  #   exec:'',
    ''  #     target:'',
    ''  #       object: app             # '' @ [CHR 0xE2] @ [CHR 0x80] @ [CHR 0x94] @ '' or kind: Pod + labelSelector: app=demo'',
    ''  #     command: ['' @ [CHR 0x22] @ ''sh'' @ [CHR 0x22] @ '', '' @ [CHR 0x22] @ ''-c'' @ [CHR 0x22] @ '', '' @ [CHR 0x22] @ ''echo hello'' @ [CHR 0x22] @ '']'',
    ''  #     # container: app'',
    ''  #     # timeout: 30s'',
    ''  #     # retry:'',
    ''  #     #   attempts: 3'',
    ''  #     #   backoff: 2s'',
    [],
    ''  # - name: delete'',
    ''  #   delete:'',
    ''  #     target:'',
    ''  #       object: app'',
    ''  #     # wait: true              # block until the object is gone'',
    ''  #     # interval: 2s'',
    ''  #     # timeout: 2m'',
    [],
    ''# hooks run around every step in this case.'',
    ''# hooks:'',
    ''#   beforeEach:'',
    ''#     - name: reset'',
    ''#       delete:'',
    ''#         target:'',
    ''#           object: app'',
    ''#         wait: true'',
    ''#   afterEach:'',
    ''#     - name: verify'',
    ''#       assert:'',
    ''#         target:'',
    ''#           object: app'',
    ''#         conditions:'',
    ''#           - .metadata.name == '' @ [CHR 0x22] @ ''app'' @ [CHR 0x22]]"

definition caseYAML :: string where
  "caseYAML = unlines ((''# yaml-language-server: $schema='' @ CaseSchemaURL) # case_lines)"

section \<open>Creating a suite\<close>

record scaffold_config =
  sc_Dir :: string
  sc_Name :: string

fun make_dirs :: "os \<Rightarrow> string list \<Rightarrow> files \<Rightarrow> go_error option \<times> files" where
  "make_dirs K [] fs = (None, fs)"
| "make_dirs K (dir # dirs) fs =
     (case MkdirAll K dir fs of
        (Some e, fs') \<Rightarrow> (Some (wrap (msg [''create dir '', sq dir]) (mkdir_error e)), fs')
      | (None, fs') \<Rightarrow> make_dirs K dirs fs')"

fun write_files :: "os \<Rightarrow> (string \<times> string) list \<Rightarrow> files \<Rightarrow> go_error option \<times> files" where
  "write_files K [] fs = (None, fs)"
| "write_files K ((path, content) # rest) fs =
     (case WriteFile K path content fs of
        (Some e, fs') \<Rightarrow> (Some (wrap (msg [''write '', sq path]) e), fs')
      | (None, fs') \<Rightarrow> write_files K rest fs')"

definition Create :: "os \<Rightarrow> ((string \<times> string) list \<Rightarrow> (string \<times> string) list) \<Rightarrow> scaffold_config \<Rightarrow> files \<Rightarrow>
    (go_error + string) \<times> files" where
  "Create K order cfg fs =
     (if sc_Name cfg = [] then (Inl (Opaque ''suite name is required''), fs)
      else let suiteDir = Join [sc_Dir cfg, sc_Name cfg] in
      case Stat K suiteDir fs of
        Inr _ \<Rightarrow> (Inl (Opaque (msg [''suite directory '', sq suiteDir, '' already exists''])), fs)
      | Inl e \<Rightarrow>
          if e \<noteq> ENOENT then (Inl (wrap (msg [''stat suite dir '', sq suiteDir]) (path_error ''stat'' suiteDir e)), fs)
          else (case make_dirs K [Join [suiteDir, casesDirName], Join [suiteDir, templatesDirName]] fs of
            (Some err, fs') \<Rightarrow> (Inl err, fs')
          | (None, fs') \<Rightarrow>
              (case write_files K (order [(Join [suiteDir, templatesDirName, ''configmap.yaml''], templateYAML),
                                          (Join [suiteDir, casesDirName, ''example.yaml''], caseYAML)]) fs' of
                 (Some err, fs'') \<Rightarrow> (Inl err, fs'')
               | (None, fs'') \<Rightarrow> (Inr suiteDir, fs''))))"

section \<open>What a new suite holds\<close>

lemma starter_names [simp]: "name_ok ''configmap.yaml''" "name_ok ''example.yaml''"
  by (simp_all add: name_ok_def plain_def)

lemma dir_names_differ [simp]: "casesDirName \<noteq> templatesDirName" "templatesDirName \<noteq> casesDirName"
  by (simp_all add: casesDirName_def templatesDirName_def)

definition starter_tree :: "string list \<Rightarrow> files \<Rightarrow> string list \<Rightarrow> node option" where
  "starter_tree sd fs = (map_of fs)(sd \<mapsto> DirNode, sd @ [casesDirName] \<mapsto> DirNode, sd @ [templatesDirName] \<mapsto> DirNode,
     sd @ [templatesDirName, ''configmap.yaml''] \<mapsto> FileNode templateYAML,
     sd @ [casesDirName, ''example.yaml''] \<mapsto> FileNode caseYAML)"

lemma order_two:
  assumes "mset (order [a, b]) = mset [a, b]"
  shows "order [a, b] = [a, b] \<or> order [a, b] = [b, a]"
proof -
  from assms have "length (order [a, b]) = 2" by (metis length_Cons list.size(3) numeral_2_eq_2 size_mset)
  then obtain x y where xy: "order [a, b] = [x, y]" by (auto simp: length_Suc_conv numeral_2_eq_2)
  then have "{#x, y#} = {#a, b#}" using assms by simp
  then show ?thesis using xy by (auto simp: add_eq_conv_ex)
qed

context quiet_os
begin

lemma write_files_two:
  assumes "real_dir fs xs" and "list_all name_ok (xs @ [x])" and "map_of fs (xs @ [x]) = None"
    and "real_dir fs ys" and "list_all name_ok (ys @ [y])" and "map_of fs (ys @ [y]) = None" and "xs @ [x] \<noteq> ys @ [y]"
  shows "\<exists>fs'. write_files K [(abs_path (xs @ [x]), a), (abs_path (ys @ [y]), b)] fs = (None, fs') \<and>
    map_of fs' = (map_of fs)(xs @ [x] \<mapsto> FileNode a, ys @ [y] \<mapsto> FileNode b)"
proof -
  obtain fs1 where f1: "WriteFile K (abs_path (xs @ [x])) a fs = (None, fs1)" "map_of fs1 = (map_of fs)(xs @ [x] \<mapsto> FileNode a)"
    using WriteFile_child [OF assms(1-3), of a] by (cases "WriteFile K (abs_path (xs @ [x])) a fs") simp
  have "real_dir fs1 ys" using assms(3,4) f1(2) by (auto simp: real_dir_def)
  moreover have "map_of fs1 (ys @ [y]) = None" using assms(6,7) f1(2) by auto
  ultimately obtain fs2 where "WriteFile K (abs_path (ys @ [y])) b fs1 = (None, fs2)"
    "map_of fs2 = (map_of fs1)(ys @ [y] \<mapsto> FileNode b)"
    using WriteFile_child [of fs1 ys y b] assms(5) by (cases "WriteFile K (abs_path (ys @ [y])) b fs1") simp
  then show ?thesis using f1 by simp
qed

lemma make_dirs_fresh:
  assumes "list_all name_ok (ds @ [n])" and "real_dir fs ds" and "tree_ok fs" and "map_of fs (ds @ [n]) = None"
  shows "\<exists>fs'. make_dirs K [abs_path (ds @ [n, casesDirName]), abs_path (ds @ [n, templatesDirName])] fs = (None, fs') \<and>
    map_of fs' = (map_of fs)(ds @ [n] \<mapsto> DirNode, ds @ [n, casesDirName] \<mapsto> DirNode, ds @ [n, templatesDirName] \<mapsto> DirNode)"
proof -
  let ?sd = "ds @ [n]"
  define fs1 where "fs1 = put_node ?sd DirNode fs"
  define fs2 where "fs2 = put_node (?sd @ [casesDirName]) DirNode fs1"
  have none: "map_of fs (?sd @ q) = None" for q using tree_ok_below [OF assms(3,4)] by (simp add: prefix_def)
  have "map_of fs1 ?sd = Some DirNode" by (simp add: fs1_def)
  moreover have "real_dir fs1 ds" using assms(2,4) by (auto simp: fs1_def real_dir_def)
  ultimately have rd1: "real_dir fs1 ?sd" by (simp add: real_dir_snoc)
  have rd2: "real_dir fs2 ?sd" using rd1 none [of "[casesDirName]"] by (auto simp: fs2_def fs1_def real_dir_def)
  have "MkdirAll K (abs_path ?sd @ (if ?sd = [] then [] else [slash])) fs = (None, fs1)"
    using MkdirAll_child [OF assms(2,1,4), of "[slash]"] by (simp add: fs1_def)
  moreover have "stat_node K True (abs_path (?sd @ [casesDirName]) @ []) fs = Inl ENOENT"
  proof -
    have "walk fs True maxlinks [] (ds @ [n, casesDirName]) = Inl ENOENT"
      using walk_real [of fs "[]" ds True maxlinks "[n, casesDirName]"] walk_name(1) [of n fs ds] assms by simp
    then show ?thesis using assms(1) locate_abs(1) [of "ds @ [n, casesDirName]"] by (simp add: stat_node_def)
  qed
  ultimately have m1: "MkdirAll K (abs_path (?sd @ [casesDirName])) fs = (None, fs2)"
    using MkdirAll_new [of ?sd casesDirName "[]" fs ENOENT fs1] assms(1) rd1 none [of "[casesDirName]"]
    by (simp add: fs2_def fs1_def)
  have m2: "MkdirAll K (abs_path (?sd @ [templatesDirName])) fs2 = (None, put_node (?sd @ [templatesDirName]) DirNode fs2)"
    using MkdirAll_child [OF rd2, of templatesDirName "[]"] assms(1) none [of "[templatesDirName]"]
    by (simp add: fs2_def fs1_def)
  show ?thesis using m1 m2 by (simp add: fs2_def fs1_def)
qed

lemma Create_fresh:
  assumes "list_all name_ok (ds @ [n])" and "real_dir fs ds" and "tree_ok fs" and "map_of fs (ds @ [n]) = None"
    and "\<And>xs. mset (order xs) = mset xs"
  shows "\<exists>fs'. Create K order \<lparr>sc_Dir = abs_path ds, sc_Name = n\<rparr> fs = (Inr (abs_path (ds @ [n])), fs') \<and>
    map_of fs' = starter_tree (ds @ [n]) fs"
proof -
  let ?sd = "ds @ [n]"
  have j: "Join [abs_path ds, n] = abs_path ?sd" "Join [abs_path ?sd, casesDirName] = abs_path (ds @ [n, casesDirName])"
    "Join [abs_path ?sd, templatesDirName] = abs_path (ds @ [n, templatesDirName])"
    "Join [abs_path ?sd, templatesDirName, ''configmap.yaml''] = abs_path ((?sd @ [templatesDirName]) @ [''configmap.yaml''])"
    "Join [abs_path ?sd, casesDirName, ''example.yaml''] = abs_path ((?sd @ [casesDirName]) @ [''example.yaml''])"
    using Join_name [of ds n] Join_name [of ?sd] Join_names2 [of ?sd] assms(1) by simp_all
  have st: "Stat K (abs_path ?sd) fs = Inl ENOENT"
    using stat_missing [OF assms(2,1,4), of "[]" True] by (simp add: stat_quiet)
  obtain fs1 where mk: "make_dirs K [abs_path (ds @ [n, casesDirName]), abs_path (ds @ [n, templatesDirName])] fs = (None, fs1)"
    and m1: "map_of fs1 = (map_of fs)(ds @ [n] \<mapsto> DirNode, ds @ [n, casesDirName] \<mapsto> DirNode, ds @ [n, templatesDirName] \<mapsto> DirNode)"
    using make_dirs_fresh [OF assms(1-4)] by blast
  have none: "map_of fs (?sd @ q) = None" for q using tree_ok_below [OF assms(3,4)] by (simp add: prefix_def)
  have "real_dir fs1 ds" using assms(2,4) none [of "[casesDirName]"] none [of "[templatesDirName]"] by (auto simp: m1 real_dir_def)
  then have rd: "real_dir fs1 (?sd @ [casesDirName])" "real_dir fs1 (?sd @ [templatesDirName])"
    using real_dir_snoc [of fs1 ?sd] real_dir_snoc [of fs1 ds n] by (simp_all add: m1)
  have free: "map_of fs1 (?sd @ [templatesDirName, ''configmap.yaml'']) = None" "map_of fs1 (?sd @ [casesDirName, ''example.yaml'']) = None"
    using none [of "[templatesDirName, ''configmap.yaml'']"] none [of "[casesDirName, ''example.yaml'']"] by (simp_all add: m1)
  let ?t = "(abs_path ((?sd @ [templatesDirName]) @ [''configmap.yaml'']), templateYAML)"
    and ?c = "(abs_path ((?sd @ [casesDirName]) @ [''example.yaml'']), caseYAML)"
  have two: "\<exists>fs'. write_files K [?t, ?c] fs1 = (None, fs') \<and> map_of fs' = starter_tree ?sd fs"
    "\<exists>fs'. write_files K [?c, ?t] fs1 = (None, fs') \<and> map_of fs' = starter_tree ?sd fs"
    using write_files_two [OF rd(2) _ _ rd(1), of "''configmap.yaml''" "''example.yaml''" templateYAML caseYAML]
      write_files_two [OF rd(1) _ _ rd(2), of "''example.yaml''" "''configmap.yaml''" caseYAML templateYAML] free assms(1)
    by (auto simp: m1 starter_tree_def fun_upd_twist)
  from order_two [of order ?t ?c] assms(5) have "order [?t, ?c] = [?t, ?c] \<or> order [?t, ?c] = [?c, ?t]" by blast
  then show ?thesis
    using two mk st assms(1) by (auto simp: Create_def Let_def j)
qed


text \<open>The new suite is found by validation, and its case file is the starter case.\<close>

lemma starter_children:
  assumes "map_of fs' = starter_tree sd fs" and "\<And>q. map_of fs (sd @ q) = None" and "sd \<noteq> []"
  shows "children fs' (sd @ [casesDirName]) = [''example.yaml'']"
proof -
  have "c \<in> set (children fs' (sd @ [casesDirName])) \<longleftrightarrow> c = ''example.yaml''" for c
    using assms(2) [of "[casesDirName, c]"] by (auto simp: children_iff assms(1) starter_tree_def)
  then have "set (children fs' (sd @ [casesDirName])) = {''example.yaml''}" by blast
  then show ?thesis
    using distinct_children [of fs' "sd @ [casesDirName]"]
    by (cases "children fs' (sd @ [casesDirName])") (auto simp: subset_singleton_iff)
qed

lemma starter_found:
  assumes "list_all name_ok sd" and "map_of fs' = starter_tree sd fs" and "\<And>q. map_of fs (sd @ q) = None"
    and "sd = ds @ [n]" and "real_dir fs ds"
  shows "findSuiteDirs K fs' (abs_path sd) = Inr [abs_path sd]"
    and "case_paths K fs' (abs_path sd) = [abs_path (sd @ [casesDirName, ''example.yaml''])]"
    and "ReadFile K (abs_path (sd @ [casesDirName, ''example.yaml''])) fs' = Inr caseYAML"
    and "ReadFile K (abs_path (sd @ [templatesDirName, ''configmap.yaml''])) fs' = Inr templateYAML"
proof -
  have "real_dir fs' ds" using assms(3) [of "[]"] assms(3) [of "[casesDirName]"] assms(3) [of "[templatesDirName]"]
      assms(3) [of "[casesDirName, ''example.yaml'']"] assms(3) [of "[templatesDirName, ''configmap.yaml'']"] assms(4,5)
    by (auto simp: real_dir_def assms(2) starter_tree_def)
  then have "real_dir fs' sd" using assms(4) by (simp add: real_dir_snoc assms(2) starter_tree_def)
  then have rd: "real_dir fs' sd" "real_dir fs' (sd @ [casesDirName])" "real_dir fs' (sd @ [templatesDirName])"
    using real_dir_snoc [of fs' sd] by (simp_all add: assms(2) starter_tree_def)
  have j: "Join [abs_path sd, ''cases''] = abs_path (sd @ [casesDirName])"
    using Join_name [OF assms(1) layer_names(1)] by (simp add: casesDirName_def)
  have st: "Stat K (abs_path sd) fs' = Inr DirNode" "Stat K (abs_path (sd @ [casesDirName])) fs' = Inr DirNode"
    using stat_dir [OF rd(1), of "[]" True] stat_dir [OF rd(2), of "[]" True] assms(1) by (simp_all add: stat_quiet)
  show "findSuiteDirs K fs' (abs_path sd) = Inr [abs_path sd]"
    using st by (simp add: findSuiteDirs_def isSuiteDir_def j)
  have kids: "ReadDir K (abs_path (sd @ [casesDirName])) fs' = Inr [(''example.yaml'', FileNode caseYAML)]"
    using ReadDir_real [OF rd(2)] assms(1) starter_children [OF assms(2,3)] assms(4)
    by (simp add: assms(2) starter_tree_def)
  have "is_case_entry (''example.yaml'', FileNode caseYAML)"
    by (simp add: is_case_entry_def Ext_def after_slash_def caseExt_def)
  moreover have "Join [abs_path (sd @ [casesDirName]), ''example.yaml''] = abs_path (sd @ [casesDirName, ''example.yaml''])"
    using Join_name [of "sd @ [casesDirName]" "''example.yaml''"] assms(1) by simp
  ultimately show "case_paths K fs' (abs_path sd) = [abs_path (sd @ [casesDirName, ''example.yaml''])]"
    using kids by (simp add: case_paths_def Let_def j)
  show "ReadFile K (abs_path (sd @ [casesDirName, ''example.yaml''])) fs' = Inr caseYAML"
    using ReadFile_child [OF rd(2), of "''example.yaml''" caseYAML] assms(1) by (simp add: assms(2) starter_tree_def)
  show "ReadFile K (abs_path (sd @ [templatesDirName, ''configmap.yaml''])) fs' = Inr templateYAML"
    using ReadFile_child [OF rd(3), of "''configmap.yaml''" templateYAML] assms(1) by (simp add: assms(2) starter_tree_def)
qed

end

end
