(* ===== verification/Logger.thy ===== *)
theory Logger
  imports Prelude
begin

text \<open>
  The logger (\<^verbatim>\<open>src/internal/tools/logs/logger.go\<close>): its options, the two handlers, the level filter
  and the line the text handler writes. Coloring and the JSON encoder are parameters. A writer is
  the list of chunks written to it so far; one call of \<^verbatim>\<open>Write\<close> adds one chunk, and the lock the
  handlers share makes the calls one after another.
\<close>

section \<open>Levels and options\<close>

type_synonym level = int

definition LevelDebug :: level where "LevelDebug = -4"
definition LevelInfo :: level where "LevelInfo = 0"
definition LevelWarn :: level where "LevelWarn = 4"
definition LevelError :: level where "LevelError = 8"

type_synonym log_format = string

definition FormatText :: log_format where
  "FormatText = ''text''"

definition FormatJSON :: log_format where
  "FormatJSON = ''json''"

record log_options =
  lg_verbose :: bool
  lg_format :: log_format

definition WithVerbose :: "bool \<Rightarrow> log_options \<Rightarrow> log_options" where
  "WithVerbose v opts = opts\<lparr>lg_verbose := v\<rparr>"

definition WithFormat :: "log_format \<Rightarrow> log_options \<Rightarrow> log_options" where
  "WithFormat f opts = opts\<lparr>lg_format := f\<rparr>"

section \<open>Handlers\<close>

text \<open>An attribute with its value as \<^verbatim>\<open>%v\<close> prints it.\<close>

type_synonym attr = "string \<times> string"

record log_record =
  lr_level :: level
  lr_message :: string
  lr_attrs :: "attr list"

record text_handler =
  th_verbose :: bool
  th_attrs :: "attr list"

record verbosity_handler =
  vh_verbose :: bool
  vh_scope :: "(attr list + string) list"

datatype handler = Text text_handler | Verbosity verbosity_handler

definition newTextHandler :: "bool \<Rightarrow> text_handler" where
  "newTextHandler verbose = \<lparr>th_verbose = verbose, th_attrs = []\<rparr>"

definition New_logger :: "(log_options \<Rightarrow> log_options) list \<Rightarrow> handler" where
  "New_logger opts =
     (let o' = foldl (\<lambda>o' opt. opt o') \<lparr>lg_verbose = False, lg_format = FormatText\<rparr> opts in
      if lg_format o' = FormatJSON
      then Verbosity \<lparr>vh_verbose = lg_verbose o', vh_scope = []\<rparr>
      else Text (newTextHandler (lg_verbose o')))"

definition text_Enabled :: "text_handler \<Rightarrow> level \<Rightarrow> bool" where
  "text_Enabled h level =
     (if \<not> th_verbose h \<and> (level = LevelDebug \<or> level = LevelWarn) then False else LevelDebug \<le> level)"

text \<open>The JSON handler below the filter is built with the debug level.\<close>

definition verbosity_Enabled :: "verbosity_handler \<Rightarrow> level \<Rightarrow> bool" where
  "verbosity_Enabled h level =
     (if \<not> vh_verbose h \<and> (level = LevelDebug \<or> level = LevelWarn) then False else LevelDebug \<le> level)"

fun Enabled :: "handler \<Rightarrow> level \<Rightarrow> bool" where
  "Enabled (Text h) level = text_Enabled h level"
| "Enabled (Verbosity h) level = verbosity_Enabled h level"

fun WithAttrs :: "handler \<Rightarrow> attr list \<Rightarrow> handler" where
  "WithAttrs (Text h) attrs = Text (h\<lparr>th_attrs := th_attrs h @ attrs\<rparr>)"
| "WithAttrs (Verbosity h) attrs = Verbosity (h\<lparr>vh_scope := vh_scope h @ [Inl attrs]\<rparr>)"

fun WithGroup :: "handler \<Rightarrow> string \<Rightarrow> handler" where
  "WithGroup (Text h) g = Text h"
| "WithGroup (Verbosity h) g = Verbosity (h\<lparr>vh_scope := vh_scope h @ [Inr g]\<rparr>)"

section \<open>Lines\<close>

datatype color = InfoColor | WarnColor | ErrorColor | DebugColor | AttrColor

definition glyphInfo :: string where "glyphInfo = [CHR 0xE2, CHR 0x97, CHR 0x8F]"
definition glyphWarn :: string where "glyphWarn = [CHR 0xE2, CHR 0x9A, CHR 0xA0]"
definition glyphError :: string where "glyphError = [CHR 0xE2, CHR 0x9C, CHR 0x97]"
definition glyphDebug :: string where "glyphDebug = [CHR 0xC2, CHR 0xB7]"

definition levelStyle :: "level \<Rightarrow> string \<times> color" where
  "levelStyle level =
     (if level = LevelWarn then (glyphWarn, WarnColor)
      else if level = LevelError then (glyphError, ErrorColor)
      else if level = LevelDebug then (glyphDebug, DebugColor)
      else (glyphInfo, InfoColor))"

text \<open>Upper-casing of the first letter, for texts that start with an ASCII character.\<close>

definition upper_char :: "char \<Rightarrow> char" where
  "upper_char c = (if of_char c \<in> {97..122 :: nat} then char_of (of_char c - 32 :: nat) else c)"

definition capitalize :: "string \<Rightarrow> string" where
  "capitalize s = (case s of [] \<Rightarrow> [] | c # cs \<Rightarrow> upper_char c # cs)"

definition show_attr :: "attr \<Rightarrow> string" where
  "show_attr a = fst a @ ''='' @ snd a"

definition text_line :: "(color \<Rightarrow> string \<Rightarrow> string) \<Rightarrow> text_handler \<Rightarrow> log_record \<Rightarrow> string" where
  "text_line paint h r =
     (case levelStyle (lr_level r) of
        (glyph, col) \<Rightarrow>
          let head = paint col (glyph @ '' '' @ capitalize (lr_message r));
              parts = map show_attr (th_attrs h) @ map show_attr (lr_attrs r) in
          head @ (if 0 < length parts then ''  '' @ paint AttrColor (join ''  '' parts) else []) @ [CHR 0x0A])"

text \<open>\<open>fails\<close> says whether the next write fails, given what has been written.\<close>

definition text_Handle :: "(string list \<Rightarrow> go_error option) \<Rightarrow> (color \<Rightarrow> string \<Rightarrow> string) \<Rightarrow> text_handler \<Rightarrow> log_record \<Rightarrow>
    string list \<Rightarrow> go_error option \<times> string list" where
  "text_Handle fails paint h r out =
     (case fails out of Some e \<Rightarrow> (Some e, out) | None \<Rightarrow> (None, out @ [text_line paint h r]))"

fun Handle :: "(string list \<Rightarrow> go_error option) \<Rightarrow> (color \<Rightarrow> string \<Rightarrow> string) \<Rightarrow> ((attr list + string) list \<Rightarrow> log_record \<Rightarrow> string) \<Rightarrow>
    handler \<Rightarrow> log_record \<Rightarrow> string list \<Rightarrow> go_error option \<times> string list" where
  "Handle fails paint encode (Text h) r out = text_Handle fails paint h r out"
| "Handle fails paint encode (Verbosity h) r out =
     (case fails out of Some e \<Rightarrow> (Some e, out) | None \<Rightarrow> (None, out @ [encode (vh_scope h) r]))"

text \<open>\<^verbatim>\<open>slog.Logger\<close> hands a record to its handler when the level is enabled; the error is dropped.\<close>

definition log :: "(string list \<Rightarrow> go_error option) \<Rightarrow> (color \<Rightarrow> string \<Rightarrow> string) \<Rightarrow> ((attr list + string) list \<Rightarrow> log_record \<Rightarrow> string) \<Rightarrow>
    handler \<Rightarrow> log_record \<Rightarrow> string list \<Rightarrow> string list" where
  "log fails paint encode h r out =
     (if Enabled h (lr_level r) then snd (Handle fails paint encode h r out) else out)"

section \<open>Both formats show the same records\<close>

fun handler_verbose :: "handler \<Rightarrow> bool" where
  "handler_verbose (Text h) = th_verbose h"
| "handler_verbose (Verbosity h) = vh_verbose h"

fun handler_attrs :: "handler \<Rightarrow> attr list" where
  "handler_attrs (Text h) = th_attrs h"
| "handler_attrs (Verbosity h) = concat (map (case_sum id (\<lambda>g. [])) (vh_scope h))"

definition shown :: "bool \<Rightarrow> level \<Rightarrow> bool" where
  "shown verbose l = (LevelDebug \<le> l \<and> (verbose \<or> l \<notin> {LevelDebug, LevelWarn}))"

lemma Enabled_shown: "Enabled h l = shown (handler_verbose h) l"
  by (cases h) (auto simp: text_Enabled_def verbosity_Enabled_def shown_def)

lemma derived [simp]:
  "handler_verbose (WithAttrs h as) = handler_verbose h" "handler_verbose (WithGroup h g) = handler_verbose h"
  "handler_attrs (WithAttrs h as) = handler_attrs h @ as" "handler_attrs (WithGroup h g) = handler_attrs h"
  by (cases h; simp)+

lemma New_logger_verbose:
  "handler_verbose (New_logger opts) = lg_verbose (foldl (\<lambda>o' opt. opt o') \<lparr>lg_verbose = False, lg_format = FormatText\<rparr> opts)"
  by (simp add: New_logger_def Let_def newTextHandler_def)

lemma log_adds_one_line:
  assumes "\<And>out. fails out = None"
  shows "\<exists>line. log fails paint encode h r out = (if shown (handler_verbose h) (lr_level r) then out @ [line] else out)"
  using assms by (cases h) (auto simp: log_def Enabled_shown text_Handle_def)

end
