(* ===== verification/Commands.thy ===== *)
theory Commands
  imports Engine_Remote Scaffold Logger
begin

text \<open>
  The functions that run a command (\<^verbatim>\<open>src/pkg/command\<close>, \<^verbatim>\<open>src/internal/version\<close>) and the printing of
  validation reports. The commands themselves and their flags are in \<open>Command_Tree\<close>.

  Flag parsing and configuration lookup belong to the cobra and viper libraries, the kubeconfig
  loader to the Kubernetes client, and marshalling of reports to the YAML library: they are the
  record \<open>cli\<close>. A command gets the text written to its output so far and adds to it; \<open>cl_write\<close>
  says whether the next write fails. Logging is left out.
\<close>

record cli =
  cl_string :: "string \<Rightarrow> string"
  cl_bool :: "string \<Rightarrow> bool"
  cl_int :: "string \<Rightarrow> int"
  cl_getenv :: "string \<Rightarrow> string"
  cl_rest :: "string option \<Rightarrow> go_error + (env \<times> (string \<Rightarrow> env))"
  cl_yaml :: "engine_report \<Rightarrow> go_error + string"
  cl_write :: "string \<Rightarrow> go_error option"

definition emit :: "cli \<Rightarrow> string \<Rightarrow> string \<Rightarrow> go_error option \<times> string" where
  "emit C text out = (case cl_write C out of Some e \<Rightarrow> (Some e, out) | None \<Rightarrow> (None, out @ text))"

section \<open>Flags\<close>

text \<open>The names of the flags of \<^verbatim>\<open>run\<close>.\<close>

definition tagsFlag :: string where "tagsFlag = ''tags''"
definition namespaceFlag :: string where "namespaceFlag = ''namespace''"
definition run_namespaceDefault :: string where "run_namespaceDefault = ''default''"
definition forceConflictsFlag :: string where "forceConflictsFlag = ''force-conflicts''"
definition parallelFlag :: string where "parallelFlag = ''parallel''"
definition remoteFlag :: string where "remoteFlag = ''remote''"
definition remoteUserFlag :: string where "remoteUserFlag = ''remote-user''"
definition remotePasswordFlag :: string where "remotePasswordFlag = ''remote-password''"
definition dryRunFlag :: string where "dryRunFlag = ''dry-run''"
definition reportFileFlag :: string where "reportFileFlag = ''report-file''"

section \<open>run\<close>

definition splitTags :: "string \<Rightarrow> string list" where
  "splitTags value = filter (\<lambda>t. t \<noteq> []) (map trim_space (split_on (CHR '','') value))"

definition buildRestConfig :: "cli \<Rightarrow> string \<Rightarrow> go_error + (env \<times> (string \<Rightarrow> env))" where
  "buildRestConfig C kubeconfigPath =
     (case cl_rest C (if kubeconfigPath \<noteq> [] then Some kubeconfigPath else None) of
        Inl e \<Rightarrow> Inl (wrap ''load kubeconfig'' e)
      | Inr cfg \<Rightarrow> Inr cfg)"

definition writeReport :: "cli \<Rightarrow> os \<Rightarrow> string \<Rightarrow> engine_report \<Rightarrow> files \<Rightarrow> go_error option \<times> files" where
  "writeReport C K path report fs =
     (case cl_yaml C report of
        Inl e \<Rightarrow> (Some (wrap ''marshal report'' e), fs)
      | Inr content \<Rightarrow>
          (case MkdirAll K (Dir path) fs of
             (Some e, fs') \<Rightarrow> (Some (wrap ''create report dir'' (mkdir_error e)), fs')
           | (None, fs') \<Rightarrow>
               (case WriteFile K path content fs' of
                  (Some e, fs'') \<Rightarrow> (Some (wrap ''write report'' e), fs'')
                | (None, fs'') \<Rightarrow> (None, fs''))))"

definition run_config :: "cli \<Rightarrow> string \<Rightarrow> engine_config" where
  "run_config C workDir = \<lparr>ec_WorkDir = workDir, ec_Tags = splitTags (cl_string C tagsFlag),
     ec_Namespace = cl_string C namespaceFlag, ec_ForceConflicts = cl_bool C forceConflictsFlag,
     ec_Parallel = cl_int C parallelFlag,
     ec_Remote = \<lparr>rm_Ref = cl_string C remoteFlag, rm_Username = cl_string C remoteUserFlag, rm_Password = cl_string C remotePasswordFlag\<rparr>,
     ec_DryRun = cl_bool C dryRunFlag\<rparr>"

text \<open>
  Without a cluster configuration (a dry run) the environment is \<open>E\<close> and \<open>W\<close>: the clock, and no
  cluster that is asked anything.
\<close>

definition run_run :: "cli \<Rightarrow> registry \<Rightarrow> os \<Rightarrow> glob_fun \<Rightarrow> env \<Rightarrow> (string \<Rightarrow> env) \<Rightarrow> suite_io \<Rightarrow> (string, suite_maps) group_fun \<Rightarrow>
    string \<Rightarrow> ev list \<times> files \<Rightarrow> go_error option \<times> ev list \<times> files" where
  "run_run C G K glob E W base grp workDir = (\<lambda>(tr, fs).
     case (if \<not> cl_bool C dryRunFlag then buildRestConfig C (cl_string C ''kubeconfig'') else Inr (E, W)) of
       Inl e \<Rightarrow> (Some (wrap ''build rest config'' e), tr, fs)
     | Inr (E', W') \<Rightarrow>
         (case RunTests G K glob E' W' base grp RunCtx (run_config C workDir) (tr, fs) of
            ((report, runErr), tr', fs') \<Rightarrow>
              let reportFile = cl_string C reportFileFlag in
              if reportFile \<noteq> [] then
                (case writeReport C K reportFile report fs' of
                   (Some e, fs'') \<Rightarrow> (errors_join [runErr, Some (wrap ''write report file'' e)], tr', fs'')
                 | (None, fs'') \<Rightarrow> (runErr, tr', fs''))
              else (runErr, tr', fs')))"

section \<open>tests add\<close>

definition run_add :: "cli \<Rightarrow> os \<Rightarrow> ((string \<times> string) list \<Rightarrow> (string \<times> string) list) \<Rightarrow> string \<Rightarrow> string \<Rightarrow>
    string \<times> files \<Rightarrow> go_error option \<times> string \<times> files" where
  "run_add C K order dir arg = (\<lambda>(out, fs).
     case Create K order \<lparr>sc_Dir = dir, sc_Name = arg\<rparr> fs of
       (Inl e, fs') \<Rightarrow> (Some (wrap ''add test suite'' e), out, fs')
     | (Inr path, fs') \<Rightarrow>
         (case emit C (msg [''created test suite '', go_quote path, [CHR 0x0A]]) out of
            (Some e, out') \<Rightarrow> (Some (wrap ''write output'' e), out', fs')
          | (None, out') \<Rightarrow> (None, out', fs')))"

section \<open>tests publish\<close>

definition remoteEnv :: string where "remoteEnv = ''KUBE2E_TESTS_PUBLISH_REMOTE''"
definition remoteUserEnv :: string where "remoteUserEnv = ''KUBE2E_TESTS_PUBLISH_REMOTE_USER''"
definition remotePasswordEnv :: string where "remotePasswordEnv = ''KUBE2E_TESTS_PUBLISH_REMOTE_PASSWORD''"
definition digestFileEnv :: string where "digestFileEnv = ''KUBE2E_TESTS_PUBLISH_DIGEST_FILE''"

definition valueOrEnv :: "cli \<Rightarrow> string \<Rightarrow> string \<Rightarrow> string" where
  "valueOrEnv C value e = (if value \<noteq> [] then value else cl_getenv C e)"

definition writeDigest :: "os \<Rightarrow> string \<Rightarrow> string \<Rightarrow> files \<Rightarrow> go_error option \<times> files" where
  "writeDigest K path digest fs =
     (case (if Dir path \<noteq> ''.'' then MkdirAll K (Dir path) fs else (None, fs)) of
        (Some e, fs') \<Rightarrow> (Some (wrap ''create digest dir'' (mkdir_error e)), fs')
      | (None, fs') \<Rightarrow>
          (case WriteFile K path (digest @ [CHR 0x0A]) fs' of
             (Some e, fs'') \<Rightarrow> (Some (wrap ''write digest'' e), fs'')
           | (None, fs'') \<Rightarrow> (None, fs'')))"

record publish_flags =
  pf_remote :: string
  pf_remoteUser :: string
  pf_remotePassword :: string
  pf_digestFile :: string

definition publish_remote :: "cli \<Rightarrow> publish_flags \<Rightarrow> image_remote" where
  "publish_remote C F = \<lparr>ir_Ref = valueOrEnv C (pf_remote F) remoteEnv, ir_Username = valueOrEnv C (pf_remoteUser F) remoteUserEnv,
     ir_Password = valueOrEnv C (pf_remotePassword F) remotePasswordEnv\<rparr>"

definition run_publish :: "cli \<Rightarrow> registry \<Rightarrow> os \<Rightarrow> tar_writer \<Rightarrow> publish_flags \<Rightarrow> string \<Rightarrow> files \<Rightarrow>
    go_error option \<times> push_request list \<times> files" where
  "run_publish C G K T F path fs =
     (let r = publish_remote C F in
      if ir_Ref r = [] then (Some (Opaque (msg [''remote image is required: set --remote or '', remoteEnv])), [], fs)
      else case Build G K T RunCtx r path fs of
        ((Inl e, sent), fs') \<Rightarrow> (Some (wrap ''publish tests image'' e), sent, fs')
      | ((Inr digest, sent), fs') \<Rightarrow>
          let p = valueOrEnv C (pf_digestFile F) digestFileEnv in
          if p \<noteq> [] then
            (case writeDigest K p digest fs' of
               (Some e, fs'') \<Rightarrow> (Some (wrap ''write digest file'' e), sent, fs'')
             | (None, fs'') \<Rightarrow> (None, sent, fs''))
          else (None, sent, fs'))"

section \<open>tests validate\<close>

definition okMark :: string where "okMark = ''ok  ''"
definition failMark :: string where "failMark = ''FAIL''"

definition relative :: "string \<Rightarrow> string \<Rightarrow> string" where
  "relative base path = (case Rel base path of Inl e \<Rightarrow> path | Inr rel \<Rightarrow> rel)"

fun emit_problems :: "cli \<Rightarrow> problem list \<Rightarrow> string \<Rightarrow> go_error option \<times> string" where
  "emit_problems C [] out = (None, out)"
| "emit_problems C (p # ps) out =
     (case emit C (msg [''       '', pb_Pointer p, '': '', pb_Message p, [CHR 0x0A]]) out of
        (Some e, out') \<Rightarrow> (Some e, out')
      | (None, out') \<Rightarrow> emit_problems C ps out')"

definition printCase :: "cli \<Rightarrow> string \<Rightarrow> vcase_report \<Rightarrow> string \<Rightarrow> go_error option \<times> string" where
  "printCase C suiteDir report out =
     (let mark = (if \<not> case_Valid report then failMark else okMark) in
      case emit C (msg [''  '', mark, '' '', relative suiteDir (vc_Path report), [CHR 0x0A]]) out of
        (Some e, out') \<Rightarrow> (Some e, out')
      | (None, out') \<Rightarrow> emit_problems C (vc_Problems report) out')"

fun emit_cases :: "cli \<Rightarrow> string \<Rightarrow> vcase_report list \<Rightarrow> string \<Rightarrow> go_error option \<times> string" where
  "emit_cases C suiteDir [] out = (None, out)"
| "emit_cases C suiteDir (c # cs) out =
     (case printCase C suiteDir c out of
        (Some e, out') \<Rightarrow> (Some e, out')
      | (None, out') \<Rightarrow> emit_cases C suiteDir cs out')"

fun emit_suites :: "cli \<Rightarrow> vsuite_report list \<Rightarrow> string \<Rightarrow> go_error option \<times> string" where
  "emit_suites C [] out = (None, out)"
| "emit_suites C (s # ss) out =
     (case emit C (msg [vs_Path s, [CHR 0x0A]]) out of
        (Some e, out') \<Rightarrow> (Some e, out')
      | (None, out') \<Rightarrow>
          (case emit_cases C (vs_Path s) (vs_Cases s) out' of
             (Some e, out'') \<Rightarrow> (Some e, out'')
           | (None, out'') \<Rightarrow> emit_suites C ss out''))"

definition printReport :: "cli \<Rightarrow> vreport \<Rightarrow> string \<Rightarrow> go_error option \<times> string" where
  "printReport C report out =
     (case emit_suites C (vr_Suites report) out of
        (Some e, out') \<Rightarrow> (Some e, out')
      | (None, out') \<Rightarrow>
          (case Totals report of
             (n, invalid) \<Rightarrow>
               emit C (msg [[CHR 0x0A], dec n, '' case files checked, '', dec invalid, '' invalid'', [CHR 0x0A]]) out'))"

definition run_validate :: "cli \<Rightarrow> schema_lib \<Rightarrow> string \<Rightarrow> os \<Rightarrow> files \<Rightarrow> string \<Rightarrow> string \<Rightarrow> go_error option \<times> string" where
  "run_validate C L caseSchema K fs dir out =
     (case New_validator L caseSchema of
        Inl e \<Rightarrow> (Some (wrap ''create validator'' e), out)
      | Inr v \<Rightarrow>
          (case validate_Dir L v K fs dir of
             Inl e \<Rightarrow> (Some (wrap ''validate tests'' e), out)
           | Inr report \<Rightarrow>
               (case printReport C report out of
                  (Some e, out') \<Rightarrow> (Some (wrap ''write output'' e), out')
                | (None, out') \<Rightarrow>
                    (case Totals report of
                       (n, invalid) \<Rightarrow>
                         (if 0 < invalid then Some (Opaque (msg [dec invalid, '' of '', dec n, '' case files are invalid''])) else None, out')))))"

section \<open>version and main\<close>

record version_info =
  vi_Version :: string
  vi_GoVersion :: string
  vi_Platform :: string
  vi_Arch :: string

text \<open>The build sets the version; the toolchain gives the rest.\<close>

definition version_Get :: "string \<Rightarrow> string \<Rightarrow> string \<Rightarrow> string \<Rightarrow> version_info" where
  "version_Get v goVersion goos goarch = \<lparr>vi_Version = v, vi_GoVersion = goVersion, vi_Platform = goos, vi_Arch = goarch\<rparr>"

definition version_String :: "version_info \<Rightarrow> string" where
  "version_String i = msg [''kube2e version '', vi_Version i, '' '', vi_Platform i, ''/'', vi_Arch i, '' (built with '', vi_GoVersion i, '')'']"

definition run_version :: "cli \<Rightarrow> string \<Rightarrow> string \<Rightarrow> string \<Rightarrow> string \<Rightarrow> string \<Rightarrow> go_error option \<times> string" where
  "run_version C v goVersion goos goarch out =
     (case emit C (version_String (version_Get v goVersion goos goarch) @ [CHR 0x0A]) out of
        (Some e, out') \<Rightarrow> (Some (wrap ''write version'' e), out')
      | (None, out') \<Rightarrow> (None, out'))"

text \<open>The exit code of the process.\<close>

definition main :: "go_error option \<Rightarrow> int" where
  "main err = (if err \<noteq> None then 1 else 0)"

section \<open>Tags\<close>

definition tag_ok :: "string \<Rightarrow> bool" where
  "tag_ok t = (t \<noteq> [] \<and> CHR '','' \<notin> set t \<and> trim_space t = t)"

lemma trim_space_set: "set (trim_space s) \<subseteq> set s"
  unfolding trim_space_def by (metis set_dropWhileD set_rev subsetI)

lemma trim_space_ends: "trim_space s = [] \<or> \<not> is_space (hd (trim_space s)) \<and> \<not> is_space (last (trim_space s))"
proof (cases "trim_space s = []")
  case False
  let ?d = "dropWhile is_space s"
  have ne: "dropWhile is_space (rev ?d) \<noteq> []" using False by (simp add: trim_space_def)
  have "\<not> is_space (hd (dropWhile is_space (rev ?d)))" using hd_dropWhile [OF ne] .
  then have l: "\<not> is_space (last (trim_space s))" using ne by (simp add: trim_space_def last_rev)
  obtain w where w: "rev ?d = w @ dropWhile is_space (rev ?d)" by (metis takeWhile_dropWhile_id)
  then have eq: "?d = trim_space s @ rev w" by (metis rev_append rev_rev_ident trim_space_def)
  then have "?d \<noteq> []" using False by auto
  then have "\<not> is_space (hd ?d)" by (rule hd_dropWhile)
  then have "\<not> is_space (hd (trim_space s))" using eq False by (metis hd_append2)
  with l show ?thesis by blast
qed simp

lemma trim_space_idem [simp]: "trim_space (trim_space s) = trim_space s"
proof (cases "trim_space s = []")
  case False
  with trim_space_ends [of s] have h: "\<not> is_space (hd (trim_space s))" and l: "\<not> is_space (last (trim_space s))" by simp_all
  then have "dropWhile is_space (trim_space s) = trim_space s" by (cases "trim_space s") simp_all
  moreover have "dropWhile is_space (rev (trim_space s)) = rev (trim_space s)"
    using l False by (cases "trim_space s" rule: rev_cases) simp_all
  ultimately show ?thesis by (simp add: trim_space_def [of "trim_space s"])
next
  case True
  show ?thesis unfolding True by (simp add: trim_space_def)
qed

lemma splitTags_ok: "list_all tag_ok (splitTags v)"
  using trim_space_set by (fastforce simp: splitTags_def list_all_iff tag_ok_def dest: split_on_no_sep)

lemma splitTags_join:
  assumes "list_all tag_ok tags"
  shows "splitTags (join '','' tags) = tags"
proof (cases "tags = []")
  case False
  then have "split_on (CHR '','') (join '','' tags) = tags"
    using assms by (intro split_join) (auto simp: list_all_iff tag_ok_def)
  moreover have "map trim_space tags = tags" using assms by (intro map_idI) (auto simp: list_all_iff tag_ok_def)
  moreover have "filter (\<lambda>t. t \<noteq> []) tags = tags" using assms by (auto simp: list_all_iff tag_ok_def intro!: filter_True)
  ultimately show ?thesis by (simp add: splitTags_def)
qed (simp add: splitTags_def trim_space_def)

section \<open>Printed reports\<close>

text \<open>What a report looks like, as a function of the report alone.\<close>

definition problem_text :: "problem \<Rightarrow> string" where
  "problem_text p = msg [''       '', pb_Pointer p, '': '', pb_Message p, [CHR 0x0A]]"

definition case_text :: "string \<Rightarrow> vcase_report \<Rightarrow> string" where
  "case_text suiteDir c = msg [''  '', if case_Valid c then okMark else failMark, '' '', relative suiteDir (vc_Path c), [CHR 0x0A]] @
     concat (map problem_text (vc_Problems c))"

definition suite_text :: "vsuite_report \<Rightarrow> string" where
  "suite_text s = vs_Path s @ [CHR 0x0A] @ concat (map (case_text (vs_Path s)) (vs_Cases s))"

definition report_text :: "vreport \<Rightarrow> string" where
  "report_text r = concat (map suite_text (vr_Suites r)) @
     msg [[CHR 0x0A], dec (fst (Totals r)), '' case files checked, '', dec (snd (Totals r)), '' invalid'', [CHR 0x0A]]"

lemma emit_quiet [simp]: "cl_write C = (\<lambda>_. None) \<Longrightarrow> emit C text out = (None, out @ text)"
  by (simp add: emit_def)

lemma printReport_text:
  assumes "cl_write C = (\<lambda>_. None)"
  shows "printReport C r out = (None, out @ report_text r)"
proof -
  have p: "emit_problems C ps out = (None, out @ concat (map problem_text ps))" for ps out
    using assms by (induction ps arbitrary: out) (simp_all add: problem_text_def)
  have c: "emit_cases C d cs out = (None, out @ concat (map (case_text d) cs))" for d cs out
    using assms p by (induction cs arbitrary: out) (simp_all add: printCase_def case_text_def Let_def)
  have s: "emit_suites C ss out = (None, out @ concat (map suite_text ss))" for ss out
    using assms c by (induction ss arbitrary: out) (simp_all add: suite_text_def msg_def)
  show ?thesis using assms s by (simp add: printReport_def report_text_def split: prod.splits)
qed

section \<open>Exit codes\<close>

lemma run_validate_ok:
  assumes "cl_write C = (\<lambda>_. None)" and "New_validator L caseSchema = Inr v" and "validate_Dir L v K fs dir = Inr r"
  shows "snd (run_validate C L caseSchema K fs dir out) = out @ report_text r"
    and "fst (run_validate C L caseSchema K fs dir out) = None \<longleftrightarrow> report_Valid r"
  using assms by (auto simp: run_validate_def printReport_text report_Valid_def split: prod.splits)

end
