(* ===== verification/Command_Tree.thy ===== *)
theory Command_Tree
  imports Commands
begin

text \<open>
  The commands and their flags (\<^verbatim>\<open>src/pkg/command\<close>, \<^verbatim>\<open>src/cmd/kube2e\<close>): one constructor per
  command, the binding of flags to the configuration registry, and the execution of the command
  the arguments select.

  The cobra, pflag and viper libraries are parameters. A constructor returns its command and the
  registry of viper, which is global in the code. The long help texts and the examples are left out.
\<close>

section \<open>Commands and flags\<close>

datatype flag_value = StringFlag string | BoolFlag bool | IntFlag int

record flag =
  fl_Name :: string
  fl_Shorthand :: string
  fl_Usage :: string
  fl_Changed :: bool
  fl_Value :: flag_value

datatype args_rule = AnyArgs | NoArgs | ExactArgs nat

datatype runner = RunRun | RunAdd | RunPublish | RunValidate | RunVersion

text \<open>The fields of a cobra command; the flags and the persistent flags, in the order they are added.\<close>

datatype command = Command
  (c_Use: string) (c_Short: string) (c_Version: string) (c_Args: args_rule) (c_SilenceUsage: bool) (c_RunE: "runner option")
  (c_Flags: "flag list") (c_Persistent: "flag list") (c_Subs: "command list")

fun add_flag :: "string \<Rightarrow> string \<Rightarrow> flag_value \<Rightarrow> string \<Rightarrow> command \<Rightarrow> command" where
  "add_flag name short def usage (Command u s v a q r fs ps subs) = Command u s v a q r
     (fs @ [\<lparr>fl_Name = name, fl_Shorthand = short, fl_Usage = usage, fl_Changed = False, fl_Value = def\<rparr>]) ps subs"

fun add_persistent :: "string \<Rightarrow> string \<Rightarrow> flag_value \<Rightarrow> string \<Rightarrow> command \<Rightarrow> command" where
  "add_persistent name short def usage (Command u s v a q r fs ps subs) = Command u s v a q r fs
     (ps @ [\<lparr>fl_Name = name, fl_Shorthand = short, fl_Usage = usage, fl_Changed = False, fl_Value = def\<rparr>]) subs"

fun AddCommand :: "command \<Rightarrow> command \<Rightarrow> command" where
  "AddCommand sub (Command u s v a q r fs ps subs) = Command u s v a q r fs ps (subs @ [sub])"

text \<open>A command goes by the first word of its usage line.\<close>

definition c_Name :: "command \<Rightarrow> string" where
  "c_Name cmd = takeWhile (\<lambda>c. c \<noteq> CHR '' '') (c_Use cmd)"

definition find_flag :: "string \<Rightarrow> flag list \<Rightarrow> flag option" where
  "find_flag name fs = find (\<lambda>f. fl_Name f = name) fs"

text \<open>
  The registry: the flags bound to keys, each as the command it belongs to and its name, and how
  environment variables are named. Binding a flag that does not exist is an error, which the code
  ignores.
\<close>

record viper =
  vp_bound :: "(string \<times> string \<times> string) list"
  vp_envPrefix :: string
  vp_replacer :: "string \<times> string"
  vp_automaticEnv :: bool

definition viper_New :: viper where
  "viper_New = \<lparr>vp_bound = [], vp_envPrefix = [], vp_replacer = ([], []), vp_automaticEnv = False\<rparr>"

definition BindPFlag :: "string \<Rightarrow> command \<Rightarrow> flag option \<Rightarrow> viper \<Rightarrow> viper" where
  "BindPFlag key cmd f V = (case f of None \<Rightarrow> V | Some f \<Rightarrow> V\<lparr>vp_bound := AList.update key (c_Name cmd, fl_Name f) (vp_bound V)\<rparr>)"

section \<open>The constructors\<close>

definition run_flag :: "string \<Rightarrow> string \<Rightarrow> flag_value \<Rightarrow> string \<Rightarrow> command \<times> viper \<Rightarrow> command \<times> viper" where
  "run_flag name short def usage = (\<lambda>(cmd, V).
     let cmd = add_flag name short def usage cmd in (cmd, BindPFlag name cmd (find_flag name (c_Flags cmd)) V))"

definition NewRunCommand :: "viper \<Rightarrow> command \<times> viper" where
  "NewRunCommand V =
     (let s = (Command ''run <dir>'' ''Discover and run tests in a directory or image against a cluster'' []
                 (ExactArgs 1) True (Some RunRun) [] [] [], V);
          s = run_flag tagsFlag [] (StringFlag []) ''Comma-separated list of tags to run (default: all)'' s;
          s = run_flag namespaceFlag [] (StringFlag run_namespaceDefault) ''Namespace for namespaced test resources'' s;
          s = run_flag forceConflictsFlag [] (BoolFlag False) ''Force ownership of fields that conflict during Server-Side Apply'' s;
          s = run_flag parallelFlag ''n'' (IntFlag 1) ''Number of test suites to run concurrently'' s;
          s = run_flag remoteFlag [] (StringFlag []) ''Image with tests to run'' s;
          s = run_flag remoteUserFlag [] (StringFlag []) ''User for image for the remote registry'' s;
          s = run_flag remotePasswordFlag [] (StringFlag []) ''Password for the remote registry'' s;
          s = run_flag dryRunFlag [] (BoolFlag False) ''Run in dry run mode'' s;
          s = run_flag reportFileFlag [] (StringFlag []) ''Write a YAML execution report to this path'' s in
      s)"

definition NewAddCommand :: command where
  "NewAddCommand = add_flag ''dir'' ''C'' (StringFlag ''.'') ''Parent directory to create the suite in''
     (Command ''add <name>'' ''Scaffold a new test suite directory'' [] (ExactArgs 1) True (Some RunAdd) [] [] [])"

definition NewPublishCommand :: command where
  "NewPublishCommand =
     (let cmd = Command ''publish <dir>'' ''Package test suites into an image and push it'' [] (ExactArgs 1) True (Some RunPublish) [] [] [];
          cmd = add_flag ''remote'' [] (StringFlag []) ''Image reference to push (env: KUBE2E_TESTS_PUBLISH_REMOTE)'' cmd;
          cmd = add_flag ''remote-user'' [] (StringFlag []) ''Registry username (env: KUBE2E_TESTS_PUBLISH_REMOTE_USER)'' cmd;
          cmd = add_flag ''remote-password'' [] (StringFlag []) ''Registry password (env: KUBE2E_TESTS_PUBLISH_REMOTE_PASSWORD)'' cmd;
          cmd = add_flag ''digest-file'' [] (StringFlag []) ''Write the pushed image digest to this path (env: KUBE2E_TESTS_PUBLISH_DIGEST_FILE)'' cmd in
      cmd)"

definition NewValidateCommand :: command where
  "NewValidateCommand = Command ''validate <dir>'' ''Validate case files against the case schema'' [] (ExactArgs 1) True (Some RunValidate) [] [] []"

definition NewTestsCommand :: command where
  "NewTestsCommand =
     (let cmd = Command ''tests'' ''Manage kube2e test suites'' [] NoArgs False None [] [] [];
          cmd = AddCommand NewAddCommand cmd;
          cmd = AddCommand NewPublishCommand cmd;
          cmd = AddCommand NewValidateCommand cmd in
      cmd)"

definition NewVersionCommand :: command where
  "NewVersionCommand = Command ''version'' ''Print build information'' [] NoArgs False (Some RunVersion) [] [] []"

definition NewRootCommand :: "string \<Rightarrow> command \<times> viper" where
  "NewRootCommand version =
     (let cmd = Command ''kube2e'' ''YAML-driven end-to-end testing for Kubernetes'' version AnyArgs False None [] [] [];
          cmd = add_persistent ''kubeconfig'' [] (StringFlag []) ''Path to kubeconfig file ($KUBECONFIG or ~/.kube/config used when not set)'' cmd;
          cmd = add_persistent ''verbose'' ''v'' (BoolFlag False) ''Show debug and warning log messages (default: info and error only)'' cmd;
          cmd = add_persistent ''log-format'' [] (StringFlag ''text'') ''Log output format: \"text\" (colored) or \"json\" (env: KUBE2E_LOG_FORMAT)'' cmd;
          V = BindPFlag ''kubeconfig'' cmd (find_flag ''kubeconfig'' (c_Persistent cmd)) viper_New;
          V = BindPFlag ''verbose'' cmd (find_flag ''verbose'' (c_Persistent cmd)) V;
          V = BindPFlag ''log-format'' cmd (find_flag ''log-format'' (c_Persistent cmd)) V;
          V = V\<lparr>vp_envPrefix := ''KUBE2E'', vp_replacer := (''-'', ''_''), vp_automaticEnv := True\<rparr>;
          (run, V) = NewRunCommand V;
          cmd = AddCommand run cmd;
          cmd = AddCommand NewTestsCommand cmd;
          cmd = AddCommand NewVersionCommand cmd in
      (cmd, V))"

section \<open>Flag values\<close>

text \<open>\<^verbatim>\<open>strconv.ParseBool\<close>, and the text of a flag's value.\<close>

definition ParseBool :: "string \<Rightarrow> bool option" where
  "ParseBool s =
     (if s \<in> {''1'', ''t'', ''T'', ''true'', ''TRUE'', ''True''} then Some True
      else if s \<in> {''0'', ''f'', ''F'', ''false'', ''FALSE'', ''False''} then Some False
      else None)"

fun flag_text :: "flag_value \<Rightarrow> string" where
  "flag_text (StringFlag s) = s"
| "flag_text (BoolFlag b) = (if b then ''true'' else ''false'')"
| "flag_text (IntFlag i) = (if i < 0 then CHR ''-'' # dec (nat (- i)) else dec (nat i))"

text \<open>
  The flags of a run of the program, by command: the ones in the tree, some of them given a value
  on the command line.
\<close>

type_synonym flag_sets = "(string \<times> flag list) list"

fun flag_sets :: "command \<Rightarrow> flag_sets" where
  "flag_sets (Command u s v a q r fs ps subs) =
     (c_Name (Command u s v a q r fs ps subs), fs @ ps) # concat (map flag_sets subs)"

definition give :: "(string \<Rightarrow> flag_value option) \<Rightarrow> flag \<Rightarrow> flag" where
  "give given f = (case given (fl_Name f) of None \<Rightarrow> f | Some v \<Rightarrow> f\<lparr>fl_Changed := True, fl_Value := v\<rparr>)"

definition give_flags :: "(string \<Rightarrow> flag_value option) \<Rightarrow> string list \<Rightarrow> flag_sets \<Rightarrow> flag_sets" where
  "give_flags given cmds sets = map (\<lambda>(c, fs). (c, if c \<in> set cmds then map (give given) fs else fs)) sets"

definition bound_flag :: "viper \<Rightarrow> flag_sets \<Rightarrow> string \<Rightarrow> flag option" where
  "bound_flag V sets key =
     (case map_of (vp_bound V) key of
        None \<Rightarrow> None
      | Some (cmd, name) \<Rightarrow> (case map_of sets cmd of None \<Rightarrow> None | Some fs \<Rightarrow> find_flag name fs))"

section \<open>Reading the configuration\<close>

text \<open>
  What the code asks of the libraries: whether viper has a value for a key (\<open>lib_IsSet\<close>) and
  which text (\<open>lib_Get\<close>), the conversions of a text, and \<^verbatim>\<open>Set\<close> of a flag's value.
\<close>

type_synonym environ = "string \<Rightarrow> string"

record flag_lib =
  lib_IsSet :: "viper \<Rightarrow> flag_sets \<Rightarrow> environ \<Rightarrow> string \<Rightarrow> bool"
  lib_Get :: "viper \<Rightarrow> flag_sets \<Rightarrow> environ \<Rightarrow> string \<Rightarrow> string"
  lib_ToBool :: "string \<Rightarrow> bool"
  lib_ToInt :: "string \<Rightarrow> int"
  lib_Set :: "flag_value \<Rightarrow> string \<Rightarrow> flag_value option"

text \<open>
  \<^verbatim>\<open>bindFlags\<close> visits the flags of the executed command, its own and the persistent ones of the
  root. Setting one flag does not change what viper says of the name of another, so the visits
  are independent. A value that is refused is ignored.
\<close>

definition bind_flag :: "flag_lib \<Rightarrow> viper \<Rightarrow> environ \<Rightarrow> flag_sets \<Rightarrow> flag \<Rightarrow> flag" where
  "bind_flag L V ev sets f =
     (if \<not> fl_Changed f \<and> lib_IsSet L V sets ev (fl_Name f) then
        (case lib_Set L (fl_Value f) (lib_Get L V sets ev (fl_Name f)) of
           None \<Rightarrow> f
         | Some v \<Rightarrow> f\<lparr>fl_Value := v, fl_Changed := True\<rparr>)
      else f)"

definition bindFlags :: "flag_lib \<Rightarrow> viper \<Rightarrow> environ \<Rightarrow> string list \<Rightarrow> flag_sets \<Rightarrow> flag_sets" where
  "bindFlags L V ev cmds sets = map (\<lambda>(c, fs). (c, if c \<in> set cmds then map (bind_flag L V ev sets) fs else fs)) sets"

text \<open>The configuration a command reads through viper, and the variables of the publish and add commands.\<close>

definition viper_cli :: "flag_lib \<Rightarrow> viper \<Rightarrow> environ \<Rightarrow> flag_sets \<Rightarrow> cli \<Rightarrow> cli" where
  "viper_cli L V ev sets C = C\<lparr>cl_string := lib_Get L V sets ev,
     cl_bool := (\<lambda>key. lib_ToBool L (lib_Get L V sets ev key)),
     cl_int := (\<lambda>key. lib_ToInt L (lib_Get L V sets ev key)), cl_getenv := ev\<rparr>"

definition own_flag :: "flag_sets \<Rightarrow> string \<Rightarrow> string \<Rightarrow> string" where
  "own_flag sets cmd name =
     (case map_of sets cmd of
        None \<Rightarrow> []
      | Some fs \<Rightarrow> (case find_flag name fs of None \<Rightarrow> [] | Some f \<Rightarrow> flag_text (fl_Value f)))"

definition publish_vars :: "flag_sets \<Rightarrow> publish_flags" where
  "publish_vars sets = \<lparr>pf_remote = own_flag sets ''publish'' ''remote'', pf_remoteUser = own_flag sets ''publish'' ''remote-user'',
     pf_remotePassword = own_flag sets ''publish'' ''remote-password'', pf_digestFile = own_flag sets ''publish'' ''digest-file''\<rparr>"

section \<open>Execution\<close>

text \<open>What cobra makes of the arguments: the command, the flags given to it, its positional arguments.\<close>

record invocation =
  in_runner :: runner
  in_given :: "string \<Rightarrow> flag_value option"
  in_args :: "string list"

fun runner_name :: "runner \<Rightarrow> string" where
  "runner_name RunRun = ''run''"
| "runner_name RunAdd = ''add''"
| "runner_name RunPublish = ''publish''"
| "runner_name RunValidate = ''validate''"
| "runner_name RunVersion = ''version''"

text \<open>Everything outside the program that a command uses.\<close>

record world =
  wo_cli :: cli
  wo_registry :: registry
  wo_os :: os
  wo_glob :: glob_fun
  wo_env :: env
  wo_envs :: "string \<Rightarrow> env"
  wo_io :: suite_io
  wo_group :: "(string, suite_maps) group_fun"
  wo_order :: "(string \<times> string) list \<Rightarrow> (string \<times> string) list"
  wo_tar :: tar_writer
  wo_schemas :: schema_lib
  wo_schema :: string
  wo_build :: "string \<times> string \<times> string \<times> string"

text \<open>The text printed, the history of the cluster, the pushes to the registry, the file tree.\<close>

type_synonym process_state = "string \<times> ev list \<times> push_request list \<times> files"

fun run_command :: "world \<Rightarrow> cli \<Rightarrow> flag_sets \<Rightarrow> runner \<Rightarrow> string list \<Rightarrow> process_state \<Rightarrow> go_error option \<times> process_state" where
  "run_command w C sets RunRun args (out, tr, pr, fs) =
     (case run_run C (wo_registry w) (wo_os w) (wo_glob w) (wo_env w) (wo_envs w) (wo_io w) (wo_group w) (args ! 0) (tr, fs) of
        (err, tr', fs') \<Rightarrow> (err, out, tr', pr, fs'))"
| "run_command w C sets RunAdd args (out, tr, pr, fs) =
     (case run_add C (wo_os w) (wo_order w) (own_flag sets ''add'' ''dir'') (args ! 0) (out, fs) of
        (err, out', fs') \<Rightarrow> (err, out', tr, pr, fs'))"
| "run_command w C sets RunPublish args (out, tr, pr, fs) =
     (case run_publish C (wo_registry w) (wo_os w) (wo_tar w) (publish_vars sets) (args ! 0) fs of
        (err, sent, fs') \<Rightarrow> (err, out, tr, pr @ sent, fs'))"
| "run_command w C sets RunValidate args (out, tr, pr, fs) =
     (case run_validate C (wo_schemas w) (wo_schema w) (wo_os w) fs (args ! 0) out of
        (err, out') \<Rightarrow> (err, out', tr, pr, fs))"
| "run_command w C sets RunVersion args (out, tr, pr, fs) =
     (case wo_build w of (v, goVersion, goos, goarch) \<Rightarrow>
        (case run_version C v goVersion goos goarch out of (err, out') \<Rightarrow> (err, out', tr, pr, fs)))"

definition build_version :: "world \<Rightarrow> string" where
  "build_version w = (case wo_build w of (v, goVersion, goos, goarch) \<Rightarrow> version_String (version_Get v goVersion goos goarch))"

text \<open>
  \<^verbatim>\<open>ExecuteContext\<close> on the root command: arguments cobra rejects are an error of its own, and it
  answers a request for help itself; otherwise the persistent pre-run binds the flags and the
  command runs.
\<close>

definition execute :: "(command \<Rightarrow> string list \<Rightarrow> go_error option + invocation) \<Rightarrow> flag_lib \<Rightarrow> environ \<Rightarrow> world \<Rightarrow> string list \<Rightarrow>
    process_state \<Rightarrow> go_error option \<times> process_state" where
  "execute cobra L ev w argv s =
     (let (root, V) = NewRootCommand (build_version w) in
      case cobra root argv of
        Inl answer \<Rightarrow> (answer, s)
      | Inr call \<Rightarrow>
          let cmds = [''kube2e'', runner_name (in_runner call)];
              sets = bindFlags L V ev cmds (give_flags (in_given call) cmds (flag_sets root)) in
          run_command w (viper_cli L V ev sets (wo_cli w)) sets (in_runner call) (in_args call) s)"

section \<open>The contract of the libraries\<close>

definition env_name :: "viper \<Rightarrow> string \<Rightarrow> string" where
  "env_name V key = replace_all (fst (vp_replacer V)) (snd (vp_replacer V)) (map upper_char (vp_envPrefix V @ ''_'' @ key))"

text \<open>
  As documented: viper prefers a flag that was given, then a variable of the environment that is not
  empty, then the default of the flag, and for \<^verbatim>\<open>IsSet\<close> the last does not count. A text flag takes any
  text, a flag of type bool what \<^verbatim>\<open>ParseBool\<close> reads, and the conversion to bool is false for all
  other texts. Conversion to int reads what a flag prints.
\<close>

definition int64 :: "int \<Rightarrow> bool" where
  "int64 i = (- (2 ^ 63) \<le> i \<and> i < 2 ^ 63)"

locale flag_library =
  fixes L :: flag_lib
  assumes is_set: "vp_automaticEnv V \<Longrightarrow> lib_IsSet L V sets ev key \<longleftrightarrow>
      (\<exists>f. bound_flag V sets key = Some f \<and> fl_Changed f) \<or> ev (env_name V key) \<noteq> []"
    and get_given: "bound_flag V sets key = Some f \<Longrightarrow> fl_Changed f \<Longrightarrow> lib_Get L V sets ev key = flag_text (fl_Value f)"
    and get_env: "vp_automaticEnv V \<Longrightarrow> \<not> (\<exists>f. bound_flag V sets key = Some f \<and> fl_Changed f) \<Longrightarrow>
      ev (env_name V key) \<noteq> [] \<Longrightarrow> lib_Get L V sets ev key = ev (env_name V key)"
    and get_default: "bound_flag V sets key = Some f \<Longrightarrow> ev (env_name V key) = [] \<Longrightarrow>
      lib_Get L V sets ev key = flag_text (fl_Value f)"
    and set_text: "lib_Set L (StringFlag s) t = Some (StringFlag t)"
    and set_bool: "lib_Set L (BoolFlag b) t = map_option BoolFlag (ParseBool t)"
    and set_int: "lib_Set L (IntFlag i) t = Some v \<Longrightarrow> \<exists>j. v = IntFlag j \<and> int64 j"
    and to_bool: "lib_ToBool L t \<longleftrightarrow> ParseBool t = Some True"
    and to_int: "int64 i \<Longrightarrow> lib_ToInt L (flag_text (IntFlag i)) = i"

lemma ParseBool_text [simp]: "ParseBool (flag_text (BoolFlag b)) = Some b"
  by (simp add: ParseBool_def)

lemma ParseBool_empty [simp]: "ParseBool [] = None"
  by (simp add: ParseBool_def)

lemma bind_flag_name [simp]: "fl_Name (bind_flag L V ev sets f) = fl_Name f"
  by (simp add: bind_flag_def split: option.splits)

lemma give_name [simp]: "fl_Name (give given f) = fl_Name f"
  by (simp add: give_def split: option.splits)

lemma find_flag_map: "(\<And>f. fl_Name (g f) = fl_Name f) \<Longrightarrow> find_flag n (map g fs) = map_option g (find_flag n fs)"
  by (induction fs) (simp_all add: find_flag_def)

lemma map_of_update_sets:
  "map_of (map (\<lambda>(c, fs). (c, if c \<in> A then h fs else fs)) sets) c = map_option (\<lambda>fs. if c \<in> A then h fs else fs) (map_of sets c)"
  by (induction sets) auto

lemma map_of_bindFlags:
  "map_of (bindFlags L V ev cmds sets) c = map_option (\<lambda>fs. if c \<in> set cmds then map (bind_flag L V ev sets) fs else fs) (map_of sets c)"
  by (simp add: bindFlags_def map_of_update_sets)

text \<open>Binding a flag that is registered under its key changes what is registered.\<close>

lemma bound_flag_bind:
  assumes "map_of (vp_bound V) key = Some (c, n)" and "c \<in> set cmds"
  shows "bound_flag V (bindFlags L V ev cmds sets) key = map_option (bind_flag L V ev sets) (bound_flag V sets key)"
  using assms
  by (simp add: bound_flag_def map_of_bindFlags find_flag_map split: option.splits)

lemma bound_flag_give:
  assumes "map_of (vp_bound V) key = Some (c, n)" and "c \<in> set cmds"
  shows "bound_flag V (give_flags given cmds sets) key = map_option (give given) (bound_flag V sets key)"
  using assms
  by (simp add: bound_flag_def give_flags_def map_of_update_sets find_flag_map split: option.splits)

text \<open>
  What a setting resolves to, given the value on the command line, if any, the environment
  variable, and the default.
\<close>

definition text_setting :: "flag_value option \<Rightarrow> string \<Rightarrow> string \<Rightarrow> string" where
  "text_setting given variable def =
     (case given of Some v \<Rightarrow> flag_text v | None \<Rightarrow> if variable \<noteq> [] then variable else def)"

definition bool_setting :: "flag_value option \<Rightarrow> string \<Rightarrow> bool" where
  "bool_setting given variable = (case given of Some v \<Rightarrow> v = BoolFlag True | None \<Rightarrow> ParseBool variable = Some True)"

definition int_setting :: "flag_lib \<Rightarrow> flag_value option \<Rightarrow> string \<Rightarrow> int \<Rightarrow> int" where
  "int_setting L given variable def =
     (case given of
        Some (IntFlag i) \<Rightarrow> i
      | _ \<Rightarrow> if variable = [] then def
             else case lib_Set L (IntFlag def) variable of Some (IntFlag i) \<Rightarrow> i | _ \<Rightarrow> lib_ToInt L variable)"

text \<open>A key that is bound to an unset flag of its own name, before the command line is read.\<close>

definition registered :: "viper \<Rightarrow> flag_sets \<Rightarrow> string list \<Rightarrow> string \<Rightarrow> flag_value \<Rightarrow> bool" where
  "registered V sets cmds key def =
     ((case map_of (vp_bound V) key of None \<Rightarrow> False | Some (c, n) \<Rightarrow> c \<in> set cmds) \<and>
      (case bound_flag V sets key of
         None \<Rightarrow> False
       | Some f \<Rightarrow> fl_Name f = key \<and> \<not> fl_Changed f \<and> fl_Value f = def))"

lemma registeredE:
  assumes "registered V sets cmds key def"
  obtains f where "\<And>L ev given. bound_flag V (bindFlags L V ev cmds (give_flags given cmds sets)) key =
      Some (bind_flag L V ev (give_flags given cmds sets) (give given f))"
    and "\<And>given. bound_flag V (give_flags given cmds sets) key = Some (give given f)"
    and "fl_Name f = key" "\<not> fl_Changed f" "fl_Value f = def"
proof -
  from assms obtain c n f where k: "map_of (vp_bound V) key = Some (c, n)" "c \<in> set cmds"
    and f: "bound_flag V sets key = Some f" "fl_Name f = key" "\<not> fl_Changed f" "fl_Value f = def"
    by (auto simp: registered_def split: option.splits)
  show ?thesis
    by (rule that [of f]) (simp_all add: bound_flag_bind [OF k] bound_flag_give [OF k] f)
qed

context flag_library
begin

text \<open>After binding, a setting is the given value, the variable, or the default, whatever its type.\<close>

lemma get_bound:
  assumes V: "vp_automaticEnv V" and r: "registered V sets cmds key def"
  shows "lib_Get L V (bindFlags L V ev cmds (give_flags given cmds sets)) ev key =
    (case given key of
       Some v \<Rightarrow> flag_text v
     | None \<Rightarrow>
         if ev (env_name V key) = [] then flag_text def
         else case lib_Set L def (ev (env_name V key)) of
                Some v \<Rightarrow> flag_text v
              | None \<Rightarrow> ev (env_name V key))"
    (is "lib_Get L V ?s1 ev key = _")
proof -
  let ?s0 = "give_flags given cmds sets"
  from r obtain f where b1: "bound_flag V ?s1 key = Some (bind_flag L V ev ?s0 (give given f))"
    and b0: "bound_flag V ?s0 key = Some (give given f)" and f: "fl_Name f = key" "\<not> fl_Changed f" "fl_Value f = def"
    by (rule registeredE) blast
  show ?thesis
  proof (cases "given key")
    case (Some v)
    then have g: "give given f = f\<lparr>fl_Changed := True, fl_Value := v\<rparr>" using f by (simp add: give_def)
    have "bind_flag L V ev ?s0 (give given f) = give given f" by (simp add: bind_flag_def g)
    then have "lib_Get L V ?s1 ev key = flag_text v" using get_given [OF b1] by (simp add: g)
    then show ?thesis using Some by simp
  next
    case None
    then have g: "give given f = f" using f by (simp add: give_def)
    note b = b1 [unfolded g] and b0 = b0 [unfolded g]
    show ?thesis
    proof (cases "ev (env_name V key) = []")
      case True
      then have "bind_flag L V ev ?s0 f = f" using is_set [OF V, of ?s0 ev key] b0 f by (simp add: bind_flag_def)
      then show ?thesis using get_default [OF b, of ev] None True f by simp
    next
      case False
      have e: "lib_Get L V ?s0 ev key = ev (env_name V key)" using get_env [OF V, of ?s0 key ev] False b0 f by simp
      have s: "lib_IsSet L V ?s0 ev key" using is_set [OF V, of ?s0 ev key] False by simp
      show ?thesis
      proof (cases "lib_Set L def (ev (env_name V key))")
        case refused: None
        then have "bind_flag L V ev ?s0 f = f" using f e by (simp add: bind_flag_def)
        then show ?thesis using get_env [OF V, of ?s1 key ev] b f None False refused by simp
      next
        case (Some v)
        then have "bind_flag L V ev ?s0 f = f\<lparr>fl_Value := v, fl_Changed := True\<rparr>" using f e s by (simp add: bind_flag_def)
        then show ?thesis using get_given [OF b] None False Some by simp
      qed
    qed
  qed
qed

lemma text_resolved:
  assumes "vp_automaticEnv V" and "registered V sets cmds key (StringFlag def)"
  shows "cl_string (viper_cli L V ev (bindFlags L V ev cmds (give_flags given cmds sets)) C) key = text_setting (given key) (ev (env_name V key)) def"
  by (simp add: viper_cli_def get_bound [OF assms] set_text text_setting_def split: option.splits)

lemma bool_resolved:
  assumes "vp_automaticEnv V" and "registered V sets cmds key (BoolFlag False)"
    and "\<And>v. given key = Some v \<Longrightarrow> \<exists>b. v = BoolFlag b"
  shows "cl_bool (viper_cli L V ev (bindFlags L V ev cmds (give_flags given cmds sets)) C) key = bool_setting (given key) (ev (env_name V key))"
  using assms(3)
  by (auto simp: viper_cli_def get_bound [OF assms(1,2)] set_bool to_bool bool_setting_def simp del: flag_text.simps
      split: option.splits)

lemma int_resolved:
  assumes "vp_automaticEnv V" and "registered V sets cmds key (IntFlag def)" and "int64 def"
    and "\<And>v. given key = Some v \<Longrightarrow> \<exists>i. v = IntFlag i \<and> int64 i"
  shows "cl_int (viper_cli L V ev (bindFlags L V ev cmds (give_flags given cmds sets)) C) key = int_setting L (given key) (ev (env_name V key)) def"
proof (cases "given key")
  case None
  then show ?thesis
    using assms(3) to_int
    by (auto simp: viper_cli_def get_bound [OF assms(1,2)] int_setting_def simp del: flag_text.simps
        split: option.splits dest!: set_int)
next
  case (Some v)
  with assms(4) obtain i where "v = IntFlag i" "int64 i" by blast
  with Some to_int show ?thesis
    by (simp add: viper_cli_def get_bound [OF assms(1,2)] int_setting_def del: flag_text.simps)
qed

end

text \<open>Libraries as documented, for whole numbers in decimal notation.\<close>

fun dec_value :: "nat \<Rightarrow> string \<Rightarrow> nat option" where
  "dec_value n [] = Some n"
| "dec_value n (c # cs) = (if of_char c \<in> {48..57 :: nat} then dec_value (10 * n + (of_char c - 48)) cs else None)"

definition dec_int :: "string \<Rightarrow> int option" where
  "dec_int s =
     (case s of
        [] \<Rightarrow> None
      | c # cs \<Rightarrow>
          if c = CHR ''-'' then (if cs = [] then None else map_option (\<lambda>n. - int n) (dec_value 0 cs))
          else map_option int (dec_value 0 s))"

definition viper_IsSet :: "viper \<Rightarrow> flag_sets \<Rightarrow> environ \<Rightarrow> string \<Rightarrow> bool" where
  "viper_IsSet V sets ev key =
     (pred_option fl_Changed (bound_flag V sets key) \<and> bound_flag V sets key \<noteq> None \<or>
      vp_automaticEnv V \<and> ev (env_name V key) \<noteq> [])"

definition viper_Get :: "viper \<Rightarrow> flag_sets \<Rightarrow> environ \<Rightarrow> string \<Rightarrow> string" where
  "viper_Get V sets ev key =
     (case bound_flag V sets key of
        Some f \<Rightarrow> if fl_Changed f \<or> \<not> vp_automaticEnv V \<or> ev (env_name V key) = [] then flag_text (fl_Value f) else ev (env_name V key)
      | None \<Rightarrow> if vp_automaticEnv V then ev (env_name V key) else [])"

fun pflag_Set :: "flag_value \<Rightarrow> string \<Rightarrow> flag_value option" where
  "pflag_Set (StringFlag s) t = Some (StringFlag t)"
| "pflag_Set (BoolFlag b) t = map_option BoolFlag (ParseBool t)"
| "pflag_Set (IntFlag i) t = (case dec_int t of None \<Rightarrow> None | Some j \<Rightarrow> if int64 j then Some (IntFlag j) else None)"

definition plain_lib :: flag_lib where
  "plain_lib = \<lparr>lib_IsSet = viper_IsSet, lib_Get = viper_Get, lib_ToBool = (\<lambda>t. ParseBool t = Some True),
     lib_ToInt = (\<lambda>t. case dec_int t of None \<Rightarrow> 0 | Some j \<Rightarrow> if int64 j then j else 0), lib_Set = pflag_Set\<rparr>"

lemma dec_value_app: "dec_value n (s @ t) = Option.bind (dec_value n s) (\<lambda>m. dec_value m t)"
  by (induction s arbitrary: n) simp_all

lemma dec_value_dec: "dec_value 0 (dec n) = Some n"
proof (induction n rule: dec.induct)
  case (1 n)
  have "(of_char (char_of (48 + m) :: char) :: nat) = 48 + m" if "m < 10" for m :: nat using that by simp
  then show ?case using 1 by (cases "n < 10") (simp_all add: dec.simps [of n] dec_value_app)
qed

lemma dec_first: "\<exists>c cs. dec n = c # cs \<and> c \<noteq> CHR ''-''"
proof (induction n rule: dec.induct)
  case (1 n)
  have "(of_char (char_of (48 + n) :: char) :: nat) \<noteq> of_char CHR ''-''" if "n < 10" using that by simp
  then have "char_of (48 + n) \<noteq> CHR ''-''" if "n < 10" using that by metis
  then show ?case using 1 by (cases "n < 10") (auto simp: dec.simps [of n])
qed

lemma dec_int_text: "dec_int (flag_text (IntFlag i)) = Some i"
proof (cases "i < 0")
  case True
  obtain c cs where "dec (nat (- i)) = c # cs" using dec_first by blast
  with True dec_value_dec [of "nat (- i)"] show ?thesis by (simp add: dec_int_def del: dec_value.simps)
next
  case False
  obtain c cs where "dec (nat i) = c # cs" "c \<noteq> CHR ''-''" using dec_first by blast
  with False dec_value_dec [of "nat i"] show ?thesis by (simp add: dec_int_def del: dec_value.simps)
qed

interpretation plain: flag_library plain_lib
proof (unfold_locales, goal_cases)
  case (9 i)
  then show ?case by (simp add: plain_lib_def dec_int_text del: flag_text.simps)
qed (auto simp: plain_lib_def viper_IsSet_def viper_Get_def split: option.splits if_splits)

section \<open>The settings of a run\<close>

text \<open>Every flag of \<^verbatim>\<open>run\<close>, and the persistent ones, are registered under their names with their defaults.\<close>

definition program_viper :: viper where
  "program_viper = snd (NewRootCommand [])"

lemma root_viper: "snd (NewRootCommand version) = program_viper"
  by code_simp

lemma program_viper_env: "vp_automaticEnv program_viper" "vp_envPrefix program_viper = ''KUBE2E''"
  "vp_replacer program_viper = (''-'', ''_'')"
  by code_simp+

lemma run_registered:
  "list_all (\<lambda>(key, def). registered program_viper (flag_sets (fst (NewRootCommand version))) [''kube2e'', ''run''] key def)
     [(tagsFlag, StringFlag []), (namespaceFlag, StringFlag run_namespaceDefault), (forceConflictsFlag, BoolFlag False),
      (parallelFlag, IntFlag 1), (remoteFlag, StringFlag []), (remoteUserFlag, StringFlag []), (remotePasswordFlag, StringFlag []),
      (dryRunFlag, BoolFlag False), (reportFileFlag, StringFlag []), (''kubeconfig'', StringFlag []), (''verbose'', BoolFlag False),
      (''log-format'', StringFlag ''text'')]"
  by code_simp

text \<open>Variables are named after the flags.\<close>

definition variable :: "string \<Rightarrow> string" where
  "variable key = ''KUBE2E_'' @ map (\<lambda>c. if c = CHR ''-'' then CHR ''_'' else upper_char c) key"

lemma replace_one: "replace_all [a] [b] s = map (\<lambda>c. if c = a then b else c) s"
  by (induction s) (simp_all add: replace_all.simps)

lemma upper_dash: "upper_char c = CHR ''-'' \<longleftrightarrow> c = CHR ''-''"
proof -
  have "char_of n \<noteq> CHR ''-''" if "65 \<le> n" "n \<le> 90" for n :: nat
    using that by (simp add: char_of_eq_iff take_bit_eq_mod)
  then show ?thesis by (cases "of_char c \<in> {97..122 :: nat}") (auto simp: upper_char_def)
qed

lemma env_name_program: "env_name program_viper key = variable key"
proof -
  have "map (\<lambda>c. if c = CHR ''-'' then CHR ''_'' else c) (map upper_char ''KUBE2E_'') = ''KUBE2E_''" by code_simp
  then show ?thesis
    by (simp add: env_name_def program_viper_env replace_one variable_def upper_dash cong: if_cong)
qed

text \<open>The types of the values given on the command line.\<close>

definition given_typed :: "(string \<Rightarrow> flag_value option) \<Rightarrow> bool" where
  "given_typed given =
     (pred_option (\<lambda>v. v = BoolFlag True \<or> v = BoolFlag False) (given forceConflictsFlag) \<and>
      pred_option (\<lambda>v. v = BoolFlag True \<or> v = BoolFlag False) (given dryRunFlag) \<and>
      pred_option (\<lambda>v. case v of IntFlag i \<Rightarrow> int64 i | _ \<Rightarrow> False) (given parallelFlag))"

definition run_cli :: "flag_lib \<Rightarrow> environ \<Rightarrow> (string \<Rightarrow> flag_value option) \<Rightarrow> world \<Rightarrow> cli" where
  "run_cli L ev given w = viper_cli L program_viper ev
     (bindFlags L program_viper ev [''kube2e'', ''run'']
        (give_flags given [''kube2e'', ''run''] (flag_sets (fst (NewRootCommand (build_version w)))))) (wo_cli w)"

definition resolved_config :: "flag_lib \<Rightarrow> environ \<Rightarrow> (string \<Rightarrow> flag_value option) \<Rightarrow> string \<Rightarrow> engine_config" where
  "resolved_config L ev given dir =
     \<lparr>ec_WorkDir = dir,
      ec_Tags = splitTags (text_setting (given ''tags'') (ev ''KUBE2E_TAGS'') []),
      ec_Namespace = text_setting (given ''namespace'') (ev ''KUBE2E_NAMESPACE'') ''default'',
      ec_ForceConflicts = bool_setting (given ''force-conflicts'') (ev ''KUBE2E_FORCE_CONFLICTS''),
      ec_Parallel = int_setting L (given ''parallel'') (ev ''KUBE2E_PARALLEL'') 1,
      ec_Remote = \<lparr>rm_Ref = text_setting (given ''remote'') (ev ''KUBE2E_REMOTE'') [],
        rm_Username = text_setting (given ''remote-user'') (ev ''KUBE2E_REMOTE_USER'') [],
        rm_Password = text_setting (given ''remote-password'') (ev ''KUBE2E_REMOTE_PASSWORD'') []\<rparr>,
      ec_DryRun = bool_setting (given ''dry-run'') (ev ''KUBE2E_DRY_RUN'')\<rparr>"

lemma run_variables:
  "variable tagsFlag = ''KUBE2E_TAGS''" "variable namespaceFlag = ''KUBE2E_NAMESPACE''"
  "variable forceConflictsFlag = ''KUBE2E_FORCE_CONFLICTS''" "variable parallelFlag = ''KUBE2E_PARALLEL''"
  "variable remoteFlag = ''KUBE2E_REMOTE''" "variable remoteUserFlag = ''KUBE2E_REMOTE_USER''"
  "variable remotePasswordFlag = ''KUBE2E_REMOTE_PASSWORD''" "variable dryRunFlag = ''KUBE2E_DRY_RUN''"
  by code_simp+

context flag_library
begin

lemma run_config_resolved:
  assumes "given_typed given"
  shows "run_config (run_cli L ev given w) dir = resolved_config L ev given dir"
proof -
  note r = run_registered [of "build_version w", simplified list.pred_inject prod.case]
  note t = text_resolved [OF program_viper_env(1), unfolded env_name_program]
    and b = bool_resolved [OF program_viper_env(1), unfolded env_name_program]
    and i = int_resolved [OF program_viper_env(1), unfolded env_name_program]
  have bools: "\<exists>x. v = BoolFlag x" if "given forceConflictsFlag = Some v \<or> given dryRunFlag = Some v" for v
    using assms(1) that by (auto simp: given_typed_def)
  have ints: "\<exists>x. v = IntFlag x \<and> int64 x" if "given parallelFlag = Some v" for v
    using assms(1) that by (auto simp: given_typed_def split: flag_value.splits)
  let ?C = "run_cli L ev given w"
  have texts: "cl_string ?C tagsFlag = text_setting (given tagsFlag) (ev (variable tagsFlag)) []"
    "cl_string ?C namespaceFlag = text_setting (given namespaceFlag) (ev (variable namespaceFlag)) run_namespaceDefault"
    "cl_string ?C remoteFlag = text_setting (given remoteFlag) (ev (variable remoteFlag)) []"
    "cl_string ?C remoteUserFlag = text_setting (given remoteUserFlag) (ev (variable remoteUserFlag)) []"
    "cl_string ?C remotePasswordFlag = text_setting (given remotePasswordFlag) (ev (variable remotePasswordFlag)) []"
    unfolding run_cli_def using r by (blast intro: t)+
  have "cl_bool ?C forceConflictsFlag = bool_setting (given forceConflictsFlag) (ev (variable forceConflictsFlag))"
    "cl_bool ?C dryRunFlag = bool_setting (given dryRunFlag) (ev (variable dryRunFlag))"
    unfolding run_cli_def by (rule b, use r in blast, use bools in blast)+
  moreover have "cl_int ?C parallelFlag = int_setting L (given parallelFlag) (ev (variable parallelFlag)) 1"
    unfolding run_cli_def by (rule i, use r in blast, simp add: int64_def, use ints in blast)
  ultimately show ?thesis
    using texts unfolding run_config_def resolved_config_def run_variables
    by (simp add: tagsFlag_def namespaceFlag_def run_namespaceDefault_def forceConflictsFlag_def parallelFlag_def remoteFlag_def
      remoteUserFlag_def remotePasswordFlag_def dryRunFlag_def)
qed

end

lemma execute_run:
  assumes "cobra (fst (NewRootCommand (build_version w))) argv = Inr call" and "in_runner call = RunRun"
  shows "execute cobra L ev w argv (out, tr, pr, fs) =
    (case run_run (run_cli L ev (in_given call) w) (wo_registry w) (wo_os w) (wo_glob w) (wo_env w) (wo_envs w) (wo_io w) (wo_group w)
            (in_args call ! 0) (tr, fs) of
       (err, tr', fs') \<Rightarrow> (err, out, tr', pr, fs'))"
  using assms by (simp add: execute_def run_cli_def root_viper Let_def case_prod_beta)

section \<open>The flags of publish\<close>

text \<open>
  The flags of \<^verbatim>\<open>publish\<close> are not bound, but three of them share their names with flags of \<^verbatim>\<open>run\<close>:
  \<^verbatim>\<open>bindFlags\<close> copies the variable of \<^verbatim>\<open>run\<close> into them, where it hides the variable of \<^verbatim>\<open>publish\<close>.
\<close>

context flag_library
begin

lemma publish_takes_run_variable:
  assumes "ev ''KUBE2E_REMOTE'' \<noteq> []"
  defines "sets \<equiv> flag_sets (fst (NewRootCommand []))"
  shows "ir_Ref (publish_remote (C\<lparr>cl_getenv := ev\<rparr>)
      (publish_vars (bindFlags L program_viper ev [''kube2e'', ''publish''] sets))) = ev ''KUBE2E_REMOTE''"
proof -
  have name: "env_name program_viper ''remote'' = ''KUBE2E_REMOTE''" by code_simp
  have "registered program_viper sets [''kube2e'', ''run''] ''remote'' (StringFlag [])" unfolding sets_def by code_simp
  then have fresh: "\<exists>f. bound_flag program_viper sets ''remote'' = Some f \<and> \<not> fl_Changed f"
    by (auto simp: registered_def split: option.splits)
  then have set: "lib_IsSet L program_viper sets ev ''remote''" "lib_Get L program_viper sets ev ''remote'' = ev ''KUBE2E_REMOTE''"
    using assms(1) is_set [OF program_viper_env(1), of sets ev "''remote''"] get_env [OF program_viper_env(1), of sets "''remote''" ev]
    by (auto simp: name)
  have "Option.bind (map_of sets ''publish'') (find_flag ''remote'') =
    Some \<lparr>fl_Name = ''remote'', fl_Shorthand = [], fl_Usage = ''Image reference to push (env: KUBE2E_TESTS_PUBLISH_REMOTE)'',
      fl_Changed = False, fl_Value = StringFlag []\<rparr>"
    unfolding sets_def by code_simp
  then obtain fs f where fs: "map_of sets ''publish'' = Some fs" "find_flag ''remote'' fs = Some f"
    and f: "fl_Name f = ''remote''" "\<not> fl_Changed f" "fl_Value f = StringFlag []"
    by (auto simp: Option.bind_eq_Some_conv)
  from set f have "flag_text (fl_Value (bind_flag L program_viper ev sets f)) = ev ''KUBE2E_REMOTE''"
    by (simp add: bind_flag_def set_text)
  then have "own_flag (bindFlags L program_viper ev [''kube2e'', ''publish''] sets) ''publish'' ''remote'' = ev ''KUBE2E_REMOTE''"
    using fs by (simp add: own_flag_def map_of_bindFlags find_flag_map)
  then show ?thesis using assms(1) by (simp add: publish_remote_def publish_vars_def valueOrEnv_def)
qed

end

end
