(* ===== verification/Scaffold_Safety.thy ===== *)
theory Scaffold_Safety
  imports Scaffold Image_Confined
begin

text \<open>
  Whatever fails while a suite is scaffolded, nothing that was there before changes: every new node
  is at or below the suite directory.
\<close>

text \<open>The tree \<open>fs'\<close> differs from \<open>fs\<close> at and below \<open>sd\<close> only, which \<open>fs\<close> does not have.\<close>

definition only_below :: "string list \<Rightarrow> files \<Rightarrow> files \<Rightarrow> bool" where
  "only_below sd fs fs' = (\<forall>q. \<not> prefix sd q \<longrightarrow> map_of fs' q = map_of fs q)"

definition suite_path :: "string list \<Rightarrow> string list \<Rightarrow> string \<Rightarrow> bool" where
  "suite_path ds sd p = (\<exists>es. list_all name_ok es \<and> prefix sd (ds @ es) \<and> p = abs_path (ds @ es))"

lemma only_below_trans: "only_below sd fs fs' \<Longrightarrow> only_below sd fs' fs'' \<Longrightarrow> only_below sd fs fs''"
  by (simp add: only_below_def)

lemma grows_only_below:
  assumes "grows ds xs fs fs'" and "real_dir fs ds" and "ds \<noteq> []" and "prefix (ds @ [n]) xs"
  shows "only_below (ds @ [n]) fs fs'"
  unfolding only_below_def
proof (intro allI impI)
  fix q
  assume q: "\<not> prefix (ds @ [n]) q"
  show "map_of fs' q = map_of fs q"
  proof (rule ccontr)
    assume "map_of fs' q \<noteq> map_of fs q"
    with assms(1) have c: "map_of fs q = None" "prefix ds q" "prefix q xs" unfolding grows_def by metis+
    have "prefix q (ds @ [n])" using prefix_same_cases [OF c(3) assms(4)] q by blast
    then have "q = ds" using c(2) q by (metis prefix_order.order_antisym prefix_order.order_refl prefix_snoc)
    then show False using c(1) assms(2,3) by (simp add: real_dir_def)
  qed
qed

lemma MkdirAll_suite:
  assumes j: "jail ds fs" and p: "suite_path ds (ds @ [n]) p"
  shows "jail ds (snd (MkdirAll K p fs)) \<and> only_below (ds @ [n]) fs (snd (MkdirAll K p fs))"
proof -
  obtain es where es: "list_all name_ok es" "prefix (ds @ [n]) (ds @ es)" "p = abs_path (ds @ es)"
    using p by (auto simp: suite_path_def)
  obtain r fs' where m: "MkdirAll K (abs_path (ds @ es) @ []) fs = (r, fs')" by fastforce
  have on: "on_path ds (ds @ es) fs" using jail_on_path [OF j es(1)] by blast
  have g: "grows ds (ds @ es) fs fs'" using MkdirAll_grows [OF on _ m] by simp
  have "real_dir fs ds" "ds \<noteq> []" using j by (simp_all add: jail_def)
  from grows_only_below [OF g this es(2)] grows_jail [OF g j] m show ?thesis by (simp add: es(3))
qed

lemma make_dirs_suite:
  "jail ds fs \<Longrightarrow> list_all (suite_path ds (ds @ [n])) dirs \<Longrightarrow>
     jail ds (snd (make_dirs K dirs fs)) \<and> only_below (ds @ [n]) fs (snd (make_dirs K dirs fs))"
proof (induction dirs arbitrary: fs)
  case Nil
  then show ?case by (simp add: only_below_def)
next
  case (Cons d dirs)
  obtain r fs1 where m: "MkdirAll K d fs = (r, fs1)" by fastforce
  have s: "jail ds fs1" "only_below (ds @ [n]) fs fs1" using MkdirAll_suite [of ds fs n d K] Cons.prems m by simp_all
  show ?case
    using Cons.IH [OF s(1)] Cons.prems(2) s m only_below_trans [OF s(2)] by (cases r) simp_all
qed

lemma WriteFile_suite:
  assumes j: "jail ds fs" and p: "suite_path ds (ds @ [n]) p"
  shows "jail ds (snd (WriteFile K p x fs)) \<and> only_below (ds @ [n]) fs (snd (WriteFile K p x fs))"
proof (cases "open_trunc K p fs")
  case (Inl e)
  then show ?thesis using j by (simp add: WriteFile_def only_below_def)
next
  case (Inr a)
  then obtain at fs1 where o: "open_trunc K p fs = Inr (at, fs1)" by (cases a) simp
  obtain es where es: "list_all name_ok es" "prefix (ds @ [n]) (ds @ es)" "p = abs_path (ds @ es)"
    using p by (auto simp: suite_path_def)
  from open_trunc_jail [OF j es(1) o [unfolded es(3)]] have at: "at = ds @ es" "es \<noteq> []" "fs1 = put_node at (FileNode []) fs"
    by blast+
  have j1: "jail ds fs1" using put_file_jail [OF j at(2), of fs1 "[]"] at by simp
  have "\<exists>y. snd (WriteFile K p x fs) = put_node at (FileNode y) fs1"
    using o by (auto simp: WriteFile_def copy_into_def split: option.splits)
  then obtain y where y: "snd (WriteFile K p x fs) = put_node at (FileNode y) fs1" by blast
  have "jail ds (put_node at (FileNode y) fs1)" using put_file_jail [OF j1 at(2)] at(1) by blast
  then show ?thesis using y at es(2) by (auto simp: only_below_def)
qed

lemma write_files_suite:
  "jail ds fs \<Longrightarrow> list_all (\<lambda>(p, x). suite_path ds (ds @ [n]) p) files \<Longrightarrow>
     jail ds (snd (write_files K files fs)) \<and> only_below (ds @ [n]) fs (snd (write_files K files fs))"
proof (induction files arbitrary: fs)
  case Nil
  then show ?case by (simp add: only_below_def)
next
  case (Cons f files)
  obtain p x where f: "f = (p, x)" by fastforce
  obtain r fs1 where m: "WriteFile K p x fs = (r, fs1)" by fastforce
  have s: "jail ds fs1" "only_below (ds @ [n]) fs fs1" using WriteFile_suite [of ds fs n p K x] Cons.prems m f by simp_all
  show ?case
    using Cons.IH [OF s(1)] Cons.prems(2) s m f only_below_trans [OF s(2)] by (cases r) simp_all
qed

text \<open>The whole scaffold, when \<^verbatim>\<open>stat\<close> does not say of a node that it is not there.\<close>

lemma Create_keeps:
  assumes j: "jail ds fs" and t: "tree_ok fs" and n: "name_ok n" and st: "\<And>p. os_fault K ''stat'' p fs \<noteq> Some ENOENT"
    and order: "\<And>xs. mset (order xs) = mset xs"
    and run: "Create K order \<lparr>sc_Dir = abs_path ds, sc_Name = n\<rparr> fs = (r, fs')"
  shows "map_of fs' q = map_of fs q \<or> map_of fs q = None \<and> prefix (ds @ [n]) q"
proof -
  let ?sd = "ds @ [n]"
  have ok: "list_all name_ok ?sd" "real_dir fs ds" "link_free fs ds" "ds \<noteq> []" using j n by (simp_all add: jail_def)
  have n0: "n \<noteq> []" using n by (simp add: name_ok_def)
  have jn: "Join [abs_path ds, n] = abs_path ?sd" "Join [abs_path ?sd, casesDirName] = abs_path (ds @ [n, casesDirName])"
    "Join [abs_path ?sd, templatesDirName] = abs_path (ds @ [n, templatesDirName])"
    "Join [abs_path ?sd, templatesDirName, ''configmap.yaml''] = abs_path (ds @ [n, templatesDirName, ''configmap.yaml''])"
    "Join [abs_path ?sd, casesDirName, ''example.yaml''] = abs_path (ds @ [n, casesDirName, ''example.yaml''])"
    using Join_name [of ds n] Join_name [of ?sd] Join_names2 [of ?sd] ok(1) by simp_all
  show ?thesis
  proof (cases "Stat K (abs_path ?sd) fs = Inl ENOENT")
    case False
    then have "fs' = fs" using run n0 by (auto simp: Create_def Let_def jn split: sum.splits if_splits)
    then show ?thesis by simp
  next
    case True
    have "\<not> link_at fs ?sd" using ok(3) by (auto simp: link_free_def link_at_def split: option.splits node.splits)
    then have "stat_node K True (abs_path ?sd) fs = (case map_of fs ?sd of None \<Rightarrow> Inl ENOENT | Some nd \<Rightarrow> Inr nd)"
      using ok(1,2) by (simp add: stat_node_def locate_real)
    then have "map_of fs ?sd = None" using True st by (auto simp: Stat_def faulty_def split: option.splits)
    then have none: "prefix ?sd q \<Longrightarrow> map_of fs q = None" for q using tree_ok_below [OF t] by simp
    have s: "suite_path ds ?sd (abs_path (ds @ n # es))" if "list_all name_ok es" for es
      using that n by (auto simp: suite_path_def intro!: exI [of _ "n # es"])
    let ?dirs = "[Join [abs_path ?sd, casesDirName], Join [abs_path ?sd, templatesDirName]]"
      and ?files = "order [(Join [abs_path ?sd, templatesDirName, ''configmap.yaml''], templateYAML),
                           (Join [abs_path ?sd, casesDirName, ''example.yaml''], caseYAML)]"
    obtain e1 fs1 where mk: "make_dirs K ?dirs fs = (e1, fs1)" by fastforce
    have d: "jail ds fs1" "only_below ?sd fs fs1"
      using make_dirs_suite [OF j, of n ?dirs K] mk s [of "[casesDirName]"] s [of "[templatesDirName]"] by (simp_all add: jn)
    obtain e2 fs2 where wr: "write_files K ?files fs1 = (e2, fs2)" by fastforce
    have "set ?files = {(Join [abs_path ?sd, templatesDirName, ''configmap.yaml''], templateYAML),
        (Join [abs_path ?sd, casesDirName, ''example.yaml''], caseYAML)}"
      using order [THEN arg_cong, of set_mset] by simp
    then have "list_all (\<lambda>(p, x). suite_path ds ?sd p) ?files"
      using s [of "[templatesDirName, ''configmap.yaml'']"] s [of "[casesDirName, ''example.yaml'']"]
      by (simp add: list_all_iff jn)
    from write_files_suite [OF d(1) this, of K] wr have w: "only_below ?sd fs1 fs2" by simp
    have "fs' = fs1 \<or> fs' = fs2"
      using run n0 True mk wr by (auto simp: Create_def Let_def jn split: prod.splits option.splits)
    then have "only_below ?sd fs fs'" using d(2) only_below_trans [OF d(2) w] by blast
    then show ?thesis using none by (auto simp: only_below_def)
  qed
qed

end
