(* ===== verification/Tool_Properties.thy ===== *)
theory Tool_Properties
  imports Command_Tree Scaffold_Safety Example_Files
begin

text \<open>
  The properties of the tools around a run: validation of case files, the scaffold, the logger and
  the arguments of the commands.
\<close>

text \<open>
  C31: The locations printed for schema problems can be read back: decoding the JSON pointer of a
  location gives the location, whatever characters its elements have (slashes, tildes, nothing).
  The location of the document itself, the empty list, is the exception: it prints as a slash,
  like the list of one empty name.
\<close>

theorem pointer_roundtrip:
  assumes "location \<noteq> []"
  shows "parse_pointer (pointer location) = location"
  using pointer_parse [OF assms] .

theorem pointer_roundtrip_witness:
  "pointer [''steps'', ''0'', ''a/b~c''] = ''/steps/0/a~1b~0c'' \<and>
   parse_pointer (pointer [''steps'', ''0'', ''a/b~c'']) = [''steps'', ''0'', ''a/b~c'']"
proof -
  have "pointer [''steps'', ''0'', ''a/b~c''] = ''/steps/0/a~1b~0c''" by code_simp
  with pointer_roundtrip [of "[''steps'', ''0'', ''a/b~c'']"] show ?thesis by simp
qed

text \<open>
  C32: A rejected document gets at least one problem, and the problems are exactly those of the
  nodes without causes, and of the nodes whose causes are about another instance, that are
  reached without going below a node of the second kind; the former carry their own location,
  the latter the location of the node they are a cause of.
\<close>

theorem problems_are_reached_leaves:
  "problems (Invalid v) \<noteq> [] \<and>
   set (problems (Invalid v)) = {problem_at w p |w p. reaches v rootPointer w p \<and> (v_causes w = [] \<or> reRoots w)}"
proof
  show "problems (Invalid v) \<noteq> []" by (rule problems_nonempty)
  show "set (problems (Invalid v)) = {problem_at w p |w p. reaches v rootPointer w p \<and> (v_causes w = [] \<or> reRoots w)}"
    using reported_reached [of v rootPointer] by (simp add: problems_def collect_reported)
qed

text \<open>
  C33: The command \<^verbatim>\<open>tests validate\<close>, once the directory could be read: its report has one
  entry for every case file of every suite found, in order; it prints the whole report; and the
  process exits with zero exactly when every one of these files can be decoded and the schema has
  nothing against it. Premises: the schema compiles, the output can be written.
\<close>

theorem validate_command_verdict:
  assumes "cl_write C = (\<lambda>_. None)" and "New_validator L caseSchema = Inr v" and "validate_Dir L v K fs dir = Inr r"
  shows "\<exists>dirs. findSuiteDirs K fs dir = Inr dirs \<and>
    map vc_Path (concat (map vs_Cases (vr_Suites r))) = concat (map (case_paths K fs) dirs) \<and>
    snd (run_validate C L caseSchema K fs dir out) = out @ report_text r \<and>
    (main (fst (run_validate C L caseSchema K fs dir out)) = 0 \<longleftrightarrow>
       list_all (accepted L v K fs) (concat (map (case_paths K fs) dirs)))"
  using validate_Dir_verdict [OF assms(3)] run_validate_ok [OF assms] by (auto simp: main_def list_all_iff)

definition example_cli :: cli where
  "example_cli = \<lparr>cl_string = (\<lambda>_. []), cl_bool = (\<lambda>_. False), cl_int = (\<lambda>_. 0), cl_getenv = (\<lambda>_. []),
     cl_rest = (\<lambda>_. Inl (Opaque ''none'')), cl_yaml = (\<lambda>_. Inr []), cl_write = (\<lambda>_. None)\<rparr>"

text \<open>A schema that rejects documents whose text is not \<^verbatim>\<open>name: a\<close>.\<close>

definition example_schema :: schema where
  "example_schema doc = (if doc = JStr ''name: a'' then None else Some (Invalid (Violation [''name''] ''is required'' [])))"

definition example_lib :: schema_lib where
  "example_lib = \<lparr>sl_yaml = Inr, sl_json = (\<lambda>s. Inr (JStr s)), sl_add = (\<lambda>u d. None), sl_compile = (\<lambda>u d. Inr example_schema)\<rparr>"

lemma example_validator: "New_validator example_lib ''{}'' = Inr example_schema"
  by (simp add: New_validator_def example_lib_def)

definition bad_tree :: files where
  "bad_tree = ([''work'', ''web'', ''cases'', ''b.yaml''], FileNode ''name: b'') # example_tree"

theorem validate_command_verdict_witness:
  "main (fst (run_validate example_cli example_lib ''{}'' example_os example_tree ''/work'' [])) = 0 \<and>
   snd (run_validate example_cli example_lib ''{}'' example_os example_tree ''/work'' []) =
     msg [''/work/web'', [CHR 0x0A], ''  ok   cases/a.yaml'', [CHR 0x0A], [CHR 0x0A], ''1 case files checked, 0 invalid'', [CHR 0x0A]] \<and>
   main (fst (run_validate example_cli example_lib ''{}'' example_os bad_tree ''/work'' [])) = 1"
proof -
  have wr: "cl_write example_cli = (\<lambda>_. None)" by (simp add: example_cli_def)
  obtain r where r: "validate_Dir example_lib example_schema example_os example_tree ''/work'' = Inr r"
    and shown_text: "report_text r = msg [''/work/web'', [CHR 0x0A], ''  ok   cases/a.yaml'', [CHR 0x0A], [CHR 0x0A], ''1 case files checked, 0 invalid'', [CHR 0x0A]]"
  proof -
    have "(case validate_Dir example_lib example_schema example_os example_tree ''/work'' of Inl e \<Rightarrow> False
      | Inr r \<Rightarrow> report_text r = msg [''/work/web'', [CHR 0x0A], ''  ok   cases/a.yaml'', [CHR 0x0A], [CHR 0x0A], ''1 case files checked, 0 invalid'', [CHR 0x0A]])"
      by code_simp
    then show ?thesis using that by (auto split: sum.splits)
  qed
  from validate_command_verdict [OF wr example_validator r, of "[]"] obtain dirs
    where d: "findSuiteDirs example_os example_tree ''/work'' = Inr dirs"
      and out: "snd (run_validate example_cli example_lib ''{}'' example_os example_tree ''/work'' []) = [] @ report_text r"
      and code: "main (fst (run_validate example_cli example_lib ''{}'' example_os example_tree ''/work'' [])) = 0 \<longleftrightarrow>
        list_all (accepted example_lib example_schema example_os example_tree) (concat (map (case_paths example_os example_tree) dirs))"
    by blast
  have "findSuiteDirs example_os example_tree ''/work'' = Inr [''/work/web'']" by code_simp
  then have "dirs = [''/work/web'']" using d by simp
  moreover have "list_all (accepted example_lib example_schema example_os example_tree)
      (concat (map (case_paths example_os example_tree) [''/work/web'']))" by code_simp
  moreover have "main (fst (run_validate example_cli example_lib ''{}'' example_os bad_tree ''/work'' [])) = 1" by code_simp
  ultimately show ?thesis using code out shown_text by simp
qed

text \<open>
  C34: The scaffold makes a suite that the other tools find: in an existing directory and for a
  new name it succeeds, whatever order the files are written in, adds exactly the suite directory,
  its two subdirectories and the two starter files, and validation of the new directory checks
  the starter case, with the text it was given. Premise: no operation fails.
\<close>

theorem scaffold_new_suite:
  assumes "quiet_os K" and "list_all name_ok (ds @ [n])" and "real_dir fs ds" and "tree_ok fs" and "map_of fs (ds @ [n]) = None"
    and "\<forall>xs. mset (order xs) = mset xs"
  shows "\<exists>fs'. Create K order \<lparr>sc_Dir = abs_path ds, sc_Name = n\<rparr> fs = (Inr (abs_path (ds @ [n])), fs') \<and>
    map_of fs' = starter_tree (ds @ [n]) fs \<and>
    findSuiteDirs K fs' (abs_path (ds @ [n])) = Inr [abs_path (ds @ [n])] \<and>
    case_paths K fs' (abs_path (ds @ [n])) = [abs_path ((ds @ [n]) @ [casesDirName, ''example.yaml''])] \<and>
    ReadFile K (abs_path ((ds @ [n]) @ [casesDirName, ''example.yaml''])) fs' = Inr caseYAML \<and>
    ReadFile K (abs_path ((ds @ [n]) @ [templatesDirName, ''configmap.yaml''])) fs' = Inr templateYAML"
proof -
  obtain fs' where c: "Create K order \<lparr>sc_Dir = abs_path ds, sc_Name = n\<rparr> fs = (Inr (abs_path (ds @ [n])), fs')"
    and t: "map_of fs' = starter_tree (ds @ [n]) fs"
    using quiet_os.Create_fresh [OF assms(1-5), of order] assms(6) by blast
  have none: "map_of fs ((ds @ [n]) @ q) = None" for q
    using tree_ok_below [OF assms(4,5), of "(ds @ [n]) @ q"] by (simp add: prefix_def)
  show ?thesis using c t quiet_os.starter_found [OF assms(1,2) t none refl assms(3)] by blast
qed

theorem scaffold_new_suite_witness:
  "\<exists>fs'. Create example_os rev \<lparr>sc_Dir = abs_path [''work''], sc_Name = ''nginx''\<rparr> example_tree = (Inr (abs_path ([''work''] @ [''nginx''])), fs') \<and>
     case_paths example_os fs' (abs_path ([''work''] @ [''nginx''])) = [''/work/nginx/cases/example.yaml''] \<and>
     ReadFile example_os ''/work/nginx/cases/example.yaml'' fs' = Inr caseYAML"
proof -
  have ok: "list_all name_ok ([''work''] @ [''nginx''])" "map_of example_tree ([''work''] @ [''nginx'']) = None" by code_simp+
  have rd: "real_dir example_tree [''work'']" unfolding real_dir_code by code_simp
  have p: "abs_path (([''work''] @ [''nginx'']) @ [casesDirName, ''example.yaml'']) = ''/work/nginx/cases/example.yaml''" by code_simp
  from scaffold_new_suite [OF example_quiet ok(1) rd example_tree_ok ok(2), of rev] show ?thesis unfolding p by auto
qed

text \<open>
  C35: The scaffold never touches what is there, whichever operation fails. In a real directory
  without links below it, every node that exists keeps its contents, and new nodes are at or below
  the suite directory only; an empty name, a path that leads to something, or one that cannot be
  looked at gives an error and leaves the whole tree unchanged. Premise: looking at a path does not say
  by mistake that nothing is there.
\<close>

theorem scaffold_keeps_files:
  assumes "jail ds fs" and "tree_ok fs" and "name_ok n" and "\<forall>p. os_fault K ''stat'' p fs \<noteq> Some ENOENT"
    and "\<forall>xs. mset (order xs) = mset xs"
  shows "(\<forall>q. map_of (snd (Create K order \<lparr>sc_Dir = abs_path ds, sc_Name = n\<rparr> fs)) q = map_of fs q \<or>
       map_of fs q = None \<and> prefix (ds @ [n]) q) \<and>
    (\<forall>cfg. sc_Name cfg = [] \<or> Stat K (Join [sc_Dir cfg, sc_Name cfg]) fs \<noteq> Inl ENOENT \<longrightarrow>
       (\<exists>e. Create K order cfg fs = (Inl e, fs)))"
proof (intro conjI allI impI)
  fix q
  obtain r fs' where "Create K order \<lparr>sc_Dir = abs_path ds, sc_Name = n\<rparr> fs = (r, fs')" by fastforce
  with Create_keeps [OF assms(1-3) _ _ this, of q] assms(4,5)
  show "map_of (snd (Create K order \<lparr>sc_Dir = abs_path ds, sc_Name = n\<rparr> fs)) q = map_of fs q \<or>
       map_of fs q = None \<and> prefix (ds @ [n]) q" by simp
next
  fix cfg :: scaffold_config
  assume "sc_Name cfg = [] \<or> Stat K (Join [sc_Dir cfg, sc_Name cfg]) fs \<noteq> Inl ENOENT"
  then show "\<exists>e. Create K order cfg fs = (Inl e, fs)" by (auto simp: Create_def Let_def split: sum.splits)
qed

text \<open>An operating system on which files cannot be opened for writing.\<close>

definition full_disk :: os where
  "full_disk = example_os\<lparr>os_fault := (\<lambda>oper p fs. if oper = ''open'' then Some (EOther ''no space left on device'') else None)\<rparr>"

theorem scaffold_keeps_files_witness:
  "(\<forall>q. map_of (snd (Create full_disk rev \<lparr>sc_Dir = abs_path [''work''], sc_Name = ''nginx''\<rparr> example_tree)) q = map_of example_tree q \<or>
       map_of example_tree q = None \<and> prefix ([''work''] @ [''nginx'']) q) \<and>
   (\<exists>e. Create full_disk rev \<lparr>sc_Dir = ''.'', sc_Name = ''web''\<rparr> example_tree = (Inl e, example_tree))"
proof -
  have j: "jail [''work''] example_tree" by (rule jail_code) code_simp+
  have n: "name_ok ''nginx''" by code_simp
  have f: "\<forall>p. os_fault full_disk ''stat'' p example_tree \<noteq> Some ENOENT" by (simp add: full_disk_def)
  have "Stat full_disk (Join [sc_Dir \<lparr>sc_Dir = ''.'', sc_Name = ''web''\<rparr>, sc_Name \<lparr>sc_Dir = ''.'', sc_Name = ''web''\<rparr>]) example_tree = Inr DirNode"
    by code_simp
  with scaffold_keeps_files [OF j example_tree_ok n f, of rev] show ?thesis by simp
qed

text \<open>
  C36: Both log formats show the same records: a logger made with any format option, and any
  logger derived from it by attributes and groups, writes exactly one line for a record of an
  enabled level and nothing for another one; debug and warning records are enabled exactly in
  verbose mode. Premise: the output can be written.
\<close>

datatype derivation = Attrs "attr list" | Group string

fun derive :: "handler \<Rightarrow> derivation \<Rightarrow> handler" where
  "derive h (Attrs as) = WithAttrs h as"
| "derive h (Group g) = WithGroup h g"

lemma derive_verbose: "handler_verbose (foldl derive h xs) = handler_verbose h"
proof (induction xs arbitrary: h)
  case (Cons x xs)
  then show ?case by (cases x) simp_all
qed simp

theorem log_formats_agree:
  assumes "\<forall>out. fails out = None"
  shows "\<exists>lines. log fails paint encode (foldl derive (New_logger [WithVerbose v, WithFormat f]) xs) r out = out @ lines \<and>
    length lines = (if LevelDebug \<le> lr_level r \<and> (v \<or> lr_level r \<notin> {LevelDebug, LevelWarn}) then 1 else 0)"
proof -
  let ?h = "foldl derive (New_logger [WithVerbose v, WithFormat f]) xs"
  have hv: "handler_verbose ?h = v" unfolding derive_verbose New_logger_verbose by (simp add: WithVerbose_def WithFormat_def)
  obtain line where line: "log fails paint encode ?h r out = (if shown v (lr_level r) then out @ [line] else out)"
    using log_adds_one_line [of fails paint encode ?h r out] assms hv by auto
  show ?thesis
  proof (cases "shown v (lr_level r)")
    case True
    then show ?thesis using line by (intro exI [of _ "[line]"]) (simp add: shown_def)
  next
    case False
    then show ?thesis using line by (intro exI [of _ "[]"]) (auto simp: shown_def)
  qed
qed

theorem log_formats_agree_witness:
  "\<exists>lines. log (\<lambda>_. None) (\<lambda>c s. s) (\<lambda>scope r. lr_message r) (foldl derive (New_logger [WithVerbose False, WithFormat FormatJSON]) [Attrs [(''suite'', ''web'')]])
      \<lparr>lr_level = LevelInfo, lr_message = ''started'', lr_attrs = []\<rparr> [] = [] @ lines \<and> length lines = 1"
  using log_formats_agree [of "\<lambda>_. None" "\<lambda>c s. s" "\<lambda>scope r. lr_message r" False FormatJSON "[Attrs [(''suite'', ''web'')]]"
      "\<lparr>lr_level = LevelInfo, lr_message = ''started'', lr_attrs = []\<rparr>" "[]"]
  by (simp add: LevelInfo_def LevelDebug_def LevelWarn_def)

text \<open>
  Splitting a tag list: joining tags with commas and splitting them again gives the tags back exactly
  when each is non-empty, has no comma and no space around it; and splitting is idempotent.
\<close>

lemma tags_roundtrip:
  "(splitTags (join '','' tags) = tags \<longleftrightarrow> list_all tag_ok tags) \<and>
   splitTags (join '','' (splitTags text)) = splitTags text"
proof
  show "splitTags (join '','' tags) = tags \<longleftrightarrow> list_all tag_ok tags"
    using splitTags_join splitTags_ok by metis
  show "splitTags (join '','' (splitTags text)) = splitTags text"
    by (rule splitTags_join [OF splitTags_ok])
qed

text \<open>
  C37: The settings of \<^verbatim>\<open>kube2e run\<close>: once the arguments select this command, the command runs with the
  configuration in which every setting is the value given on the command line, else the environment
  variable documented for it when that is not empty, else its default; a tag list gives back
  exactly the tags it was joined from, provided each is non-empty and has no comma and no space around
  it. A flag variable that is no boolean counts as false. Premises: the documented behaviour of the flag and
  configuration libraries, and values of the right types on the command line.
\<close>

theorem run_configuration:
  assumes "flag_library L" and "given_typed (in_given call)"
    and "cobra (fst (NewRootCommand (build_version w))) argv = Inr call" and "in_runner call = RunRun"
  shows "execute cobra L ev w argv (out, tr, pr, fs) =
      (case run_run (run_cli L ev (in_given call) w) (wo_registry w) (wo_os w) (wo_glob w) (wo_env w) (wo_envs w) (wo_io w) (wo_group w)
              (in_args call ! 0) (tr, fs) of
         (err, tr', fs') \<Rightarrow> (err, out, tr', pr, fs')) \<and>
    run_config (run_cli L ev (in_given call) w) (in_args call ! 0) = resolved_config L ev (in_given call) (in_args call ! 0) \<and>
    (splitTags (join '','' tags) = tags \<longleftrightarrow> list_all tag_ok tags)"
proof (intro conjI)
  show "splitTags (join '','' tags) = tags \<longleftrightarrow> list_all tag_ok tags" using splitTags_join splitTags_ok by metis
qed (rule execute_run [of cobra w argv call, OF assms(3,4)] flag_library.run_config_resolved [OF assms(1,2)])+

definition example_call :: invocation where
  "example_call = \<lparr>in_runner = RunRun,
     in_given = [''namespace'' \<mapsto> StringFlag ''ci'', ''tags'' \<mapsto> StringFlag ''smoke, aws''], in_args = [''tests'']\<rparr>"

definition example_environ :: environ where
  "example_environ name =
     (if name = ''KUBE2E_NAMESPACE'' then ''other'' else if name = ''KUBE2E_DRY_RUN'' then ''1''
      else if name = ''KUBE2E_FORCE_CONFLICTS'' then ''yes'' else if name = ''KUBE2E_PARALLEL'' then ''4'' else [])"

theorem run_configuration_witness:
  "\<forall>w. run_config (run_cli plain_lib example_environ (in_given example_call) w) ''tests'' =
     \<lparr>ec_WorkDir = ''tests'', ec_Tags = [''smoke'', ''aws''], ec_Namespace = ''ci'', ec_ForceConflicts = False,
      ec_Parallel = 4, ec_Remote = \<lparr>rm_Ref = [], rm_Username = [], rm_Password = []\<rparr>, ec_DryRun = True\<rparr>"
proof
  fix w
  have t: "given_typed (in_given example_call)"
    by (simp add: given_typed_def example_call_def forceConflictsFlag_def dryRunFlag_def parallelFlag_def)
  have c: "in_args example_call ! 0 = ''tests''" "in_runner example_call = RunRun" by code_simp+
  have "resolved_config plain_lib example_environ (in_given example_call) ''tests'' =
     \<lparr>ec_WorkDir = ''tests'', ec_Tags = [''smoke'', ''aws''], ec_Namespace = ''ci'', ec_ForceConflicts = False,
      ec_Parallel = 4, ec_Remote = \<lparr>rm_Ref = [], rm_Username = [], rm_Password = []\<rparr>, ec_DryRun = True\<rparr>"
    by code_simp
  with run_configuration [OF plain.flag_library_axioms t, of "\<lambda>root argv. Inr example_call" w _ example_environ, OF refl c(2)] c(1)
  show "run_config (run_cli plain_lib example_environ (in_given example_call) w) ''tests'' =
     \<lparr>ec_WorkDir = ''tests'', ec_Tags = [''smoke'', ''aws''], ec_Namespace = ''ci'', ec_ForceConflicts = False,
      ec_Parallel = 4, ec_Remote = \<lparr>rm_Ref = [], rm_Username = [], rm_Password = []\<rparr>, ec_DryRun = True\<rparr>"
    by simp
qed

end
