(* ===== verification/Case_Validation.thy ===== *)
theory Case_Validation
  imports Suite Paths
begin

text \<open>
  The rules of a case file (\<^verbatim>\<open>src/internal/engine/suite/case.go\<close>, \<^verbatim>\<open>step/step.go\<close> and
  \<^verbatim>\<open>action/action.go\<close>). The source states them as struct tags, which the validator library reads by
  reflection. The structs are translated to what reflection sees of them: the fields in order with
  their Go names, their \<^verbatim>\<open>yaml\<close> and \<^verbatim>\<open>validate\<close> tags as written, and their values. The library
  is a parameter; the locale \<open>tag_validator\<close> has the part of its documentation that the tags rely on.
\<close>

section \<open>What reflection sees\<close>

text \<open>
  Values no rule looks at (flags, numbers, maps, durations, plain lists of other data) are \<open>ROpaque\<close>.
\<close>

datatype rvalue = RString string | RSlice "rvalue list" | RPtr "rvalue option" | RStruct "rfield list" | ROpaque
and rfield = RField (rf_Name: string) (rf_Yaml: string) (rf_Validate: string) (rf_Value: rvalue)

text \<open>The function \<^verbatim>\<open>caseValidator\<close> registers: fields are reported by their \<^verbatim>\<open>yaml\<close> names.\<close>

definition field_name :: "string \<Rightarrow> string \<Rightarrow> string" where
  "field_name goName name = (if name = [] \<or> name = ''-'' then goName else hd (split_on CHR '','' name))"

definition reflect_target :: "target \<Rightarrow> rvalue" where
  "reflect_target t = RStruct
     [RField ''Object'' ''object'' ''required_without=Kind,excluded_with=Kind'' (RString (t_Object t)),
      RField ''Kind'' ''kind'' ''required_with=LabelSelector'' (RString (t_Kind t)),
      RField ''LabelSelector'' ''labelSelector'' ''required_with=Kind'' (RString (t_LabelSelector t))]"

definition reflect_options :: "action_options \<Rightarrow> rfield" where
  "reflect_options a = RField ''actionOptions'' [] [] (RStruct
     [RField ''Target'' ''target'' ''required'' (reflect_target (ao_Target a)),
      RField ''Delay'' ''delay'' [] ROpaque,
      RField ''Timeout'' ''timeout'' [] ROpaque])"

definition reflect_ensure :: "ensure_action \<Rightarrow> rvalue" where
  "reflect_ensure a = RStruct
     [RField ''Object'' ''object'' ''required'' (RString (en_Object a)),
      RField ''Retry'' ''retry'' [] ROpaque,
      RField ''Values'' ''values'' [] ROpaque,
      RField ''Delay'' ''delay'' [] ROpaque,
      RField ''Timeout'' ''timeout'' [] ROpaque]"

definition reflect_delete :: "delete_action \<Rightarrow> rvalue" where
  "reflect_delete a = RStruct
     [reflect_options (de_Options a),
      RField ''Retry'' ''retry'' [] ROpaque,
      RField ''Wait'' ''wait'' [] ROpaque,
      RField ''Interval'' ''interval'' [] ROpaque]"

definition reflect_patch :: "patch_action \<Rightarrow> rvalue" where
  "reflect_patch a = RStruct
     [reflect_options (pa_Options a),
      RField ''Retry'' ''retry'' [] ROpaque,
      RField ''Patches'' ''patches'' [] ROpaque]"

definition reflect_wait :: "wait_action \<Rightarrow> rvalue" where
  "reflect_wait a = RStruct
     [reflect_options (wa_Options a),
      RField ''Interval'' ''interval'' [] ROpaque,
      RField ''Conditions'' ''conditions'' [] (RSlice (map RString (wa_Conditions a)))]"

definition reflect_assert :: "assert_action \<Rightarrow> rvalue" where
  "reflect_assert a = RStruct
     [reflect_options (as_Options a),
      RField ''Retry'' ''retry'' [] ROpaque,
      RField ''Conditions'' ''conditions'' ''min=1'' (RSlice (map RString (as_Conditions a)))]"

definition reflect_logs :: "logs_action \<Rightarrow> rvalue" where
  "reflect_logs a = RStruct
     [reflect_options (lg_Options a),
      RField ''Contains'' ''contains'' ''required'' (RString (lg_Contains a)),
      RField ''Container'' ''container'' [] (RString (lg_Container a)),
      RField ''Match'' ''match'' [] (RString (lg_Match a)),
      RField ''Interval'' ''interval'' [] ROpaque]"

definition reflect_exec :: "exec_action \<Rightarrow> rvalue" where
  "reflect_exec a = RStruct
     [reflect_options (ex_Options a),
      RField ''Command'' ''command'' ''min=1'' (RSlice (map RString (ex_Command a))),
      RField ''Container'' ''container'' [] (RString (ex_Container a)),
      RField ''Retry'' ''retry'' [] ROpaque]"

definition reflect_step :: "step \<Rightarrow> rvalue" where
  "reflect_step st = RStruct
     [RField ''Name'' ''name'' ''required'' (RString (st_Name st)),
      RField ''Description'' ''description'' [] (RString (st_Description st)),
      RField ''Optional'' ''optional'' [] ROpaque,
      RField ''Ensure'' ''ensure'' [] (RPtr (map_option reflect_ensure (st_Ensure st))),
      RField ''Patch'' ''patch'' [] (RPtr (map_option reflect_patch (st_Patch st))),
      RField ''Wait'' ''wait'' [] (RPtr (map_option reflect_wait (st_Wait st))),
      RField ''Assert'' ''assert'' [] (RPtr (map_option reflect_assert (st_Assert st))),
      RField ''Logs'' ''logs'' [] (RPtr (map_option reflect_logs (st_Logs st))),
      RField ''Exec'' ''exec'' [] (RPtr (map_option reflect_exec (st_Exec st))),
      RField ''Delete'' ''delete'' [] (RPtr (map_option reflect_delete (st_Delete st)))]"

definition reflect_steps :: "step option list \<Rightarrow> rvalue" where
  "reflect_steps sts = RSlice (map (\<lambda>st. RPtr (map_option reflect_step st)) sts)"

definition reflect_hooks :: "hooks \<Rightarrow> rvalue" where
  "reflect_hooks h = RStruct
     [RField ''BeforeEach'' ''beforeEach'' ''dive'' (reflect_steps (hk_BeforeEach h)),
      RField ''AfterEach'' ''afterEach'' ''dive'' (reflect_steps (hk_AfterEach h))]"

definition reflect_case :: "case_file \<Rightarrow> rfield list" where
  "reflect_case tc =
     [RField ''Path'' ''path'' [] (RString (cf_Path tc)),
      RField ''Version'' ''version'' ''required,eq=v1'' (RString (cf_Version tc)),
      RField ''Name'' ''name'' ''required'' (RString (cf_Name tc)),
      RField ''Description'' ''description'' [] (RString (cf_Description tc)),
      RField ''Tags'' ''tags'' [] (RSlice (map RString (cf_Tags tc))),
      RField ''Objects'' ''objects'' [] ROpaque,
      RField ''Hooks'' ''hooks'' [] (reflect_hooks (cf_Hooks tc)),
      RField ''Steps'' ''steps'' ''dive'' (reflect_steps (cf_Steps tc))]"

section \<open>The documented meaning of the tags\<close>

text \<open>
  A tag is a list of rules separated by commas, a rule a name with an optional parameter after an
  equals sign.
\<close>

definition rule_of :: "string \<Rightarrow> string \<times> string" where
  "rule_of r = (takeWhile (\<lambda>c. c \<noteq> CHR ''='') r, drop 1 (dropWhile (\<lambda>c. c \<noteq> CHR ''='') r))"

definition rules_of :: "string \<Rightarrow> (string \<times> string) list" where
  "rules_of tag = (if tag = [] then [] else map rule_of (split_on CHR '','' tag))"

definition is_set :: "rfield list \<Rightarrow> string \<Rightarrow> bool" where
  "is_set fs name = list_ex (\<lambda>f. rf_Name f = name \<and> rf_Value f \<noteq> RString []) fs"

text \<open>
  The rules as the tags use them: \<^verbatim>\<open>required\<close> asks for a text that is not empty and asks nothing of a
  struct (the library's default), the conditional rules look at sibling fields, \<^verbatim>\<open>min\<close> at the
  length of a slice. \<^verbatim>\<open>dive\<close> is no rule of its own: it sends the validation into the elements.
\<close>

definition rule_holds :: "rfield list \<Rightarrow> rvalue \<Rightarrow> string \<times> string \<Rightarrow> bool" where
  "rule_holds fs v = (\<lambda>(rule, param).
     if rule = ''required'' then v \<noteq> RString []
     else if rule = ''eq'' then v = RString param
     else if rule = ''required_without'' then is_set fs param \<or> v \<noteq> RString []
     else if rule = ''required_with'' then is_set fs param \<longrightarrow> v \<noteq> RString []
     else if rule = ''excluded_with'' then is_set fs param \<longrightarrow> v = RString []
     else if rule = ''min'' then (case v of RSlice vs \<Rightarrow> (\<exists>n \<le> length vs. param = dec n) | _ \<Rightarrow> True)
     else True)"

text \<open>
  The rules that do not hold, with the namespace of their field: a struct is entered by itself and
  through a pointer, the elements of a slice only after \<^verbatim>\<open>dive\<close>, a null pointer never.
\<close>

fun value_errors :: "string \<Rightarrow> bool \<Rightarrow> rvalue \<Rightarrow> field_error list"
and elem_errors :: "string \<Rightarrow> nat \<Rightarrow> rvalue list \<Rightarrow> field_error list"
and struct_errors :: "string \<Rightarrow> rfield list \<Rightarrow> rfield list \<Rightarrow> field_error list" where
  "value_errors ns dive (RStruct fs) = struct_errors ns fs fs"
| "value_errors ns dive (RPtr (Some v)) = value_errors ns dive v"
| "value_errors ns dive (RSlice vs) = (if dive then elem_errors ns 0 vs else [])"
| "value_errors ns dive (RPtr None) = []"
| "value_errors ns dive (RString s) = []"
| "value_errors ns dive ROpaque = []"
| "elem_errors ns i [] = []"
| "elem_errors ns i (v # vs) = value_errors (ns @ ''['' @ dec i @ '']'') False v @ elem_errors ns (Suc i) vs"
| "struct_errors ns all [] = []"
| "struct_errors ns all (RField n y tag v # fs) =
     (let name = ns @ ''.'' @ field_name n y in
      map (\<lambda>(rule, param). \<lparr>fe_Namespace = name, fe_Tag = rule, fe_Param = param\<rparr>)
        (filter (\<lambda>r. \<not> rule_holds all v r) (rules_of tag)) @
      value_errors name ((''dive'', []) \<in> set (rules_of tag)) v @
      struct_errors ns all fs)"

text \<open>
  The structs this reading of the tags is about: the rules above, on the kinds of values they are
  described for.
\<close>

definition is_text :: "rvalue \<Rightarrow> bool" where
  "is_text v = (case v of RString s \<Rightarrow> True | _ \<Rightarrow> False)"

definition rule_known :: "rfield list \<Rightarrow> rvalue \<Rightarrow> string \<times> string \<Rightarrow> bool" where
  "rule_known fs v = (\<lambda>(rule, param).
     if rule = ''required'' then is_text v \<or> (case v of RStruct fs \<Rightarrow> True | _ \<Rightarrow> False)
     else if rule = ''eq'' then is_text v
     else if rule \<in> {''required_without'', ''required_with'', ''excluded_with''}
       then is_text v \<and> list_ex (\<lambda>f. rf_Name f = param \<and> is_text (rf_Value f)) fs
     else rule \<in> {''min'', ''dive''} \<and> (case v of RSlice vs \<Rightarrow> True | _ \<Rightarrow> False))"

fun supported :: "rvalue \<Rightarrow> bool"
and supported_fields :: "rfield list \<Rightarrow> rfield list \<Rightarrow> bool"
and supported_elems :: "rvalue list \<Rightarrow> bool" where
  "supported (RStruct fs) = supported_fields fs fs"
| "supported (RPtr (Some v)) = supported v"
| "supported (RSlice vs) = supported_elems vs"
| "supported (RPtr None) = True"
| "supported (RString s) = True"
| "supported ROpaque = True"
| "supported_fields all [] = True"
| "supported_fields all (RField n y tag v # fs) =
     (list_all (rule_known all v) (rules_of tag) \<and> supported v \<and> supported_fields all fs)"
| "supported_elems [] = True"
| "supported_elems (v # vs) = (supported v \<and> supported_elems vs)"

text \<open>
  What \<^verbatim>\<open>validator.Validate.Struct\<close> promises: no error exactly when every rule holds; otherwise
  validation errors, at least one, each for a rule that does not hold. (It stops at the first such
  rule of a field.) Its other error is for arguments that are not structs.
\<close>

locale tag_validator =
  fixes validate :: "string \<Rightarrow> rfield list \<Rightarrow> (go_error + field_error list) option"
  assumes accepts: "supported_fields fs fs \<Longrightarrow> validate ty fs = None \<longleftrightarrow> struct_errors ty fs fs = []"
    and reports: "supported_fields fs fs \<Longrightarrow> validate ty fs = Some (Inr errs) \<Longrightarrow>
      errs \<noteq> [] \<and> set errs \<subseteq> set (struct_errors ty fs fs)"
    and structs: "supported_fields fs fs \<Longrightarrow> validate ty fs \<noteq> Some (Inl e)"
begin

lemma verdict:
  assumes "supported_fields fs fs"
  obtains (ok) "validate ty fs = None" "struct_errors ty fs fs = []"
  | (bad) errs where "validate ty fs = Some (Inr errs)" "errs \<noteq> []" "set errs \<subseteq> set (struct_errors ty fs fs)"
      "struct_errors ty fs fs \<noteq> []"
proof (cases "validate ty fs")
  case None
  then show ?thesis using ok accepts [OF assms] by blast
next
  case (Some r)
  then obtain errs where "validate ty fs = Some (Inr errs)" using structs [OF assms] by (cases r) auto
  then show ?thesis using bad reports [OF assms] accepts [OF assms, of ty] by (metis option.distinct(1))
qed

end

text \<open>The library reports the first failing rule of every field.\<close>

fun first_per_field :: "string \<Rightarrow> field_error list \<Rightarrow> field_error list" where
  "first_per_field prev [] = []"
| "first_per_field prev (e # es) =
     (if fe_Namespace e = prev then first_per_field prev es else e # first_per_field (fe_Namespace e) es)"

definition first_errors :: "string \<Rightarrow> rfield list \<Rightarrow> (go_error + field_error list) option" where
  "first_errors ty fs =
     (case struct_errors ty fs fs of [] \<Rightarrow> None | e # es \<Rightarrow> Some (Inr (e # first_per_field (fe_Namespace e) es)))"

lemma first_per_field_subset: "set (first_per_field n es) \<subseteq> set es"
  by (induction es arbitrary: n) (auto split: if_splits)

interpretation first_errors: tag_validator first_errors
proof (unfold_locales, goal_cases)
  case (2 fs ty errs)
  then show ?case using first_per_field_subset by (fastforce simp: first_errors_def split: list.splits)
qed (auto simp: first_errors_def split: list.splits)

section \<open>Well-typed cases\<close>

text \<open>
  The type of a case, step by step: a target names either an object or a kind with a selector.
\<close>

definition wf_target :: "target \<Rightarrow> bool" where
  "wf_target t = (if t_Object t = [] then t_Kind t \<noteq> [] \<and> t_LabelSelector t \<noteq> []
                  else t_Kind t = [] \<and> t_LabelSelector t = [])"

definition wf_step :: "step \<Rightarrow> bool" where
  "wf_step st = (st_Name st \<noteq> [] \<and>
     pred_option (\<lambda>a. en_Object a \<noteq> []) (st_Ensure st) \<and>
     pred_option (\<lambda>a. wf_target (ao_Target (pa_Options a))) (st_Patch st) \<and>
     pred_option (\<lambda>a. wf_target (ao_Target (wa_Options a))) (st_Wait st) \<and>
     pred_option (\<lambda>a. wf_target (ao_Target (as_Options a)) \<and> as_Conditions a \<noteq> []) (st_Assert st) \<and>
     pred_option (\<lambda>a. wf_target (ao_Target (lg_Options a)) \<and> lg_Contains a \<noteq> []) (st_Logs st) \<and>
     pred_option (\<lambda>a. wf_target (ao_Target (ex_Options a)) \<and> ex_Command a \<noteq> []) (st_Exec st) \<and>
     pred_option (\<lambda>a. wf_target (ao_Target (de_Options a))) (st_Delete st))"

definition all_steps :: "case_file \<Rightarrow> step option list" where
  "all_steps tc = hk_BeforeEach (cf_Hooks tc) @ hk_AfterEach (cf_Hooks tc) @ cf_Steps tc"

definition wf_case :: "case_file \<Rightarrow> bool" where
  "wf_case tc = (cf_Version tc = ''v1'' \<and> cf_Name tc \<noteq> [] \<and> list_all (pred_option wf_step) (all_steps tc))"

lemmas rule_evaluation = rules_of_def rule_of_def rule_holds_def is_set_def

lemma rules_of_none [simp]: "rules_of [] = []"
  by (simp add: rules_of_def)

lemma target_errors [simp]: "value_errors ns d (reflect_target t) = [] \<longleftrightarrow> wf_target t"
  by (auto simp: reflect_target_def rule_evaluation wf_target_def Let_def)

lemma target_no_text [simp]: "reflect_target t \<noteq> RString s"
  by (simp add: reflect_target_def)

lemma options_errors [simp]:
  "struct_errors ns all (reflect_options a # fs) = [] \<longleftrightarrow> wf_target (ao_Target a) \<and> struct_errors ns all fs = []"
  by (simp add: reflect_options_def Let_def rule_evaluation)

lemma dec_nonempty: "dec n \<noteq> []"
  by (subst dec.simps) simp

lemma dec_one: "dec n = ''1'' \<longleftrightarrow> n = 1"
proof (cases "n < 10")
  case True
  then have "char_of (48 + n) = CHR ''1'' \<longleftrightarrow> 48 + n = (49 :: nat)"
    using char_of_eq_iff [of "48 + n" "CHR ''1''"] by (simp add: take_bit_eq_mod)
  then show ?thesis using True by (simp add: dec.simps [of n])
next
  case False
  then show ?thesis using dec_nonempty [of "n div 10"] by (simp add: dec.simps [of n] append_eq_Cons_conv)
qed

lemma pointer_errors [simp]:
  "value_errors ns d (RPtr (map_option f x)) = [] \<longleftrightarrow> pred_option (\<lambda>a. value_errors ns d (f a) = []) x"
  by (cases x) simp_all

lemma ensure_errors [simp]: "value_errors ns d (reflect_ensure a) = [] \<longleftrightarrow> en_Object a \<noteq> []"
  by (simp add: reflect_ensure_def Let_def rule_evaluation)

lemma simple_action_errors [simp]:
  "value_errors ns d (reflect_patch p) = [] \<longleftrightarrow> wf_target (ao_Target (pa_Options p))"
  "value_errors ns d (reflect_wait w) = [] \<longleftrightarrow> wf_target (ao_Target (wa_Options w))"
  "value_errors ns d (reflect_delete e) = [] \<longleftrightarrow> wf_target (ao_Target (de_Options e))"
  by (simp_all add: reflect_patch_def reflect_wait_def reflect_delete_def Let_def)

lemma logs_errors [simp]:
  "value_errors ns d (reflect_logs a) = [] \<longleftrightarrow> wf_target (ao_Target (lg_Options a)) \<and> lg_Contains a \<noteq> []"
  by (simp add: reflect_logs_def Let_def rule_evaluation)

lemma min_one: "rule_holds fs (RSlice vs) (''min'', ''1'') \<longleftrightarrow> vs \<noteq> []"
proof -
  have "''1'' = dec n \<longleftrightarrow> n = 1" for n
    using dec_one [of n] by metis
  then show ?thesis by (cases vs) (auto simp: rule_holds_def)
qed

lemma assert_errors [simp]:
  "value_errors ns d (reflect_assert a) = [] \<longleftrightarrow> wf_target (ao_Target (as_Options a)) \<and> as_Conditions a \<noteq> []"
  by (simp add: reflect_assert_def Let_def rules_of_def rule_of_def min_one)

lemma exec_errors [simp]:
  "value_errors ns d (reflect_exec a) = [] \<longleftrightarrow> wf_target (ao_Target (ex_Options a)) \<and> ex_Command a \<noteq> []"
  by (simp add: reflect_exec_def Let_def rules_of_def rule_of_def min_one)

lemma step_errors [simp]: "value_errors ns d (reflect_step st) = [] \<longleftrightarrow> wf_step st"
  by (simp add: reflect_step_def Let_def rule_evaluation wf_step_def)

lemma steps_errors:
  "elem_errors ns i (map (\<lambda>st. RPtr (map_option reflect_step st)) sts) = [] \<longleftrightarrow> list_all (pred_option wf_step) sts"
  by (induction sts arbitrary: i) simp_all

lemma dive_steps [simp]:
  "value_errors ns True (reflect_steps sts) = [] \<longleftrightarrow> list_all (pred_option wf_step) sts"
  by (simp add: reflect_steps_def steps_errors)

lemma case_errors: "struct_errors ns (reflect_case tc) (reflect_case tc) = [] \<longleftrightarrow> wf_case tc"
  by (auto simp: reflect_case_def reflect_hooks_def Let_def rule_evaluation wf_case_def all_steps_def)

section \<open>What parsing a case promises\<close>

text \<open>The rules of the source are within the documentation.\<close>

lemmas support_evaluation = rules_of_def rule_of_def rule_known_def is_text_def

lemma target_supported [simp]: "supported (reflect_target t)"
  by (simp add: reflect_target_def support_evaluation)

lemma options_supported [simp]:
  "supported_fields all (reflect_options a # fs) \<longleftrightarrow> supported_fields all fs"
  using target_supported [of "ao_Target a"]
  by (simp add: reflect_options_def support_evaluation reflect_target_def)

lemma texts_supported [simp]: "supported_elems (map RString ss)"
  by (induction ss) simp_all

lemma pointer_supported [simp]: "(\<And>a. supported (f a)) \<Longrightarrow> supported (RPtr (map_option f x))"
  by (cases x) simp_all

lemma actions_supported [simp]:
  "supported (reflect_ensure e)" "supported (reflect_patch p)" "supported (reflect_wait w)" "supported (reflect_assert a)"
  "supported (reflect_logs l)" "supported (reflect_exec x)" "supported (reflect_delete d)"
  by (simp_all add: reflect_ensure_def reflect_patch_def reflect_wait_def reflect_assert_def reflect_logs_def
      reflect_exec_def reflect_delete_def support_evaluation)

lemma step_supported [simp]: "supported (reflect_step st)"
  by (simp add: reflect_step_def support_evaluation)

lemma steps_supported: "supported_elems (map (\<lambda>st. RPtr (map_option reflect_step st)) sts)"
  by (induction sts) simp_all

lemma case_supported: "supported_fields (reflect_case tc) (reflect_case tc)"
  by (simp add: reflect_case_def reflect_hooks_def reflect_steps_def support_evaluation steps_supported)

context tag_validator
begin

text \<open>A case is accepted exactly when it is well-typed; otherwise the error names broken rules.\<close>

lemma parse_verdict:
  assumes io: "io_validate io = (\<lambda>tc. validate ''Case'' (reflect_case tc))"
    and read: "io_read io tr path = Inr content" and decoded: "io_unmarshal io content = Inr tc"
  shows "if wf_case tc then parseCaseFile io tr path = Inr (tc\<lparr>cf_Path := path\<rparr>)
         else \<exists>errs. errs \<noteq> [] \<and> set errs \<subseteq> set (struct_errors ''Case'' (reflect_case tc) (reflect_case tc)) \<and>
           parseCaseFile io tr path = Inl (Opaque (''invalid case: '' @ formatValidationErrors errs))"
proof (rule verdict [OF case_supported [of tc], of "''Case''"], goal_cases ok bad)
  case ok
  then show ?thesis using assms by (simp add: parseCaseFile_def case_errors)
next
  case (bad errs)
  then show ?thesis using assms by (auto simp: parseCaseFile_def case_errors)
qed

end

section \<open>What running a case gains\<close>

definition pod_targets :: "step \<Rightarrow> target list" where
  "pod_targets st =
     (case st_Logs st of None \<Rightarrow> [] | Some a \<Rightarrow> [ao_Target (lg_Options a)]) @
     (case st_Exec st of None \<Rightarrow> [] | Some a \<Rightarrow> [ao_Target (ex_Options a)])"

lemma pod_targets_wf: "wf_step st \<Longrightarrow> t \<in> set (pod_targets st) \<Longrightarrow> wf_target t"
  by (cases "st_Logs st"; cases "st_Exec st") (auto simp: wf_step_def pod_targets_def)

text \<open>A well-typed target that could be rendered is one the service accepts.\<close>

lemma wf_target_valid:
  assumes "wf_target t" and "targetConf E s t objects = Inr conf"
  shows "validate_target (podTarget conf t) = None"
  using assms
  by (auto simp: wf_target_def targetConf_def actionConf_def podTarget_def validate_target_def split: if_splits sum.splits)

text \<open>
  The rules do not tell the actions apart: a selector is accepted for a wait as well, and the run
  fails on the empty object name.
\<close>

lemma selector_wait_fails:
  assumes "t_Object (ao_Target (wa_Options a)) = []" and "map_of objects [] = None"
  shows "\<exists>r e k'. runWait E c s objects a k = ((r, Some e), k') \<and> errors_is e ErrObjectNotInMap"
  using assms
  by (cases k) (simp add: runWait_def render_def failedActionReport_def Let_def wrap_def action_finishReport_def case_prod_beta)

end
