(* ===== verification/Durations.thy ===== *)
theory Durations
  imports Prelude "HOL-Library.Word"
begin

text \<open>
  Durations in reports (\<^verbatim>\<open>src/internal/engine/duration.go\<close>): a duration is a 64-bit count of
  nanoseconds, written as a text such as \<^verbatim>\<open>1m30s\<close> and read back.

  The text form is that of \<^verbatim>\<open>time.Duration.String\<close> and \<^verbatim>\<open>time.ParseDuration\<close>, modelled after the
  library: unsigned 64-bit numbers are natural numbers with the overflow checks and the
  wrap-around written out, and a fraction is scaled in double precision, with rounding to nearest
  even. JSON strings are left to the encoder and decoder of \<^verbatim>\<open>encoding/json\<close>, with the contract
  \<open>json_strings\<close>.
\<close>

section \<open>Double precision\<close>

text \<open>A non-negative double is a fraction; rounding keeps 53 bits. Subnormal numbers do not occur here.\<close>

fun bits :: "nat \<Rightarrow> nat" where
  "bits n = (if n = 0 then 0 else Suc (bits (n div 2)))"

declare bits.simps [simp del]

definition half_even :: "nat \<Rightarrow> nat \<Rightarrow> nat" where
  "half_even a b =
     (let m = a div b; r = a mod b in if 2 * r < b \<or> 2 * r = b \<and> even m then m else m + 1)"

definition to_float :: "nat \<times> nat \<Rightarrow> nat \<times> nat" where
  "to_float = (\<lambda>(p, q).
     if p = 0 then (0, 1)
     else let k = int (bits p) - int (bits q);
              fl = (if q * 2 ^ nat k \<le> p * 2 ^ nat (- k) then k else k - 1);
              e = fl - 52 in
       (half_even (p * 2 ^ nat (- e)) (q * 2 ^ nat e) * 2 ^ nat e, 2 ^ nat (- e)))"

definition float_mult :: "nat \<times> nat \<Rightarrow> nat \<times> nat \<Rightarrow> nat \<times> nat" where
  "float_mult x y = to_float (fst x * fst y, snd x * snd y)"

definition float_div :: "nat \<times> nat \<Rightarrow> nat \<times> nat \<Rightarrow> nat \<times> nat" where
  "float_div x y = to_float (fst x * snd y, snd x * fst y)"

definition float_trunc :: "nat \<times> nat \<Rightarrow> nat" where
  "float_trunc x = fst x div snd x"

text \<open>\<^verbatim>\<open>uint64(float64(f) * (float64(unit) / scale))\<close>; the scale is a power of ten that a double holds exactly.\<close>

definition scale_fraction :: "nat \<Rightarrow> nat \<Rightarrow> nat \<Rightarrow> nat" where
  "scale_fraction f unit scale =
     float_trunc (float_mult (to_float (f, 1)) (float_div (to_float (unit, 1)) (to_float (scale, 1))))"

section \<open>Formatting\<close>

definition digit_char :: "nat \<Rightarrow> char" where
  "digit_char n = char_of (48 + n)"

text \<open>\<^verbatim>\<open>fmtFrac\<close>: digits from the right, without trailing zeros; the text in front of what is there.\<close>

fun fmtFrac :: "nat \<Rightarrow> nat \<Rightarrow> bool \<Rightarrow> string \<Rightarrow> string \<times> nat" where
  "fmtFrac 0 v print buf = (if print then CHR ''.'' # buf else buf, v)"
| "fmtFrac (Suc prec) v print buf =
     (let digit = v mod 10; print = (print \<or> digit \<noteq> 0) in
      fmtFrac prec (v div 10) print (if print then digit_char digit # buf else buf))"

definition micro_sign :: string where
  "micro_sign = [CHR 0xC2, CHR 0xB5]"

definition format_small :: "nat \<Rightarrow> string" where
  "format_small u =
     (if u = 0 then ''0s''
      else case (if u < 1000 then (0, ''ns'') else if u < 1000000 then (3, micro_sign @ ''s'') else (6, ''ms'')) of
        (prec, ending) \<Rightarrow> (case fmtFrac prec u False [] of (frac, u) \<Rightarrow> dec u @ frac @ ending))"

definition format_large :: "nat \<Rightarrow> string" where
  "format_large u =
     (case fmtFrac 9 u False [] of
        (frac, u) \<Rightarrow>
          let buf = dec (u mod 60) @ frac @ ''s''; u = u div 60 in
          if 0 < u then
            let buf = dec (u mod 60) @ ''m'' @ buf; u = u div 60 in
            if 0 < u then dec u @ ''h'' @ buf else buf
          else buf)"

definition Duration_String :: "64 word \<Rightarrow> string" where
  "Duration_String d =
     (let neg = (d <s 0); u = unat (if neg then - d else d);
          buf = (if u < 1000000000 then format_small u else format_large u) in
      if neg then CHR ''-'' # buf else buf)"

section \<open>Parsing\<close>

definition is_digit :: "char \<Rightarrow> bool" where
  "is_digit c = (of_char c \<in> {48..57 :: nat})"

definition digit_val :: "char \<Rightarrow> nat" where
  "digit_val c = of_char c - 48"

fun leadingInt :: "nat \<Rightarrow> string \<Rightarrow> (nat \<times> string) option" where
  "leadingInt x [] = Some (x, [])"
| "leadingInt x (c # s) =
     (if \<not> is_digit c then Some (x, c # s)
      else if 2 ^ 63 div 10 < x then None
      else if 2 ^ 63 < x * 10 + digit_val c then None
      else leadingInt (x * 10 + digit_val c) s)"

fun leadingFraction :: "nat \<Rightarrow> nat \<Rightarrow> bool \<Rightarrow> string \<Rightarrow> nat \<times> nat \<times> string" where
  "leadingFraction x scale overflow [] = (x, scale, [])"
| "leadingFraction x scale overflow (c # s) =
     (if \<not> is_digit c then (x, scale, c # s)
      else if overflow then leadingFraction x scale overflow s
      else if (2 ^ 63 - 1) div 10 < x then leadingFraction x scale True s
      else if 2 ^ 63 < x * 10 + digit_val c then leadingFraction x scale True s
      else leadingFraction (x * 10 + digit_val c) (scale * 10) False s)"

definition unitMap :: "(string \<times> nat) list" where
  "unitMap = [(''ns'', 1), (''us'', 1000), (micro_sign @ ''s'', 1000), ([CHR 0xCE, CHR 0xBC] @ ''s'', 1000),
     (''ms'', 1000000), (''s'', 1000000000), (''m'', 60 * 1000000000), (''h'', 3600 * 1000000000)]"

text \<open>The library's own quoting: everything that is not printable ASCII as bytes in hexadecimal.\<close>

definition hex_digit :: "nat \<Rightarrow> char" where
  "hex_digit n = (if n < 10 then char_of (48 + n) else char_of (87 + n))"

definition time_quote :: "string \<Rightarrow> string" where
  "time_quote s = [CHR 0x22] @ concat (map (\<lambda>c.
     let n = of_char c :: nat in
     if 128 \<le> n \<or> n < 32 then [CHR 0x5C, CHR ''x'', hex_digit (n div 16), hex_digit (n mod 16)]
     else if c = CHR 0x22 \<or> c = CHR 0x5C then [CHR 0x5C, c] else [c]) s) @ [CHR 0x22]"

definition invalid_duration :: "string \<Rightarrow> go_error" where
  "invalid_duration orig = Opaque (''time: invalid duration '' @ time_quote orig)"

text \<open>One field: the number, the optional fraction, the unit; the value in nanoseconds and the rest.\<close>

definition unit_char :: "char \<Rightarrow> bool" where
  "unit_char c = (c \<noteq> CHR ''.'' \<and> \<not> is_digit c)"

definition fraction_part :: "string \<Rightarrow> nat \<times> nat \<times> bool \<times> string" where
  "fraction_part s =
     (case s of
        c # s' \<Rightarrow>
          if c = CHR ''.'' then (case leadingFraction 0 1 False s' of (f, scale, rem) \<Rightarrow> (f, scale, length s' \<noteq> length rem, rem))
          else (0, 1, False, s)
      | [] \<Rightarrow> (0, 1, False, []))"

definition parse_unit :: "string \<Rightarrow> nat \<Rightarrow> nat \<Rightarrow> nat \<Rightarrow> string \<Rightarrow> go_error + nat \<times> string" where
  "parse_unit orig v f scale s =
     (let u = takeWhile unit_char s; rem = dropWhile unit_char s in
      if u = [] then Inl (Opaque (''time: missing unit in duration '' @ time_quote orig))
      else case map_of unitMap u of
        None \<Rightarrow> Inl (Opaque (msg [''time: unknown unit '', time_quote u, '' in duration '', time_quote orig]))
      | Some unit \<Rightarrow>
          if 2 ^ 63 div unit < v then Inl (invalid_duration orig)
          else
            let v = (v * unit) mod 2 ^ 64;
                v' = (if 0 < f then (v + scale_fraction f unit scale) mod 2 ^ 64 else v) in
            if 0 < f \<and> 2 ^ 63 < v' then Inl (invalid_duration orig) else Inr (v', rem))"

definition parse_field :: "string \<Rightarrow> string \<Rightarrow> go_error + nat \<times> string" where
  "parse_field orig s =
     (if s = [] \<or> hd s \<noteq> CHR ''.'' \<and> \<not> is_digit (hd s) then Inl (invalid_duration orig)
      else case leadingInt 0 s of
        None \<Rightarrow> Inl (invalid_duration orig)
      | Some (v, s1) \<Rightarrow>
          (case fraction_part s1 of
             (f, scale, post, s2) \<Rightarrow>
               if length s = length s1 \<and> \<not> post then Inl (invalid_duration orig)
               else parse_unit orig v f scale s2))"

lemma leadingInt_length: "leadingInt x s = Some (v, r) \<Longrightarrow> length r \<le> length s"
  by (induction x s rule: leadingInt.induct) (auto split: if_splits)

lemma leadingFraction_length: "leadingFraction x sc ov s = (f, sc', r) \<Longrightarrow> length r \<le> length s"
  by (induction x sc ov s rule: leadingFraction.induct) (auto split: if_splits)

lemma fraction_part_length: "fraction_part s = (f, sc, post, r) \<Longrightarrow> length r \<le> length s"
  by (cases s) (auto simp: fraction_part_def le_SucI split: if_splits prod.splits dest!: leadingFraction_length)

lemma parse_unit_length: "parse_unit orig v f sc s = Inr (v', r) \<Longrightarrow> length r < length s"
  by (cases s) (auto simp: parse_unit_def Let_def le_imp_less_Suc length_dropWhile_le split: if_splits option.splits)

lemma parse_field_length: "parse_field orig s = Inr (v, r) \<Longrightarrow> length r < length s"
  by (fastforce simp: parse_field_def split: if_splits option.splits prod.splits
      dest: leadingInt_length fraction_part_length parse_unit_length)

function parse_fields :: "string \<Rightarrow> string \<Rightarrow> nat \<Rightarrow> go_error + nat" where
  "parse_fields orig s d =
     (if s = [] then Inr d
      else case parse_field orig s of
        Inl e \<Rightarrow> Inl e
      | Inr (v, rem) \<Rightarrow>
          let d = (d + v) mod 2 ^ 64 in
          if 2 ^ 63 < d then Inl (invalid_duration orig) else parse_fields orig rem d)"
  by pat_completeness auto
termination
  by (relation "measure (\<lambda>(orig, s, d). length s)") (auto dest: parse_field_length)

declare parse_fields.simps [simp del]

definition ParseDuration :: "string \<Rightarrow> go_error + 64 word" where
  "ParseDuration orig =
     (let signed = (orig \<noteq> [] \<and> hd orig \<in> {CHR ''-'', CHR ''+''});
          neg = (signed \<and> hd orig = CHR ''-'');
          s = (if signed then tl orig else orig) in
      if s = ''0'' then Inr 0
      else if s = [] then Inl (invalid_duration orig)
      else case parse_fields orig s 0 of
        Inl e \<Rightarrow> Inl e
      | Inr d \<Rightarrow>
          if neg then Inr (- of_nat d)
          else if 2 ^ 63 - 1 < d then Inl (invalid_duration orig) else Inr (of_nat d))"

section \<open>JSON\<close>

definition MarshalJSON :: "(string \<Rightarrow> go_error + string) \<Rightarrow> 64 word \<Rightarrow> go_error + string" where
  "MarshalJSON encode d = encode (Duration_String d)"

definition UnmarshalJSON :: "(string \<Rightarrow> go_error + string) \<Rightarrow> string \<Rightarrow> go_error + 64 word" where
  "UnmarshalJSON decode data =
     (case decode data of
        Inl e \<Rightarrow> Inl (wrap ''unmarshal duration'' e)
      | Inr s \<Rightarrow>
          (case ParseDuration s of
             Inl e \<Rightarrow> Inl (wrap (msg [''parse duration '', go_quote s]) e)
           | Inr parsed \<Rightarrow> Inr parsed))"

end
