(* ===== verification/Duration_Roundtrip.thy ===== *)
theory Duration_Roundtrip
  imports Durations
begin

text \<open>
  Reading back what was written: every duration, also the smallest one, which has no positive
  counterpart. The parts are the digits of a number, the digits of a fraction, the exactness of the
  floating-point scaling on the fractions that are written, one field, and the sum of the fields.
\<close>

section \<open>Digits\<close>

lemma digit_simps [simp]:
  assumes "n < 10"
  shows "is_digit (char_of (48 + n))" "digit_val (char_of (48 + n)) = n" "is_digit (digit_char n)" "digit_val (digit_char n) = n"
  using assms by (simp_all add: is_digit_def digit_val_def digit_char_def)

lemma leadingInt_digit:
  assumes "x * 10 + n \<le> 2 ^ 63" and "n < 10"
  shows "leadingInt x (char_of (48 + n) # s) = leadingInt (x * 10 + n) s"
proof -
  have "\<not> 2 ^ 63 div 10 < x" using assms(1) by (simp add: less_mult_imp_div_less linorder_not_less)
  then show ?thesis using assms by simp
qed

lemma leadingInt_dec: "v \<le> 2 ^ 63 \<Longrightarrow> leadingInt 0 (dec v @ s) = leadingInt v s"
proof (induction v arbitrary: s rule: dec.induct)
  case (1 v)
  show ?case
  proof (cases "v < 10")
    case True
    then show ?thesis using leadingInt_digit [of 0 v s] by (simp add: dec.simps [of v])
  next
    case False
    have "leadingInt 0 (dec v @ s) = leadingInt 0 (dec (v div 10) @ char_of (48 + v mod 10) # s)"
      using False by (simp add: dec.simps [of v])
    also have "\<dots> = leadingInt (v div 10) (char_of (48 + v mod 10) # s)" using 1 False by simp
    also have "\<dots> = leadingInt v s" using leadingInt_digit [of "v div 10" "v mod 10" s] "1.prems" by simp
    finally show ?thesis .
  qed
qed

lemma dec_starts: "\<exists>c s. dec n = c # s \<and> is_digit c"
proof (induction n rule: dec.induct)
  case (1 n)
  then show ?case by (cases "n < 10") (auto simp: dec.simps [of n])
qed

section \<open>Fractions\<close>

fun pad :: "nat \<Rightarrow> nat \<Rightarrow> string" where
  "pad 0 r = []"
| "pad (Suc n) r = pad n (r div 10) @ [digit_char (r mod 10)]"

lemma fmtFrac_on: "fmtFrac n v True buf = (CHR ''.'' # pad n v @ buf, v div 10 ^ n)"
  by (induction n arbitrary: v buf) (simp_all add: Let_def div_mult2_eq)

lemma fmtFrac_off:
  "\<exists>k \<le> n. fmtFrac n v False [] = (if v mod 10 ^ n = 0 then [] else CHR ''.'' # pad k (v div 10 ^ (n - k)), v div 10 ^ n) \<and>
     10 ^ (n - k) dvd v"
proof (induction n arbitrary: v)
  case (Suc n)
  have m: "v mod 10 ^ Suc n = 10 * (v div 10 mod 10 ^ n) + v mod 10" by (simp add: mod_mult2_eq)
  show ?case
  proof (cases "v mod 10 = 0")
    case True
    from Suc [of "v div 10"] obtain k where k: "k \<le> n" "10 ^ (n - k) dvd v div 10"
      "fmtFrac n (v div 10) False [] = (if v div 10 mod 10 ^ n = 0 then [] else CHR ''.'' # pad k (v div 10 div 10 ^ (n - k)), v div 10 div 10 ^ n)"
      by blast
    have "10 ^ (Suc n - k) dvd v" using k(1,2) True by (metis Suc_diff_le dvd_div_iff_mult dvd_eq_mod_eq_0 mult.commute power_Suc zero_neq_numeral)
    then show ?thesis
      using k True m by (intro exI [of _ k]) (simp add: Let_def div_mult2_eq Suc_diff_le)
  next
    case False
    then have "v mod 10 ^ Suc n \<noteq> 0" using m by simp
    then show ?thesis using False by (intro exI [of _ "Suc n"]) (simp add: Let_def fmtFrac_on div_mult2_eq)
  qed
qed simp

lemma leadingFraction_pad:
  "k \<le> 18 \<Longrightarrow> leadingFraction 0 1 False (pad k r @ s) = leadingFraction (r mod 10 ^ k) (10 ^ k) False s"
proof (induction k arbitrary: r s)
  case (Suc k)
  let ?x = "r div 10 mod 10 ^ k"
  have "?x < 10 ^ k" by simp
  also have "(10 :: nat) ^ k \<le> 10 ^ 17" using Suc.prems by (intro power_increasing) simp_all
  finally have small: "?x < 10 ^ 17" .
  have d: "r mod 10 < 10" by simp
  then have "\<not> 2 ^ 63 < ?x * 10 + r mod 10" "\<not> (2 ^ 63 - 1) div 10 < ?x" using small by simp_all
  then have "leadingFraction ?x (10 ^ k) False (digit_char (r mod 10) # s) =
      leadingFraction (?x * 10 + r mod 10) (10 ^ k * 10) False s"
    using digit_simps(3,4) [OF d] by (simp only: leadingFraction.simps if_False if_True simp_thms)
  moreover have "?x * 10 + r mod 10 = r mod 10 ^ Suc k" by (simp add: mod_mult2_eq)
  ultimately show ?case using Suc.IH [of "r div 10" "digit_char (r mod 10) # s"] Suc.prems by (simp add: mult.commute)
qed simp

section \<open>Exact scaling\<close>

lemma bits_bounds: "0 < n \<Longrightarrow> 2 ^ (bits n - 1) \<le> n \<and> n < 2 ^ bits n \<and> 0 < bits n"
proof (induction n rule: bits.induct)
  case (1 n)
  show ?case
  proof (cases "n div 2 = 0")
    case True
    then have "n = 1" using "1.prems" by linarith
    then show ?thesis by (simp add: bits.simps [of "Suc 0"] bits.simps [of 0])
  next
    case False
    then have IH: "2 ^ (bits (n div 2) - 1) \<le> n div 2" "n div 2 < 2 ^ bits (n div 2)" "0 < bits (n div 2)" using 1 by auto
    have b: "bits n = Suc (bits (n div 2))" using "1.prems" by (simp add: bits.simps [of n])
    have "2 * 2 ^ (bits (n div 2) - 1) = (2 :: nat) ^ bits (n div 2)" using IH(3) by (metis Suc_pred' power_Suc)
    then show ?thesis using IH b by simp linarith
  qed
qed

lemma half_even_exact: "0 < b \<Longrightarrow> half_even (m * b) b = m"
  by (simp add: half_even_def)

lemma to_float_exact:
  assumes "n < 2 ^ 53" and "0 < q"
  shows "\<exists>t. to_float (n * q, q) = (n * 2 ^ t, 2 ^ t)"
proof (cases "n = 0")
  case True
  then show ?thesis by (intro exI [of _ 0]) (simp add: to_float_def)
next
  case False
  then have p: "0 < n * q" using assms(2) by simp
  let ?k = "int (bits (n * q)) - int (bits q)"
  define fl where "fl = (if q * 2 ^ nat ?k \<le> n * q * 2 ^ nat (- ?k) then ?k else ?k - 1)"
  have "fl \<le> 52"
  proof (rule ccontr)
    assume big: "\<not> fl \<le> 52"
    then have k: "53 \<le> ?k" unfolding fl_def by (simp split: if_splits)
    then have neg: "nat (- ?k) = 0" by simp
    show False
    proof (cases "q * 2 ^ nat ?k \<le> n * q")
      case True
      then have "2 ^ nat ?k \<le> n" using assms(2) by (simp add: mult.commute)
      moreover have "(2 :: nat) ^ 53 \<le> 2 ^ nat ?k" using k by (intro power_increasing) simp_all
      ultimately show False using assms(1) by simp
    next
      case False
      then have fl: "fl = ?k - 1" using neg by (simp add: fl_def)
      then have k54: "54 \<le> ?k" using big by simp
      then have e: "bits (n * q) - 1 = 53 + (bits (n * q) - 54 - bits q) + bits q" by linarith
      have "n * q < 2 ^ 53 * 2 ^ bits q"
        using assms(1) bits_bounds [OF assms(2)] by (intro mult_strict_mono) simp_all
      also have "\<dots> \<le> 2 ^ (bits (n * q) - 1)" unfolding e by (simp add: power_add)
      also have "\<dots> \<le> n * q" using bits_bounds [OF p] by blast
      finally show False by simp
    qed
  qed
  define t where "t = nat (- (fl - 52))"
  have "nat (fl - 52) = 0" using \<open>fl \<le> 52\<close> by simp
  then have "to_float (n * q, q) = (half_even (n * q * 2 ^ t) q, 2 ^ t)"
    using p by (simp add: to_float_def Let_def t_def fl_def)
  moreover have "half_even (n * q * 2 ^ t) q = n * 2 ^ t"
    using half_even_exact [OF assms(2), of "n * 2 ^ t"] by (simp add: ac_simps)
  ultimately show ?thesis by (intro exI [of _ t]) simp
qed

lemma to_float_nat: "n < 2 ^ 53 \<Longrightarrow> \<exists>t. to_float (n, 1) = (n * 2 ^ t, 2 ^ t)"
  using to_float_exact [of n 1] by simp

lemma scale_fraction_exact:
  assumes "unit = m * scale" and "unit < 2 ^ 53" and "0 < scale" and "scale < 2 ^ 53" and "f < 2 ^ 53" and "f * m < 2 ^ 53"
  shows "scale_fraction f unit scale = f * m"
proof -
  have "m \<le> unit" using assms(1,3) by simp
  then have m: "m < 2 ^ 53" using assms(2) by simp
  obtain a b c where a: "to_float (f, 1) = (f * 2 ^ a, 2 ^ a)" and b: "to_float (unit, 1) = (unit * 2 ^ b, 2 ^ b)"
    and c: "to_float (scale, 1) = (scale * 2 ^ c, 2 ^ c)" using to_float_nat assms(2,4,5) by metis
  have "0 < (2 :: nat) ^ b * (scale * 2 ^ c)" using assms(3) by simp
  then obtain t where "to_float (m * (2 ^ b * (scale * 2 ^ c)), 2 ^ b * (scale * 2 ^ c)) = (m * 2 ^ t, 2 ^ t)"
    using to_float_exact [OF m] by blast
  then have d: "float_div (to_float (unit, 1)) (to_float (scale, 1)) = (m * 2 ^ t, 2 ^ t)"
    unfolding b c by (simp add: float_div_def assms(1) ac_simps)
  have "0 < (2 :: nat) ^ a * 2 ^ t" by simp
  then obtain s where "to_float (f * m * (2 ^ a * 2 ^ t), 2 ^ a * 2 ^ t) = (f * m * 2 ^ s, 2 ^ s)"
    using to_float_exact [OF assms(6)] by blast
  then have "float_mult (to_float (f, 1)) (m * 2 ^ t, 2 ^ t) = (f * m * 2 ^ s, 2 ^ s)"
    unfolding a by (simp add: float_mult_def ac_simps)
  then show ?thesis unfolding scale_fraction_def d by (simp add: float_trunc_def)
qed

section \<open>Fields\<close>

text \<open>A unit ends where the next field begins.\<close>

definition unit_text :: "string \<Rightarrow> nat \<Rightarrow> string \<Rightarrow> bool" where
  "unit_text u unit rest = (map_of unitMap u = Some unit \<and> u \<noteq> [] \<and> list_all unit_char u \<and> 0 < unit \<and>
     (rest = [] \<or> is_digit (hd rest)))"

lemma unit_text_split:
  assumes "unit_text u unit rest"
  shows "takeWhile unit_char (u @ rest) = u" "dropWhile unit_char (u @ rest) = rest"
    "leadingInt v (u @ rest) = Some (v, u @ rest)" "leadingFraction f sc False (u @ rest) = (f, sc, u @ rest)"
    "fraction_part (u @ rest) = (0, 1, False, u @ rest)"
proof -
  have all: "\<forall>c \<in> set u. unit_char c" and rest: "rest = [] \<or> \<not> unit_char (hd rest)"
    using assms by (auto simp: unit_text_def list_all_iff unit_char_def)
  obtain c u' where u: "u = c # u'" using assms by (cases u) (auto simp: unit_text_def)
  have c: "\<not> is_digit c" "c \<noteq> CHR ''.''" using all by (simp_all add: u unit_char_def)
  have "takeWhile unit_char rest = []" "dropWhile unit_char rest = rest" using rest by (cases rest; auto)+
  then show "takeWhile unit_char (u @ rest) = u" "dropWhile unit_char (u @ rest) = rest"
    using all by (simp_all add: takeWhile_append dropWhile_append)
  show "leadingInt v (u @ rest) = Some (v, u @ rest)" "leadingFraction f sc False (u @ rest) = (f, sc, u @ rest)"
    "fraction_part (u @ rest) = (0, 1, False, u @ rest)" using c by (simp_all add: u fraction_part_def)
qed

lemma parse_field_dec:
  assumes "v \<le> 2 ^ 63" and "leadingInt v s = Some (v, s)" and "fraction_part s = (f, sc, post, s')"
  shows "parse_field orig (dec v @ s) = parse_unit orig v f sc s'"
proof -
  obtain c t where c: "dec v = c # t" "is_digit c" using dec_starts by blast
  have "leadingInt 0 (dec v @ s) = Some (v, s)" using leadingInt_dec [OF assms(1)] assms(2) by simp
  then show ?thesis using c assms(3) by (simp add: parse_field_def)
qed

lemma whole_field:
  assumes "unit_text u unit rest" and "v * unit \<le> 2 ^ 63"
  shows "parse_field orig (dec v @ u @ rest) = Inr (v * unit, rest)"
proof -
  have unit: "map_of unitMap u = Some unit" "u \<noteq> []" "0 < unit" using assms(1) by (simp_all add: unit_text_def)
  have le: "v \<le> 2 ^ 63 div unit" using assms(2) unit(3) by (simp add: less_eq_div_iff_mult_less_eq)
  then have "v \<le> 2 ^ 63" using div_le_dividend order_trans by blast
  with le assms(2) show ?thesis
    using unit unit_text_split [OF assms(1)]
    by (simp add: parse_field_dec parse_unit_def Let_def)
qed

lemma frac_field:
  assumes "unit_text u (10 ^ n) rest" and "n \<le> 9" and "fmtFrac n w False [] = (frac, w')" and "v * 10 ^ n + w mod 10 ^ n \<le> 2 ^ 63"
  shows "parse_field orig (dec v @ frac @ u @ rest) = Inr (v * 10 ^ n + w mod 10 ^ n, rest)"
proof -
  obtain k where k: "k \<le> n" "10 ^ (n - k) dvd w"
    and frac: "frac = (if w mod 10 ^ n = 0 then [] else CHR ''.'' # pad k (w div 10 ^ (n - k)))"
    using fmtFrac_off [of n w] assms(3) by auto
  show ?thesis
  proof (cases "w mod 10 ^ n = 0")
    case True
    then show ?thesis using whole_field [OF assms(1), of v orig] assms(4) frac by simp
  next
    case False
    let ?f = "w div 10 ^ (n - k) mod 10 ^ k"
    have split: "10 ^ n = (10 :: nat) ^ (n - k) * 10 ^ k" using k(1) by (simp flip: power_add)
    have f: "?f * 10 ^ (n - k) = w mod 10 ^ n"
      using k(2) by (auto simp: split dvd_def mult_mod_right ac_simps)
    then have pos: "0 < ?f" using False by (cases "?f = 0") auto
    have "(10 :: nat) ^ n \<le> 10 ^ 9" "(10 :: nat) ^ k \<le> 10 ^ 9" using k(1) assms(2) by (intro power_increasing; simp)+
    then have n: "(10 :: nat) ^ n < 2 ^ 53" and sc: "(10 :: nat) ^ k < 2 ^ 53" by simp_all
    have "?f < 10 ^ k" "w mod 10 ^ n < 10 ^ n" by simp_all
    with n sc have "?f < 2 ^ 53" "w mod 10 ^ n < 2 ^ 53" by linarith+
    then have "scale_fraction ?f (10 ^ n) (10 ^ k) = ?f * 10 ^ (n - k)"
      using n sc f by (intro scale_fraction_exact [OF split]) simp_all
    then have scaled: "scale_fraction ?f (10 ^ n) (10 ^ k) = w mod 10 ^ n" using f by simp
    have "leadingFraction 0 1 False (pad k (w div 10 ^ (n - k)) @ u @ rest) = (?f, 10 ^ k, u @ rest)"
      using leadingFraction_pad [of k] unit_text_split(4) [OF assms(1)] k(1) assms(2) by simp
    then have fp: "\<exists>post. fraction_part (frac @ u @ rest) = (?f, 10 ^ k, post, u @ rest)"
      using False frac by (simp add: fraction_part_def)
    have li: "leadingInt v (frac @ u @ rest) = Some (v, frac @ u @ rest)"
      using False frac by (simp add: is_digit_def)
    have unit: "map_of unitMap u = Some (10 ^ n)" "u \<noteq> []" using assms(1) by (simp_all add: unit_text_def)
    have "v * 10 ^ n \<le> 2 ^ 63" using assms(4) by simp
    then have le: "v \<le> 2 ^ 63 div 10 ^ n" by (simp add: less_eq_div_iff_mult_less_eq)
    then have "v \<le> 2 ^ 63" using div_le_dividend order_trans by blast
    with fp li have "parse_field orig (dec v @ frac @ u @ rest) = parse_unit orig v ?f (10 ^ k) (u @ rest)"
      using parse_field_dec by blast
    also have "\<dots> = Inr (v * 10 ^ n + w mod 10 ^ n, rest)"
      using unit unit_text_split(1,2) [OF assms(1)] le assms(4) pos scaled by (simp add: parse_unit_def Let_def)
    finally show ?thesis .
  qed
qed

lemma parse_fields_step:
  assumes "parse_field orig (dec v @ s) = Inr (x, rest)" and "d + x \<le> 2 ^ 63"
  shows "parse_fields orig (dec v @ s) d = parse_fields orig rest (d + x)"
  using assms dec_starts [of v] by (subst parse_fields.simps) auto

lemma parse_fields_Nil [simp]: "parse_fields orig [] d = Inr d"
  by (simp add: parse_fields.simps)

section \<open>Texts of durations\<close>

lemma units:
  "unit_text ''ns'' 1 []" "unit_text (micro_sign @ ''s'') (10 ^ 3) []" "unit_text ''ms'' (10 ^ 6) []" "unit_text ''s'' (10 ^ 9) []"
  by (simp_all add: unit_text_def unitMap_def unit_char_def is_digit_def micro_sign_def)

lemma units_then:
  "unit_text ''m'' 60000000000 (dec v @ s)" "unit_text ''h'' 3600000000000 (dec v @ s)"
  using dec_starts [of v] by (auto simp: unit_text_def unitMap_def unit_char_def is_digit_def micro_sign_def)

lemma parse_small:
  assumes "u < 1000000000"
  shows "parse_fields orig (format_small u) 0 = Inr u"
proof -
  have field: "parse_fields orig (dec (u div 10 ^ n) @ fst (fmtFrac n u False []) @ e) 0 = Inr u"
    if "unit_text e (10 ^ n) []" "n \<le> 9" for n e
  proof -
    obtain frac w where "fmtFrac n u False [] = (frac, w)" by fastforce
    moreover have "u div 10 ^ n * 10 ^ n + u mod 10 ^ n = u" by (rule div_mult_mod_eq)
    ultimately show ?thesis
      using frac_field [OF that, of u frac w "u div 10 ^ n" orig] assms by (simp only: fst_conv append_Nil2) (simp add: parse_fields_step)
  qed
  have q: "snd (fmtFrac n u False []) = u div 10 ^ n" for n using fmtFrac_off [of n u] by auto
  show ?thesis
  proof (cases "u = 0")
    case True
    have "dec 0 = ''0''" by code_simp
    moreover have "parse_fields orig (dec 0 @ ''s'') 0 = Inr 0"
      using whole_field [OF units(4), of 0 orig] by (simp add: parse_fields_step)
    ultimately show ?thesis using True by (simp add: format_small_def)
  next
    case False
    have "unit_text ''ns'' (10 ^ 0) []" using units(1) by (simp only: power_0)
    from field [OF this] field [OF units(2)] field [OF units(3)] show ?thesis
      using False q [of 0] q [of 3] q [of 6] by (simp add: format_small_def case_prod_beta del: fmtFrac.simps)
  qed
qed

lemma parse_large:
  assumes "u \<le> 2 ^ 63"
  shows "parse_fields orig (format_large u) 0 = Inr u"
proof -
  obtain frac w where fr: "fmtFrac 9 u False [] = (frac, w)" by fastforce
  have w: "w = u div 10 ^ 9" using fmtFrac_off [of 9 u] fr by auto
  let ?s = "w mod 60" and ?m = "w div 60 mod 60" and ?h = "w div 60 div 60" and ?n = "u mod 10 ^ 9"
  have u: "u = w * 1000000000 + ?n" "w = 60 * (w div 60) + ?s" "w div 60 = 60 * ?h + ?m"
    using w by simp_all
  then have parts: "u = ?h * 3600000000000 + ?m * 60000000000 + ?s * 1000000000 + ?n" by linarith
  have secs: "parse_fields orig (dec ?s @ frac @ ''s'') d = Inr (d + (?s * 1000000000 + ?n))"
    if "d + (?s * 1000000000 + ?n) \<le> 2 ^ 63" for d
    using frac_field [OF units(4) order_refl fr, of ?s orig] that by (simp add: parse_fields_step)
  have mins: "parse_fields orig (dec ?m @ ''m'' @ dec ?s @ frac @ ''s'') d = Inr (d + (?m * 60000000000 + ?s * 1000000000 + ?n))"
    if "d + (?m * 60000000000 + ?s * 1000000000 + ?n) \<le> 2 ^ 63" for d
  proof -
    have "parse_field orig (dec ?m @ ''m'' @ dec ?s @ frac @ ''s'') = Inr (?m * 60000000000, dec ?s @ frac @ ''s'')"
      by (rule whole_field [OF units_then(1)]) (use that in simp)
    then show ?thesis using secs [of "d + ?m * 60000000000"] that by (simp add: parse_fields_step)
  qed
  have hours: "parse_fields orig (dec ?h @ ''h'' @ dec ?m @ ''m'' @ dec ?s @ frac @ ''s'') 0 = Inr u"
  proof -
    have "parse_field orig (dec ?h @ ''h'' @ dec ?m @ ''m'' @ dec ?s @ frac @ ''s'') =
        Inr (?h * 3600000000000, dec ?m @ ''m'' @ dec ?s @ frac @ ''s'')"
      by (rule whole_field [OF units_then(2)]) (use parts assms in linarith)
    then show ?thesis using mins [of "?h * 3600000000000"] parts assms by (simp add: parse_fields_step)
  qed
  consider "w div 60 = 0" | "w div 60 \<noteq> 0" "?h = 0" | "?h \<noteq> 0" by fastforce
  then show ?thesis
  proof cases
    case 1
    then show ?thesis using secs [of 0] parts assms by (simp add: format_large_def fr Let_def)
  next
    case 2
    then show ?thesis using mins [of 0] parts assms by (simp add: format_large_def fr Let_def)
  next
    case 3
    then have "0 < w div 60" by (cases "w div 60 = 0") simp_all
    then show ?thesis using 3 hours by (simp add: format_large_def fr Let_def)
  qed
qed

section \<open>The round trip\<close>

lemma format_starts:
  "\<exists>c s. (if u < 1000000000 then format_small u else format_large u) = c # s \<and> is_digit c"
proof -
  have z: "is_digit CHR ''0''" by code_simp
  have d: "\<exists>c s. dec n @ t = c # s \<and> is_digit c" for n t using dec_starts [of n] by auto
  have "\<exists>c s. format_small u = c # s \<and> is_digit c"
    unfolding format_small_def using z d by (simp add: case_prod_beta del: fmtFrac.simps split: if_splits)
  moreover have "\<exists>c s. format_large u = c # s \<and> is_digit c"
    unfolding format_large_def Let_def using d by (simp add: case_prod_beta del: fmtFrac.simps)
  ultimately show ?thesis by simp
qed

lemma parse_format:
  "u \<le> 2 ^ 63 \<Longrightarrow> parse_fields orig (if u < 1000000000 then format_small u else format_large u) 0 = Inr u"
  using parse_small parse_large by simp

lemma no_unit: "\<exists>e. parse_fields orig ''0'' 0 = Inl e"
  by (subst parse_fields.simps) (simp add: parse_field_def fraction_part_def parse_unit_def is_digit_def digit_val_def)

lemma magnitude:
  fixes d :: "64 word"
  shows "d <s 0 \<Longrightarrow> unat (- d) \<le> 2 ^ 63" "\<not> d <s 0 \<Longrightarrow> unat d < 2 ^ 63"
proof -
  have b: "- (2 ^ 63) \<le> sint d" "sint d < 2 ^ 63" using sint_range_size [of d] by (simp_all add: word_size)
  show "unat (- d) \<le> 2 ^ 63" if "d <s 0"
  proof -
    have neg: "sint d < 0" using that by (simp add: word_sless_alt)
    have "- d = word_of_int (- sint d)" by simp
    then have "uint (- d) = (- sint d) mod 2 ^ 64" by (simp only: uint_word_of_int) simp
    then show ?thesis using neg b by (simp add: unat_eq_nat_uint nat_le_iff)
  qed
  show "unat d < 2 ^ 63" if "\<not> d <s 0"
  proof -
    have nn: "0 \<le> sint d" using that by (simp add: word_sless_alt)
    have "uint d = uint (word_of_int (sint d) :: 64 word)" by simp
    then have "uint d = sint d mod 2 ^ 64" by (simp only: uint_word_of_int) simp
    then show ?thesis using nn b by (simp add: unat_eq_nat_uint nat_less_iff)
  qed
qed

lemma ParseDuration_String: "ParseDuration (Duration_String d) = Inr d"
proof -
  define u where "u = unat (if d <s 0 then - d else d)"
  define body where "body = (if u < 1000000000 then format_small u else format_large u)"
  have u: "u \<le> 2 ^ 63" using magnitude [of d] less_imp_le by (auto simp: u_def)
  obtain c s where c: "body = c # s" "is_digit c" using format_starts [of u] unfolding body_def by blast
  then have sign: "c \<noteq> CHR ''-''" "c \<noteq> CHR ''+''" by (auto simp: is_digit_def)
  have run: "parse_fields orig body 0 = Inr u" for orig using parse_format [OF u] unfolding body_def by blast
  have "body \<noteq> ''0''" using run no_unit [of "[]"] by (metis Inl_Inr_False)
  moreover have "Duration_String d = (if d <s 0 then CHR ''-'' # body else body)"
    by (simp add: Duration_String_def Let_def u_def body_def)
  moreover have "\<not> d <s 0 \<Longrightarrow> u < 2 ^ 63" "\<not> d <s 0 \<Longrightarrow> of_nat u = d" "d <s 0 \<Longrightarrow> - of_nat u = d"
    using magnitude [of d] by (simp_all add: u_def)
  ultimately show ?thesis
    using run sign c by (cases "d <s 0") (auto simp: ParseDuration_def Let_def)
qed

section \<open>JSON texts\<close>

text \<open>
  What the report relies on: the encoder accepts a text of printable characters and the decoder
  gives it back.
\<close>

definition text_char :: "char \<Rightarrow> bool" where
  "text_char c = (c \<noteq> CHR 0x22 \<and> c \<noteq> CHR 0x5C \<and> (32 :: nat) \<le> of_char c)"

locale json_strings =
  fixes encode decode :: "string \<Rightarrow> go_error + string"
  assumes decode_encode: "list_all text_char t \<Longrightarrow> \<exists>data. encode t = Inr data \<and> decode data = Inr t"
begin

lemma marshal_unmarshal:
  assumes "list_all text_char (Duration_String d)"
  shows "\<exists>data. MarshalJSON encode d = Inr data \<and> UnmarshalJSON decode data = Inr d"
  using decode_encode [OF assms] by (auto simp: MarshalJSON_def UnmarshalJSON_def ParseDuration_String)

end

lemma dec_text: "list_all text_char (dec n)"
proof (induction n rule: dec.induct)
  case (1 n)
  have "text_char (char_of (48 + m))" if "m < 10" for m :: nat
  proof -
    have "of_char (char_of (48 + m) :: char) = 48 + m" using that by simp
    then show ?thesis using that unfolding text_char_def by (auto dest: arg_cong [of _ _ "of_char :: char \<Rightarrow> nat"])
  qed
  then show ?case using 1 by (cases "n < 10") (simp_all add: dec.simps [of n])
qed

lemma fmtFrac_text: "list_all text_char buf \<Longrightarrow> list_all text_char (fst (fmtFrac n v pr buf))"
proof (induction n arbitrary: v pr buf)
  case 0
  then show ?case by (simp add: text_char_def)
next
  case (Suc n)
  have "text_char (digit_char (v mod 10))" using dec_text [of "v mod 10"] by (simp add: dec.simps digit_char_def)
  then show ?case using Suc by (simp add: Let_def)
qed

lemma Duration_String_text: "list_all text_char (Duration_String d)"
proof -
  have "list_all text_char ''0s''" "list_all text_char ''ns''" "list_all text_char (micro_sign @ ''s'')" "list_all text_char ''ms''"
    "text_char CHR ''s''" "text_char CHR ''m''" "text_char CHR ''h''" "text_char CHR ''-''"
    by (simp_all add: text_char_def micro_sign_def)
  then show ?thesis
    using dec_text fmtFrac_text [of "[]"]
    by (simp add: Duration_String_def format_small_def format_large_def Let_def case_prod_beta del: fmtFrac.simps)
qed

text \<open>The plain quoting of printable text keeps the contract.\<close>

definition quote_text :: "string \<Rightarrow> go_error + string" where
  "quote_text t = (if list_all text_char t then Inr (CHR 0x22 # t @ [CHR 0x22]) else Inl (Opaque ''unsupported character''))"

definition unquote_text :: "string \<Rightarrow> go_error + string" where
  "unquote_text data =
     (if 2 \<le> length data \<and> hd data = CHR 0x22 \<and> last data = CHR 0x22 \<and> list_all text_char (butlast (tl data))
      then Inr (butlast (tl data)) else Inl (Opaque ''invalid character''))"

interpretation quoted: json_strings quote_text unquote_text
  by unfold_locales (simp add: quote_text_def unquote_text_def)

end
