(* ===== verification/Case_Properties.thy ===== *)
theory Case_Properties
  imports Case_Validation Duration_Roundtrip Example_Suite
begin

text \<open>
  The properties of case files and of the durations in reports, with their examples.
\<close>

text \<open>
  C39: Durations survive a report: whatever the 64 bits of a duration, writing it as JSON succeeds
  and reading the result gives the same duration, fractions, sign and the smallest value included.
  Premise: the JSON library reads back the strings it has written.
\<close>

theorem duration_roundtrip:
  assumes "json_strings encode decode"
  shows "\<exists>data. MarshalJSON encode d = Inr data \<and> UnmarshalJSON decode data = Inr d"
  by (rule json_strings.marshal_unmarshal [OF assms Duration_String_text])

theorem duration_roundtrip_witness:
  "Duration_String (- 90061001002003) = ''-25h1m1.001002003s'' \<and>
   MarshalJSON quote_text (- 90061001002003) = Inr (CHR 0x22 # ''-25h1m1.001002003s'' @ [CHR 0x22]) \<and>
   (\<exists>data. MarshalJSON quote_text (- 90061001002003) = Inr data \<and>
      UnmarshalJSON unquote_text data = Inr (- 90061001002003)) \<and>
   (\<exists>data. MarshalJSON quote_text (2 ^ 63) = Inr data \<and> UnmarshalJSON unquote_text data = Inr (2 ^ 63))"
proof -
  have nine: "fmtFrac 9 = fmtFrac (Suc (Suc (Suc (Suc (Suc (Suc (Suc (Suc (Suc 0)))))))))" by (simp add: eval_nat_numeral)
  have d: "Duration_String (- 90061001002003) = ''-25h1m1.001002003s''"
    by (simp add: Duration_String_def format_large_def nine digit_char_def dec.simps word_sless_alt Let_def char_of_eq_iff)
  then have m: "MarshalJSON quote_text (- 90061001002003) = Inr (CHR 0x22 # ''-25h1m1.001002003s'' @ [CHR 0x22])"
    using Duration_String_text [of "- 90061001002003"] by (simp add: MarshalJSON_def quote_text_def)
  from d m duration_roundtrip [OF quoted.json_strings_axioms, of "- 90061001002003"]
    duration_roundtrip [OF quoted.json_strings_axioms, of "2 ^ 63"]
  show ?thesis by blast
qed

section \<open>Example cases\<close>

definition exec_step :: "target \<Rightarrow> string list \<Rightarrow> step" where
  "exec_step t command = (empty_step ''probe'')\<lparr>st_Exec := Some \<lparr>ex_Options = \<lparr>ao_Target = t, ao_Delay = None, ao_Timeout = None\<rparr>,
     ex_Command = command, ex_Container = [], ex_Retry = None\<rparr>\<rparr>"

definition selector_case :: case_file where
  "selector_case = example_case\<lparr>cf_Steps := [Some ensure_step, None,
     Some (exec_step \<lparr>t_Object = [], t_Kind = ''Pod'', t_LabelSelector = ''app=web''\<rparr> [''true''])]\<rparr>"

definition ambiguous_case :: case_file where
  "ambiguous_case = example_case\<lparr>cf_Version := ''v2'', cf_Steps := [Some ensure_step,
     Some (exec_step \<lparr>t_Object = ''cm'', t_Kind = ''Pod'', t_LabelSelector = []\<rparr> [])]\<rparr>"

definition tagged_io :: "case_file \<Rightarrow> case_io" where
  "tagged_io tc = \<lparr>io_read = (\<lambda>tr p. Inr p), io_unmarshal = (\<lambda>s. Inr tc),
     io_validate = (\<lambda>tc. first_errors ''Case'' (reflect_case tc))\<rparr>"

text \<open>
  C40: The rules of the struct tags type a case: a file that was read and decoded is accepted
  exactly when its version is \<^verbatim>\<open>v1\<close>, the case and all its steps have names, every ensure names an
  object, every other action targets either an object or a kind with a selector, and assertions,
  log checks and commands are not empty, in the steps and in both hooks (null steps aside). The
  service never rejects the target of a log check or a command of an accepted case once it could
  be rendered. Any other file is rejected with a message made of at least one rule it breaks.
  Premise: the documented behaviour of the validator library.
\<close>

theorem accepted_cases_are_typed:
  assumes "tag_validator validate" and "io_validate io = (\<lambda>tc. validate ''Case'' (reflect_case tc))"
    and "io_read io tr path = Inr content" and "io_unmarshal io content = Inr tc"
  shows "if wf_case tc
    then parseCaseFile io tr path = Inr (tc\<lparr>cf_Path := path\<rparr>) \<and>
      (\<forall>st t conf. Some st \<in> set (all_steps tc) \<and> t \<in> set (pod_targets st) \<and> targetConf E s t objects = Inr conf \<longrightarrow>
         validate_target (podTarget conf t) = None)
    else \<exists>errs. errs \<noteq> [] \<and> set errs \<subseteq> set (struct_errors ''Case'' (reflect_case tc) (reflect_case tc)) \<and>
      parseCaseFile io tr path = Inl (Opaque (''invalid case: '' @ formatValidationErrors errs))"
proof -
  have "wf_step st" if "wf_case tc" "Some st \<in> set (all_steps tc)" for st
    using that by (auto simp: wf_case_def list_all_iff dest: bspec)
  then show ?thesis
    using tag_validator.parse_verdict [OF assms] wf_target_valid pod_targets_wf by (smt (verit))
qed

theorem accepted_cases_are_typed_witness:
  "parseCaseFile (tagged_io selector_case) [] ''a.yaml'' = Inr (selector_case\<lparr>cf_Path := ''a.yaml''\<rparr>) \<and>
   wf_case selector_case \<and> \<not> wf_case ambiguous_case \<and>
   parseCaseFile (tagged_io ambiguous_case) [] ''b.yaml'' = Inl (Opaque
     ''invalid case: version: must equal v1; steps[1].exec.target.object: must not be set together with Kind; steps[1].exec.target.labelSelector: required when Kind is set; steps[1].exec.command: must have at least 1 item(s)'')"
proof -
  have io: "io_validate (tagged_io tc) = (\<lambda>tc. first_errors ''Case'' (reflect_case tc))"
    "io_read (tagged_io tc) [] p = Inr p" "io_unmarshal (tagged_io tc) p = Inr tc" for tc p
    by (simp_all add: tagged_io_def)
  have wf: "wf_case selector_case" "\<not> wf_case ambiguous_case"
    by (simp_all add: wf_case_def wf_step_def wf_target_def all_steps_def selector_case_def ambiguous_case_def exec_step_def
        example_case_def empty_step_def ensure_step_def ensure_cm_def)
  have "parseCaseFile (tagged_io ambiguous_case) [] ''b.yaml'' = Inl (Opaque
     ''invalid case: version: must equal v1; steps[1].exec.target.object: must not be set together with Kind; steps[1].exec.target.labelSelector: required when Kind is set; steps[1].exec.command: must have at least 1 item(s)'')"
    by code_simp
  with wf accepted_cases_are_typed [OF first_errors.tag_validator_axioms io, of selector_case "''a.yaml''"]
  show ?thesis by simp
qed

end
