(* ===== verification/Spec2Isabelle.thy ===== *)
theory Spec2Isabelle
  imports Example_Suite Kube_Properties Image_Properties Tool_Properties Case_Properties
begin

text \<open>
  A verification development of kube2e, a runner for declarative end-to-end tests of Kubernetes.

  \<^bold>\<open>The program.\<close> A test case is a YAML file of ordered steps; a suite is a directory with cases and
  templates. The engine (\<^verbatim>\<open>src/pkg/engine\<close>) finds the suites of a directory, or of a tests image it
  pulls and extracts first (\<^verbatim>\<open>src/internal/image\<close>), and runs them in a worker pool. A suite
  (\<^verbatim>\<open>src/internal/engine/test\<close>) runs its cases in order, a case (\<^verbatim>\<open>src/internal/engine/suite\<close>) its steps
  with hooks around them and a cleanup at the end, a step (\<^verbatim>\<open>src/internal/engine/step\<close>) up to seven
  actions (\<^verbatim>\<open>src/internal/engine/action\<close>), and an action calls the Kubernetes service
  (\<^verbatim>\<open>src/internal/kube\<close>), which keeps a cache of the objects it created. Around the engine are tools
  that create, validate and publish suites (\<^verbatim>\<open>src/internal/scaffold\<close>, \<^verbatim>\<open>src/internal/validate\<close>,
  \<^verbatim>\<open>src/internal/image\<close>), a logger, and the commands (\<^verbatim>\<open>src/pkg/command\<close>).

  \<^bold>\<open>How it is modelled.\<close> Operations are functions on an explicit state. Errors are values of
  \<open>go_error\<close>; a function that returns an error returns \<open>go_error option\<close> or a sum. Everything a
  cluster answers is a function of the history of requests: the record \<open>env\<close> holds these functions,
  and the events \<open>ev\<close> of a run are its history, so that answers may change over time in any way.
  Client libraries are fields of \<open>env\<close> too; what their documentation promises are the locales
  \<open>retrier\<close>, \<open>poller\<close> and \<open>kube_env\<close>, interpreted by reference implementations. Files are a tree of
  directories, files and links with the path resolution of the kernel; faults of the operating
  system are functions in the record \<open>os\<close>. The other libraries are records of functions:
  \<open>registry\<close>, \<open>tar_writer\<close>, \<open>schema_lib\<close>, \<open>flag_lib\<close>, \<open>cli\<close>; the documented behaviour that the code relies on
  are locales, each interpreted by a reference implementation (\<open>json_strings\<close>, \<open>tag_validator\<close>,
  \<open>flag_library\<close>, \<open>image_format\<close>).

  \<^bold>\<open>Theories.\<close>
  \<^item> \<^verbatim>\<open>Prelude\<close>, \<^verbatim>\<open>Sequencing\<close>: text, Go errors (wrapping, joining, sentinels of \<^verbatim>\<open>internal/errors\<close>), the
    loop over a list that stops at the first error.
  \<^item> \<^verbatim>\<open>Safe_Store\<close> (\<^verbatim>\<open>tools/safe\<close>), \<^verbatim>\<open>Retry\<close> (the retry and poll loops of the client library), \<^verbatim>\<open>Tools\<close>
    (\<^verbatim>\<open>tools/filter\<close>, \<^verbatim>\<open>tools/patch\<close>, \<^verbatim>\<open>template\<close>), \<^verbatim>\<open>Engine_Model\<close> (states and statistics).
  \<^item> \<^verbatim>\<open>Kube_Env\<close> (events, environment, invariants of the cache), \<^verbatim>\<open>Kube_Core\<close> (New, Ensure, Patch),
    \<^verbatim>\<open>Kube_Wait\<close> (Wait, Check, Filter, Delete, Cleanup), \<^verbatim>\<open>Kube_Pods\<close> (logs, exec, version): \<^verbatim>\<open>kube/service.go\<close>.
    \<^verbatim>\<open>Kube_Cleanup\<close>, \<^verbatim>\<open>Kube_Contracts\<close>, \<^verbatim>\<open>Pod_Contracts\<close>: what the success of each operation means.
    \<^verbatim>\<open>Kube_Properties\<close>: the properties of the service.
  \<^item> \<^verbatim>\<open>Actions\<close>, \<^verbatim>\<open>Steps\<close>, \<^verbatim>\<open>Suite\<close> (a case and its file), \<^verbatim>\<open>Test_Run\<close> (a suite), \<^verbatim>\<open>Engine_Run\<close> (worker pool,
    local run, report): \<^verbatim>\<open>internal/engine\<close> and \<^verbatim>\<open>pkg/engine\<close>. \<^verbatim>\<open>Case_Contracts\<close>, \<^verbatim>\<open>Case_Leaks\<close>,
    \<^verbatim>\<open>Test_Contracts\<close>: reports, statistics, and that nothing is left behind.
  \<^item> \<^verbatim>\<open>Case_Validation\<close> (the struct tags of cases, steps and actions, and the type of a case they define),
    \<^verbatim>\<open>Durations\<close> (\<^verbatim>\<open>engine/duration.go\<close>, with the formatter and the parser of the \<^verbatim>\<open>time\<close> package on
    64-bit words), \<^verbatim>\<open>Duration_Roundtrip\<close>, \<^verbatim>\<open>Case_Properties\<close>.
  \<^item> \<^verbatim>\<open>Paths\<close> (\<^verbatim>\<open>path/filepath\<close>), \<^verbatim>\<open>Files\<close> (\<^verbatim>\<open>os\<close>), \<^verbatim>\<open>File_Facts\<close>, \<^verbatim>\<open>Quiet_Files\<close> (the locale \<open>quiet_os\<close> of an
    operating system without faults): path resolution, directories that grow, trees without links.
  \<^item> \<^verbatim>\<open>Image_Extract\<close> (\<^verbatim>\<open>image/traverse.go\<close>), \<^verbatim>\<open>Image_Confined\<close>, \<^verbatim>\<open>Engine_Remote\<close> (\<^verbatim>\<open>RunTests\<close>, \<^verbatim>\<open>runRemote\<close>),
    \<^verbatim>\<open>Image_Build\<close> (\<^verbatim>\<open>image/build.go\<close>), \<^verbatim>\<open>Image_Layer\<close>, \<^verbatim>\<open>Image_Roundtrip\<close>, \<^verbatim>\<open>Image_Exchange\<close> (\<^verbatim>\<open>Build\<close> and
    \<^verbatim>\<open>Traverse\<close> end to end, with a reference archive format), \<^verbatim>\<open>Image_Escape\<close>, \<^verbatim>\<open>Image_Properties\<close>: what
    extraction may touch, what a layer holds, and that both fit together.
  \<^item> \<^verbatim>\<open>Validate\<close> (\<^verbatim>\<open>internal/validate\<close>), \<^verbatim>\<open>Scaffold\<close> (\<^verbatim>\<open>internal/scaffold\<close>), \<^verbatim>\<open>Scaffold_Safety\<close>,
    \<^verbatim>\<open>Logger\<close> (\<^verbatim>\<open>tools/logs\<close>),
    \<^verbatim>\<open>Commands\<close> (the run functions of \<^verbatim>\<open>pkg/command\<close>, \<^verbatim>\<open>internal/version\<close>), \<^verbatim>\<open>Command_Tree\<close> (the commands, their
    flags and settings, \<^verbatim>\<open>cmd/kube2e\<close>), \<^verbatim>\<open>Tool_Properties\<close>.
  \<^item> \<^verbatim>\<open>Example_Cluster\<close>, \<^verbatim>\<open>Example_Suite\<close>, \<^verbatim>\<open>Example_Files\<close>: the concrete inputs of the witnesses.

  \<^bold>\<open>What is shown.\<close> A case that succeeds leaves no object it created, and cleanup runs on every path
  (C1, C2, C3, C13); the success of an operation means the request it is named after (C4 to C7, C9
  to C11), bounded (C8) and reached when the command recovers (C38); reports agree with what
  happened (C14, C15, C18, C20, C22); steps, hooks, cases and suites run in the specified order
  (C16, C17, C19); the schedule of the pool does not matter (C21); a dry run sends nothing (C23).
  Extraction stays in its directory for images without links (C25) and by its parent guard (C26),
  a run restores the file tree (C28), what is published is what a later run from the image works on (C27), and directory
  walks end (C30); C29 shows how a link defeats the guards. Validation reports exactly what the
  schema rejects (C31 to C33), the scaffold makes suites that validation finds and never
  overwrites anything (C34, C35), both log formats agree (C36), a run gets the settings its arguments and its
  environment ask for (C37). Durations in reports can be read back (C39), and the rules of a case
  file are a type: accepted cases have targets the service understands (C40).

  \<^bold>\<open>Bounds.\<close> A retry has the steps of its backoff; a poll is a relation of any finite number of
  rounds. Path resolution follows at most 40 links (the kernel) and 255 (the library), as the
  originals do; both are total functions. The directory walk is bounded by the number of nodes of
  the tree plus three, which C30 shows to be enough. All other loops are over lists.

  \<^bold>\<open>Not modelled.\<close> Log calls inside the operations (the logger itself is); the long help texts and
  examples of the commands; the interrupt handling of the process, which ends the context of a run at
  some point of its history; modes and owners of files, and file trees that other processes change
  during an operation; the internals of the registry client, the tar format, the YAML, JSON, JQ,
  JSON-patch, template, schema, validator, flag and configuration libraries, which are parameters.
  Text is a list of bytes; upper and lower case and white space are those of ASCII.
\<close>

section \<open>Cases\<close>


definition example_run :: "(case_report \<times> go_error option) \<times> ev list" where
  "example_run = Run_case cluster example_io RunCtx example_conf []"

lemma example_run_split: "fst (fst x) = r \<Longrightarrow> snd (fst x) = e \<Longrightarrow> x = ((r, e), snd x)"
  by (simp add: prod_eq_iff)


text \<open>
  C2: However its steps ended, a case with at least one step ends with a cleanup on a context that
  is detached from the run's cancellation and bounded by thirty seconds; the error of the case is
  nil exactly when both the steps and the cleanup returned nil.
\<close>

theorem case_ends_with_detached_cleanup:
  assumes "cf_Steps tc \<noteq> []"
  shows "\<exists>r0 tr0 r1 err k1.
    case_newReport E (Some tc) tr = (r0, tr0) \<and>
    case_loop E c s tc (cf_Steps tc) r0 (sv, tr0) = ((r1, err), k1) \<and>
    snd (run_case E c s (Some tc) (sv, tr)) = snd (Cleanup E (WithTimeout (WithoutCancel c) (30 * 1000000000)) k1) \<and>
    (snd (fst (run_case E c s (Some tc) (sv, tr))) = None \<longleftrightarrow>
       err = None \<and> fst (Cleanup E (WithTimeout (WithoutCancel c) (30 * 1000000000)) k1) = None)"
proof -
  obtain r0 tr0 r1 err k1 where "case_newReport E (Some tc) tr = (r0, tr0)"
    and "case_loop E c s tc (cf_Steps tc) r0 (sv, tr0) = ((r1, err), k1)"
    and "run_case E c s (Some tc) (sv, tr) =
      ((r1, fst (deferred_cleanup E c err k1)), snd (deferred_cleanup E c err k1))"
    using run_case_loop [OF assms] by blast
  then show ?thesis
    using deferred_cleanup_parts [of E c err k1]
    by (intro exI [of _ r0] exI [of _ tr0] exI [of _ r1] exI [of _ err] exI [of _ k1]) (simp add: cleanupTimeout_def)
qed

theorem case_ends_with_detached_cleanup_witness:
  "\<exists>r0 tr0 r1 err k1.
    case_newReport cluster (Some example_case) [] = (r0, tr0) \<and>
    case_loop cluster RunCtx (case_service_of example_conf example_case) example_case (cf_Steps example_case) r0
      (example_service, tr0) = ((r1, err), k1) \<and>
    snd (run_case cluster RunCtx (case_service_of example_conf example_case) (Some example_case) (example_service, [])) =
      snd (Cleanup cluster (WithTimeout (WithoutCancel RunCtx) (30 * 1000000000)) k1) \<and>
    (snd (fst (run_case cluster RunCtx (case_service_of example_conf example_case) (Some example_case) (example_service, []))) = None \<longleftrightarrow>
       err = None \<and> fst (Cleanup cluster (WithTimeout (WithoutCancel RunCtx) (30 * 1000000000)) k1) = None)"
  by (rule case_ends_with_detached_cleanup) (simp add: example_case_def)

text \<open>
  C13: Whatever the cluster answers, from the start of a case to its end the keys of the applied
  cache move exactly as an observer of the requests moves: a key is added when a probe that found
  nothing is followed by an accepted apply, removed when a delete for it is sent, and touched by
  nothing else; a sound cache stays sound and the configuration of the service never changes.
\<close>

theorem case_cache_follows_requests:
  assumes "kube_env E"
  shows "evolves k (snd (run_case E c s testCase k))"
  using kube_env.run_case_evolves [OF assms] .

theorem case_cache_follows_requests_witness:
  "evolves (example_service, [])
     (snd (run_case cluster RunCtx (case_service_of example_conf example_case) (Some example_case) (example_service, [])))"
  by (rule case_cache_follows_requests [OF cluster_kube])

text \<open>
  C14: The verdict of a case. An error makes the state failed with the text of the error as its
  reason. Without an error the case was skipped by the tag filter, or it passed: every declared
  step has a report, none failed, and the passed count is the total. In every run that was not
  skipped the counts add up to the step reports, at most one step failed, the statistics are the
  sums over the reports and the duration is finish minus start.
\<close>

theorem case_report_verdict: "case_verdict conf (fst (Run_case E io c conf tr))"
  by (rule Run_case_verdict)

text \<open>
  C15: The statistics of a case count its successful actions: ensured, patched and deleted are the
  numbers of ensure, patch and delete actions that passed in its steps and hooks.
\<close>

theorem case_stats_count_actions:
  assumes "fst (Run_case E io c conf tr) = (r, err)" and "cr_State r \<noteq> StateSkipped"
  shows "Ensured (cr_Stats r) = passed_actions NameEnsure (actions_of (cr_Steps r @ hook_reports r)) \<and>
    Patched (cr_Stats r) = passed_actions NamePatch (actions_of (cr_Steps r @ hook_reports r)) \<and>
    Deleted (cr_Stats r) = passed_actions NameDelete (actions_of (cr_Steps r @ hook_reports r))"
proof -
  have "case_verdict conf (r, err)" using Run_case_verdict [of conf E io c tr] assms(1) by simp
  then have "cr_Stats r = objectStats (actions_of (cr_Steps r @ hook_reports r))"
    using assms(2) caseStats_sound [of r] by (simp add: case_verdict_def)
  then show ?thesis by (simp add: objectStats_counts)
qed

theorem case_stats_count_actions_witness:
  "Ensured (cr_Stats (fst (fst example_run))) =
     passed_actions NameEnsure (actions_of (cr_Steps (fst (fst example_run)) @ hook_reports (fst (fst example_run)))) \<and>
   Ensured (cr_Stats (fst (fst example_run))) = 1"
proof -
  have st: "cr_State (fst (fst example_run)) \<noteq> StateSkipped" by code_simp
  have one: "Ensured (cr_Stats (fst (fst example_run))) = 1" by code_simp
  from case_stats_count_actions [of cluster example_io RunCtx example_conf "[]"
      "fst (fst example_run)" "snd (fst example_run)", OF _ st] one
  show ?thesis by (simp add: example_run_def)
qed

text \<open>
  C16: One step with its hooks. The before hooks run in order until one fails; the step runs only
  if none failed and is reported as skipped otherwise; the after hooks run in every case, from the
  state the step (or the failed before hook) left; the error is nil exactly when all three are.
\<close>

theorem step_with_hooks_order:
  "hooks_run E c s tc st k
     (fst (fst (runStepWithHooks E c s tc st k))) (fst (snd (fst (runStepWithHooks E c s tc st k))))
     (snd (snd (fst (runStepWithHooks E c s tc st k)))) (snd (runStepWithHooks E c s tc st k))"
  by (rule runStepWithHooks_run) simp

section \<open>Steps\<close>

text \<open>
  C17: The seven guarded branches of a step are the sequence of its configured actions in the
  order ensure, patch, wait, assert, logs, exec, delete, stopped at the first failure.
\<close>

theorem step_refines_script:
  "service_run E c s (Some st) objects k = run_seq (run_item E c s objects) (script st) k"
  by (rule service_run_script)

text \<open>
  C18: The report of a step: the total is the number of configured actions, the reports are those
  of the first actions of the script, all passed, or all but the last, which failed with the
  error of the step. A failed optional step is skipped and returns no error.
\<close>

theorem step_report_outcome: "step_outcome st (fst (Run_step E c (conf\<lparr>sc_Step := Some st\<rparr>) (sv, tr)))"
  by (rule Run_step_outcome) simp

section \<open>Suites and the engine\<close>




text \<open>
  C20: The verdict of a suite report: total, passed and failed are the numbers of its cases, the
  failed count is the number of failed case reports, statistics and duration add up, and the state
  is passed exactly when no error is returned, in which case no case failed.
\<close>

theorem suite_report_verdict: "test_verdict (fst (Run_test E io c conf tr))"
  by (rule Run_test_verdict)



text \<open>
  C22: With a readable work directory the aggregate report lists one report per visible
  subdirectory, in discovery order, each that of its own suite run; the totals and counts are
  theirs, and the error is nil exactly when no suite returned one: a failing suite neither stops
  nor hides the others.
\<close>

theorem engine_reports_every_suite:
  assumes "worker_group g" and "si_readdir io (tr @ [EvNow (env_now E tr)]) (ec_WorkDir cfg) = Inr entries"
    and "runLocal E W io g c cfg tr = ((r, err), tr')"
  shows "er_Tests r = map (\<lambda>d. fst (suite_result W io cfg (tr @ [EvNow (env_now E tr)]) (GroupCtx c) d))
      (suite_dirs (ec_WorkDir cfg) entries) \<and>
    (err = None \<longleftrightarrow> (\<forall>d \<in> set (suite_dirs (ec_WorkDir cfg) entries).
      snd (suite_result W io cfg (tr @ [EvNow (env_now E tr)]) (GroupCtx c) d) = None)) \<and>
    er_Total r = length (suite_dirs (ec_WorkDir cfg) entries) \<and>
    er_Passed r + er_Failed r = er_Total r \<and> (err = None \<longleftrightarrow> er_Failed r = 0)"
  using runLocal_summary [OF assms] .

definition example_engine_run :: "(engine_report \<times> go_error option) \<times> ev list" where
  "example_engine_run = runLocal cluster (\<lambda>_. cluster) example_suite_io group_seq RunCtx example_engine_conf []"

theorem engine_reports_every_suite_witness:
  "er_Total (fst (fst example_engine_run)) = 1 \<and>
   er_Passed (fst (fst example_engine_run)) + er_Failed (fst (fst example_engine_run)) = 1"
proof -
  have dir: "si_readdir example_suite_io ([] @ [EvNow (env_now cluster [])]) (ec_WorkDir example_engine_conf) =
      Inr [\<lparr>d_name = ''a.yaml'', d_isdir = False\<rparr>, \<lparr>d_name = ''b.txt'', d_isdir = False\<rparr>,
           \<lparr>d_name = ''c.yaml'', d_isdir = False\<rparr>, \<lparr>d_name = ''sub'', d_isdir = True\<rparr>]"
    by (simp add: example_suite_io_def)
  have one: "length (suite_dirs (ec_WorkDir example_engine_conf) [\<lparr>d_name = ''a.yaml'', d_isdir = False\<rparr>,
      \<lparr>d_name = ''b.txt'', d_isdir = False\<rparr>, \<lparr>d_name = ''c.yaml'', d_isdir = False\<rparr>, \<lparr>d_name = ''sub'', d_isdir = True\<rparr>]) = 1"
    by (simp add: suite_dirs_def)
  from engine_reports_every_suite [OF one_by_one.worker_group_axioms dir
      example_run_split [OF refl refl, of example_engine_run, unfolded example_engine_run_def]] one
  show ?thesis by (simp add: example_engine_run_def)
qed

text \<open>
  C23: In dry-run mode a whole suite reaches neither the API server nor any pod: its history
  consists of clock readings and delays.
\<close>

theorem dry_run_touches_nothing:
  assumes "tf_DryRun conf"
  shows "calm tr (snd (Run_test E io c conf tr))"
  using Run_test_calm [OF assms] .

theorem dry_run_touches_nothing_witness:
  "calm [] (snd (Run_test cluster example_suite_io RunCtx (example_test_conf\<lparr>tf_DryRun := True\<rparr>) []))"
  by (rule dry_run_touches_nothing) simp

text \<open>
  C24: The tag filter: a case that parses is skipped, without creating a service or a request,
  exactly when tags are requested and it has none of them.
\<close>

theorem tag_filter_skips:
  assumes "parseCaseFile io (tr @ [EvNow (env_now E tr)]) (cc_Path conf) = Inr tc"
  shows "cr_State (fst (fst (Run_case E io c conf tr))) = StateSkipped \<longleftrightarrow>
    cc_Tags conf \<noteq> [] \<and> set (cf_Tags tc) \<inter> set (cc_Tags conf) = {}"
  using Run_case_skips [OF assms] .

theorem tag_filter_skips_witness:
  "cr_State (fst (fst (Run_case cluster example_io RunCtx (example_conf\<lparr>cc_Tags := [''slow'']\<rparr>) []))) = StateSkipped"
proof -
  have "parseCaseFile example_io ([] @ [EvNow (env_now cluster [])]) (cc_Path (example_conf\<lparr>cc_Tags := [''slow'']\<rparr>)) =
      Inr (example_case\<lparr>cf_Path := cc_Path example_conf\<rparr>)"
    by (simp add: parseCaseFile_def example_io_def)
  from tag_filter_skips [OF this] show ?thesis by (simp add: example_case_def)
qed

end
